theory Spec2Isabelle
  imports Main
begin

section \<open>Exceptions\<close>

text \<open>
  The JavaScript exceptions the sources raise, as values. \<open>Error msg\<close> is
  \<^verbatim>\<open>new Error(msg)\<close>, \<open>OKXError msg code\<close> and \<open>BinanceError msg code\<close> are the
  two venue error classes, \<open>TypeError\<close> is a property access on \<^verbatim>\<open>undefined\<close> or
  \<^verbatim>\<open>null\<close>, \<open>AssertionError\<close> is raised by the big-integer library.
\<close>

datatype exn =
    Error string
  | OKXError string string
  | BinanceError string string
  | TypeError
  | AssertionError string

section \<open>Trading-pair resolution (Binance and OKX adapters)\<close>

text \<open>
  \<^verbatim>\<open>getTradingPair\<close> declares \<^verbatim>\<open>tradingPair\<close> and \<^verbatim>\<open>buy\<close> without a value,
  runs two \<^verbatim>\<open>if\<close> blocks with a \<^verbatim>\<open>switch\<close> that has no default case, and returns
  both variables. \<open>None\<close> is \<^verbatim>\<open>undefined\<close>.
\<close>

record TradingPair =
  buy :: "bool option"
  tradingPair :: "string option"

definition Binance_getTradingPair :: "string \<Rightarrow> string \<Rightarrow> TradingPair" where
  "Binance_getTradingPair srcCurrency dstCurrency =
    (let r0 = \<lparr>buy = None, tradingPair = None\<rparr>;
         r1 = (if srcCurrency = ''BTC'' \<or> srcCurrency = ''BTC-LN'' then
                 (if dstCurrency = ''USDC'' then \<lparr>buy = Some False, tradingPair = Some ''BTCUSDC''\<rparr>
                  else if dstCurrency = ''USDT'' then \<lparr>buy = Some False, tradingPair = Some ''BTCUSDT''\<rparr>
                  else if dstCurrency = ''ETH'' then \<lparr>buy = Some True, tradingPair = Some ''ETHBTC''\<rparr>
                  else if dstCurrency = ''SOL'' then \<lparr>buy = Some True, tradingPair = Some ''SOLBTC''\<rparr>
                  else r0)
               else r0);
         r2 = (if dstCurrency = ''BTC'' \<or> dstCurrency = ''BTC-LN'' then
                 (if srcCurrency = ''USDC'' then \<lparr>buy = Some True, tradingPair = Some ''BTCUSDC''\<rparr>
                  else if srcCurrency = ''USDT'' then \<lparr>buy = Some True, tradingPair = Some ''BTCUSDT''\<rparr>
                  else if srcCurrency = ''ETH'' then \<lparr>buy = Some False, tradingPair = Some ''ETHBTC''\<rparr>
                  else if srcCurrency = ''SOL'' then \<lparr>buy = Some False, tradingPair = Some ''SOLBTC''\<rparr>
                  else r1)
               else r1)
     in r2)"

definition OKX_getTradingPair :: "string \<Rightarrow> string \<Rightarrow> TradingPair" where
  "OKX_getTradingPair srcCurrency dstCurrency =
    (let r0 = \<lparr>buy = None, tradingPair = None\<rparr>;
         r1 = (if srcCurrency = ''BTC'' \<or> srcCurrency = ''BTC-LN'' then
                 (if dstCurrency = ''USDC'' then \<lparr>buy = Some False, tradingPair = Some ''BTC-USDC''\<rparr>
                  else if dstCurrency = ''USDT'' then \<lparr>buy = Some False, tradingPair = Some ''BTC-USDT''\<rparr>
                  else if dstCurrency = ''ETH'' then \<lparr>buy = Some True, tradingPair = Some ''ETH-BTC''\<rparr>
                  else if dstCurrency = ''SOL'' then \<lparr>buy = Some True, tradingPair = Some ''SOL-BTC''\<rparr>
                  else r0)
               else r0);
         r2 = (if dstCurrency = ''BTC'' \<or> dstCurrency = ''BTC-LN'' then
                 (if srcCurrency = ''USDC'' then \<lparr>buy = Some True, tradingPair = Some ''BTC-USDC''\<rparr>
                  else if srcCurrency = ''USDT'' then \<lparr>buy = Some True, tradingPair = Some ''BTC-USDT''\<rparr>
                  else if srcCurrency = ''ETH'' then \<lparr>buy = Some False, tradingPair = Some ''ETH-BTC''\<rparr>
                  else if srcCurrency = ''SOL'' then \<lparr>buy = Some False, tradingPair = Some ''SOL-BTC''\<rparr>
                  else r1)
               else r1)
     in r2)"

text \<open>The currencies of the \<^verbatim>\<open>currencyDecimals\<close> tables (the same keys on both venues).\<close>

definition supported_currency :: "string \<Rightarrow> bool" where
  "supported_currency c = (c \<in> set [''BTC'', ''BTC-LN'', ''USDC'', ''USDT'', ''ETH'', ''SOL''])"

definition btc_like :: "string \<Rightarrow> bool" where
  "btc_like c = (c = ''BTC'' \<or> c = ''BTC-LN'')"

text \<open>Two buy flags are boolean complements when both are booleans and they differ.\<close>

definition complements :: "bool option \<Rightarrow> bool option \<Rightarrow> bool" where
  "complements a b = (case (a, b) of (Some x, Some y) \<Rightarrow> x = (\<not> y) | _ \<Rightarrow> False)"

definition is_string :: "string option \<Rightarrow> bool" where
  "is_string a = (case a of Some _ \<Rightarrow> True | None \<Rightarrow> False)"

section \<open>Big integers and strings (bn.js and the JavaScript string methods)\<close>

text \<open>
  Amounts are bn.js big integers: unbounded, signed. They are modelled as \<open>int\<close>.
  The library is not part of the repository; the functions below follow its documented
  behaviour for the methods the sources call: \<^verbatim>\<open>toString(base, padding)\<close>,
  \<^verbatim>\<open>new BN(string, base)\<close>, \<^verbatim>\<open>div\<close> (truncating towards zero; dividing by
  zero fails an assertion), \<^verbatim>\<open>toJSON\<close>.
\<close>

definition digit_char :: "nat \<Rightarrow> char" where
  "digit_char d = (if d < 10 then char_of (48 + d) else char_of (87 + d))"

definition char_digit :: "char \<Rightarrow> nat option" where
  "char_digit c =
    (let n = (of_char c :: nat) in
       if 48 \<le> n \<and> n \<le> 57 then Some (n - 48)
       else if 97 \<le> n \<and> n \<le> 122 then Some (n - 87)
       else if 65 \<le> n \<and> n \<le> 90 then Some (n - 55)
       else None)"

definition valid_digit :: "nat \<Rightarrow> char \<Rightarrow> bool" where
  "valid_digit b c = (case char_digit c of Some v \<Rightarrow> v < b | None \<Rightarrow> False)"

definition digit_val :: "char \<Rightarrow> nat" where
  "digit_val c = (case char_digit c of Some v \<Rightarrow> v | None \<Rightarrow> 0)"

text \<open>The digits of a natural number in base \<open>b\<close>, most significant first.\<close>

function nat_digits :: "nat \<Rightarrow> nat \<Rightarrow> string" where
  "nat_digits b n =
     (if n < b \<or> b < 2 then [digit_char n]
      else nat_digits b (n div b) @ [digit_char (n mod b)])"
  by pat_completeness auto
termination
  by (relation "measure (\<lambda>(b, n). n)") auto

declare nat_digits.simps [simp del]

definition digits_val :: "nat \<Rightarrow> string \<Rightarrow> nat" where
  "digits_val b s = foldl (\<lambda>acc c. acc * b + digit_val c) 0 s"

text \<open>\<^verbatim>\<open>s.padStart(n, "0")\<close> and \<^verbatim>\<open>s.padEnd(n, "0")\<close>.\<close>

definition padStart :: "nat \<Rightarrow> string \<Rightarrow> string" where
  "padStart n s = replicate (n - length s) (CHR ''0'') @ s"

definition padEnd :: "nat \<Rightarrow> string \<Rightarrow> string" where
  "padEnd n s = s @ replicate (n - length s) (CHR ''0'')"

text \<open>
  \<^verbatim>\<open>x.toString(base, padding)\<close>: the digits of the absolute value, left-padded with
  zeros to a multiple of \<open>padding\<close>, then the sign.
\<close>

definition pad_multiple :: "nat \<Rightarrow> string \<Rightarrow> string" where
  "pad_multiple p s =
     (if p = 0 then s else replicate ((p - length s mod p) mod p) (CHR ''0'') @ s)"

definition BN_toString :: "nat \<Rightarrow> nat \<Rightarrow> int \<Rightarrow> string" where
  "BN_toString b p x =
     (if x < 0 then CHR ''-'' # pad_multiple p (nat_digits b (nat (- x)))
      else pad_multiple p (nat_digits b (nat x)))"

text \<open>
  \<^verbatim>\<open>new BN(s, base)\<close>: an optional leading minus sign, then digits of the base; any
  other character fails the library's assertion. The empty string is zero.
\<close>

definition BN_parse :: "nat \<Rightarrow> string \<Rightarrow> exn + int" where
  "BN_parse b s =
     (case s of
        [] \<Rightarrow> Inr 0
      | c # cs \<Rightarrow>
          if c = CHR ''-'' then
            (if list_all (valid_digit b) cs then Inr (- int (digits_val b cs))
             else Inl (AssertionError ''Invalid character''))
          else
            (if list_all (valid_digit b) s then Inr (int (digits_val b s))
             else Inl (AssertionError ''Invalid character'')))"

text \<open>\<^verbatim>\<open>a.div(b)\<close>: truncated division; a zero divisor fails an assertion.\<close>

definition BN_div :: "int \<Rightarrow> int \<Rightarrow> exn + int" where
  "BN_div a b =
     (if b = 0 then Inl (AssertionError ''Assertion failed'')
      else Inr (sgn a * sgn b * (\<bar>a\<bar> div \<bar>b\<bar>)))"

text \<open>
  \<^verbatim>\<open>s.split(".")\<close> gives the pieces between the separators (one piece when there is
  none); \<^verbatim>\<open>s.substring(0, n)\<close> clamps a negative \<open>n\<close> to zero.
\<close>

fun split_on :: "char \<Rightarrow> string \<Rightarrow> string list" where
  "split_on c [] = [[]]"
| "split_on c (x # xs) =
     (if x = c then [] # split_on c xs
      else (case split_on c xs of p # ps \<Rightarrow> (x # p) # ps | [] \<Rightarrow> [[x]]))"

definition substring0 :: "string \<Rightarrow> int \<Rightarrow> string" where
  "substring0 s n = take (nat n) s"

section \<open>Decimal conversion at the exchange boundary\<close>

text \<open>
  \<^verbatim>\<open>toDecimal(amount, decimalCount)\<close> and \<^verbatim>\<open>fromDecimal(amount, decimalCount)\<close>,
  identical in the Binance and the OKX adapter.
\<close>

definition toDecimal :: "int \<Rightarrow> int \<Rightarrow> string" where
  "toDecimal amount decimalCount =
     (if decimalCount \<le> 0 then
        BN_toString 10 1 amount @ replicate (nat (- decimalCount)) (CHR ''0'')
      else
        (let amountStr = padStart (nat (decimalCount + 1)) (BN_toString 10 1 amount);
             splitPoint = length amountStr - nat decimalCount
         in take splitPoint amountStr @ ''.'' @ drop splitPoint amountStr))"

definition fromDecimal :: "string \<Rightarrow> int \<Rightarrow> exn + int" where
  "fromDecimal amount decimalCount =
     (if CHR ''.'' \<in> set amount then
        (case split_on (CHR ''.'') amount of
           before_part # after_part # _ \<Rightarrow>
             if decimalCount < 0 then
               BN_parse 10 (substring0 before_part (int (length before_part) + decimalCount))
             else if int (length after_part) > decimalCount then
               BN_parse 10 ((if before_part = ''0'' then [] else before_part) @ substring0 after_part decimalCount)
             else
               BN_parse 10 ((if before_part = ''0'' then [] else before_part) @ padEnd (nat decimalCount) after_part)
         | _ \<Rightarrow> Inl TypeError)
      else
        (if decimalCount < 0 then
           BN_parse 10 (substring0 amount (int (length amount) + decimalCount))
         else
           BN_parse 10 (amount @ replicate (nat decimalCount) (CHR ''0''))))"

text \<open>The two \<^verbatim>\<open>currencyDecimals\<close> tables; \<open>None\<close> is a key the table does not have.\<close>

definition currencyDecimals_Binance :: "string \<Rightarrow> int option" where
  "currencyDecimals_Binance c =
     (if c = ''BTC'' then Some 8 else if c = ''BTC-LN'' then Some 8
      else if c = ''USDC'' then Some 6 else if c = ''USDT'' then Some 6
      else if c = ''ETH'' then Some 18 else if c = ''SOL'' then Some 9 else None)"

definition currencyDecimals_OKX :: "string \<Rightarrow> int option" where
  "currencyDecimals_OKX c =
     (if c = ''BTC'' then Some 8 else if c = ''BTC-LN'' then Some 8
      else if c = ''USDC'' then Some 18 else if c = ''USDT'' then Some 18
      else if c = ''ETH'' then Some 18 else if c = ''SOL'' then Some 9 else None)"

text \<open>
  A decimal string, as the venues print amounts and as \<^verbatim>\<open>toDecimal\<close> prints them: a
  canonical non-negative integer part (decimal digits, not empty, no leading zero unless
  it is the single digit 0), optionally followed by a point and at most \<open>d\<close> decimal
  digits. Its normal form pads the fractional part with zeros to exactly \<open>d\<close> digits.
\<close>

definition is_dec_digit :: "char \<Rightarrow> bool" where
  "is_dec_digit c = (48 \<le> (of_char c :: nat) \<and> (of_char c :: nat) \<le> 57)"

definition canonical_int :: "string \<Rightarrow> bool" where
  "canonical_int s =
     (case s of [] \<Rightarrow> False
      | c # cs \<Rightarrow> list_all is_dec_digit s \<and> (c = CHR ''0'' \<and> cs = [] \<or> c \<noteq> CHR ''0''))"

definition decimal_string :: "string \<Rightarrow> nat \<Rightarrow> bool" where
  "decimal_string s d =
     (case split_on (CHR ''.'') s of
        [ip] \<Rightarrow> canonical_int ip
      | [ip, fp] \<Rightarrow> canonical_int ip \<and> list_all is_dec_digit fp \<and> length fp \<le> d
      | _ \<Rightarrow> False)"

definition normalized :: "string \<Rightarrow> nat \<Rightarrow> string" where
  "normalized s d =
     (case split_on (CHR ''.'') s of
        [ip] \<Rightarrow> ip @ ''.'' @ replicate d (CHR ''0'')
      | [ip, fp] \<Rightarrow> ip @ ''.'' @ padEnd d fp
      | _ \<Rightarrow> s)"

text \<open>
  A key missing from \<^verbatim>\<open>currencyDecimals\<close> gives \<^verbatim>\<open>undefined\<close> as the decimal count.
  JavaScript then takes neither comparison (\<^verbatim>\<open>undefined <= 0\<close>, \<^verbatim>\<open>undefined < 0\<close>
  and \<^verbatim>\<open>n > undefined\<close> are false), pads to length \<^verbatim>\<open>NaN\<close> (no padding), repeats
  zero times and splits at \<^verbatim>\<open>NaN\<close> (position 0).
\<close>

definition toDecimal_undefined :: "int \<Rightarrow> string" where
  "toDecimal_undefined amount = ''.'' @ BN_toString 10 1 amount"

definition toDecimal_at :: "int \<Rightarrow> int option \<Rightarrow> string" where
  "toDecimal_at amount decimalCount =
     (case decimalCount of Some d \<Rightarrow> toDecimal amount d | None \<Rightarrow> toDecimal_undefined amount)"

definition fromDecimal_undefined :: "string \<Rightarrow> exn + int" where
  "fromDecimal_undefined amount =
     (if CHR ''.'' \<in> set amount then
        (case split_on (CHR ''.'') amount of
           before_part # after_part # _ \<Rightarrow>
             BN_parse 10 ((if before_part = ''0'' then [] else before_part) @ after_part)
         | _ \<Rightarrow> Inl TypeError)
      else BN_parse 10 amount)"

definition fromDecimal_at :: "string \<Rightarrow> int option \<Rightarrow> exn + int" where
  "fromDecimal_at amount decimalCount =
     (case decimalCount of Some d \<Rightarrow> fromDecimal amount d | None \<Rightarrow> fromDecimal_undefined amount)"

section \<open>Exchange adapters: withdrawal fee and withdrawal\<close>

text \<open>
  \<^verbatim>\<open>OKX.call\<close> sends one signed HTTP request. A request is the record of its path,
  method, query parameters and JSON body; the venue's answer is an oracle given to each
  method, \<open>Inl\<close> when \<^verbatim>\<open>call\<close> throws. Every method returns its result together with
  the list of requests it issued, in order.
\<close>

record okx_request =
  path :: string
  http_method :: string
  params :: "(string \<times> string) list"
  body :: "(string \<times> string) list"

record currency_data =
  chain :: string
  minFee :: string
  maxFee :: string
  canWd :: bool

definition OKX_getWithdrawalFee ::
  "(okx_request \<Rightarrow> exn + currency_data list) \<Rightarrow> string \<Rightarrow> string \<Rightarrow> int
     \<Rightarrow> (exn + int) \<times> okx_request list" where
  "OKX_getWithdrawalFee call currency chainName amount =
     (if currency = ''BTC-LN'' then
        (case BN_div amount 1000 of
           Inl e \<Rightarrow> (Inl e, [])
         | Inr q \<Rightarrow> (Inr (1000 + q), []))
      else
        (let req = \<lparr>path = ''/api/v5/asset/currencies'', http_method = ''GET'',
                     params = [(''ccy'', currency)], body = []\<rparr>
         in case call req of
              Inl e \<Rightarrow> (Inl e, [req])
            | Inr respData \<Rightarrow>
                (case find (\<lambda>e. chain e = currency @ ''-'' @
                                   (if currency = ''BTC'' then ''Bitcoin'' else chainName)) respData of
                   None \<Rightarrow> (Inl (Error ''Chain in currency not found''), [req])
                 | Some currencyData \<Rightarrow>
                     if \<not> canWd currencyData
                     then (Inl (Error ''Cannot withdraw the desired currency''), [req])
                     else (fromDecimal_at (maxFee currencyData) (currencyDecimals_OKX currency),
                           [req]))))"

text \<open>
  \<^verbatim>\<open>OKX.withdraw\<close>. The answer's \<^verbatim>\<open>data\<close> is a list of fields; reading a field that is
  not there gives \<^verbatim>\<open>undefined\<close> (\<open>None\<close>). \<open>amount = None\<close> is a call without the
  optional argument.
\<close>

definition OKX_withdraw ::
  "(okx_request \<Rightarrow> exn + (string \<times> string) list) \<Rightarrow> string \<Rightarrow> string \<Rightarrow> string \<Rightarrow> string
     \<Rightarrow> int \<Rightarrow> int option \<Rightarrow> (exn + string option) \<times> okx_request list" where
  "OKX_withdraw call currency chainName address withdrawalId fee amount =
     (if currency = ''BTC-LN'' then
        (let req = \<lparr>path = ''/api/v5/asset/withdrawal-lightning'', http_method = ''POST'',
                     params = [], body = [(''ccy'', ''BTC''), (''invoice'', address)]\<rparr>
         in case call req of
              Inl e \<Rightarrow> (Inl e, [req])
            | Inr respData \<Rightarrow> (Inr (map_of respData ''invoice''), [req]))
      else
        (case amount of
           None \<Rightarrow> (Inl (Error ''Withdrawals must have an amount!''), [])
         | Some a \<Rightarrow>
             (let req = \<lparr>path = ''/api/v5/asset/withdrawal'', http_method = ''POST'',
                          params = [],
                          body = [(''ccy'', currency),
                                  (''amt'', toDecimal_at a (currencyDecimals_OKX currency)),
                                  (''dest'', ''4''),
                                  (''toAddr'', address),
                                  (''chain'', currency @ ''-'' @
                                     (if currency = ''BTC'' then ''Bitcoin'' else chainName)),
                                  (''clientId'', withdrawalId),
                                  (''fee'', toDecimal_at fee (currencyDecimals_OKX currency))]\<rparr>
              in case call req of
                   Inl e \<Rightarrow> (Inl e, [req])
                 | Inr respData \<Rightarrow> (Inr (map_of respData ''wdId''), [req]))))"

text \<open>
  \<^verbatim>\<open>Binance.withdraw\<close>. \<open>decodeSatoshis\<close> is \<^verbatim>\<open>new BN(bolt11.decode(address).satoshis)\<close>
  (it throws on a string that is not an invoice); \<open>client_withdraw\<close> is the venue
  client's \<^verbatim>\<open>withdraw\<close>, answering the withdrawal id or failing with a message and a code,
  which the adapter rethrows as a \<^verbatim>\<open>BinanceError\<close>.
\<close>

record binance_withdrawal =
  coin :: string
  withdrawOrderId :: string
  network :: string
  wd_address :: string
  walletType :: nat
  wd_amount :: string

definition Binance_withdraw ::
  "(string \<Rightarrow> exn + int) \<Rightarrow> (binance_withdrawal \<Rightarrow> (string \<times> string) + string)
     \<Rightarrow> string \<Rightarrow> string \<Rightarrow> string \<Rightarrow> string \<Rightarrow> int \<Rightarrow> int option
     \<Rightarrow> (exn + string) \<times> binance_withdrawal list" where
  "Binance_withdraw decodeSatoshis client_withdraw currency chainName address withdrawalId
       withdrawalFee amount =
     (let chain1 = (if currency = ''BTC'' then ''BTC'' else chainName);
          submit = (\<lambda>currency2 chain2 amount2.
            (let req = \<lparr>coin = currency2, withdrawOrderId = withdrawalId, network = chain2,
                         wd_address = address, walletType = 0,
                         wd_amount = toDecimal_at (amount2 + withdrawalFee)
                                       (currencyDecimals_Binance currency2)\<rparr>
             in case client_withdraw req of
                  Inl (msg, code) \<Rightarrow> (Inl (BinanceError msg code), [req])
                | Inr wid \<Rightarrow> (Inr wid, [req])))
      in if currency = ''BTC-LN'' then
           (case decodeSatoshis address of
              Inl e \<Rightarrow> (Inl e, [])
            | Inr sats \<Rightarrow> submit ''BTC'' ''LIGHTNING'' sats)
         else
           (case amount of
              None \<Rightarrow> (Inl (Error ''Withdrawals must have an amount!''), [])
            | Some a \<Rightarrow> submit currency chain1 a))"

section \<open>The rebalance job document\<close>

datatype RebalancingState =
    RETRYING
  | IDLE
  | TRIGGERED
  | SC_WITHDRAWING
  | SC_WITHDRAWAL_CONFIRMED
  | OUT_TX
  | OUT_TX_CONFIRMED
  | DEPOSIT_RECEIVED
  | TRADE_EXECUTING
  | TRADE_EXECUTED
  | FUNDS_TRANSFERING
  | FUNDS_TRANSFERED
  | WITHDRAWING
  | WITHDRAWAL_SENT
  | IN_TX_CONFIRMED
  | SC_DEPOSITING
  | SC_DEPOSITED
  | FINISHED

text \<open>The numeric value of each member of the \<^verbatim>\<open>RebalancingState\<close> enum.\<close>

fun state_index :: "RebalancingState \<Rightarrow> int" where
  "state_index RETRYING = -1"
| "state_index IDLE = 0"
| "state_index TRIGGERED = 1"
| "state_index SC_WITHDRAWING = 2"
| "state_index SC_WITHDRAWAL_CONFIRMED = 3"
| "state_index OUT_TX = 4"
| "state_index OUT_TX_CONFIRMED = 5"
| "state_index DEPOSIT_RECEIVED = 6"
| "state_index TRADE_EXECUTING = 7"
| "state_index TRADE_EXECUTED = 8"
| "state_index FUNDS_TRANSFERING = 9"
| "state_index FUNDS_TRANSFERED = 10"
| "state_index WITHDRAWING = 11"
| "state_index WITHDRAWAL_SENT = 12"
| "state_index IN_TX_CONFIRMED = 13"
| "state_index SC_DEPOSITING = 14"
| "state_index SC_DEPOSITED = 15"
| "state_index FINISHED = 16"

text \<open>
  \<^verbatim>\<open>HedgingPluginState\<close>: every field but \<^verbatim>\<open>state\<close> is optional, and \<^verbatim>\<open>state\<close> itself
  is \<^verbatim>\<open>null\<close> in a fresh document; \<open>None\<close> is \<^verbatim>\<open>undefined\<close> or \<^verbatim>\<open>null\<close> (the
  sources only test \<^verbatim>\<open>== null\<close>). The type parameter is the representation of the
  three big-integer fields: \<open>int\<close> in memory, \<open>string\<close> in the JSON document. A
  transaction map \<^verbatim>\<open>{[txId: string]: string}\<close> is the list of its entries in insertion
  order, the order in which \<^verbatim>\<open>for ... in\<close> and \<^verbatim>\<open>Object.keys\<close> visit them.
\<close>

record 'n HedgingPluginState =
  state :: "RebalancingState option"
  cooldown :: "int option"
  retryAt :: "int option"
  retryState :: "RebalancingState option"
  srcToken :: "string option"
  srcTokenAddress :: "string option"
  dstToken :: "string option"
  dstTokenAddress :: "string option"
  amountOut :: "'n option"
  scWithdrawTxs :: "(string \<times> string) list option"
  scWithdrawTxId :: "string option"
  outTxs :: "(string \<times> string) list option"
  outTxId :: "string option"
  depositId :: "string option"
  clientOrderId :: "string option"
  orderId :: "string option"
  price :: "string option"
  amountIn :: "'n option"
  clientTransferId :: "string option"
  transferId :: "string option"
  receivingAddress :: "string option"
  withdrawalFee :: "'n option"
  withdrawalId :: "string option"
  inTxId :: "string option"
  scDepositTxs :: "(string \<times> string) list option"
  scDepositTxId :: "string option"

text \<open>The object literal \<^verbatim>\<open>{state: null}\<close>.\<close>

definition fresh_state :: "'n HedgingPluginState" where
  "fresh_state =
     \<lparr>state = None, cooldown = None, retryAt = None, retryState = None, srcToken = None,
      srcTokenAddress = None, dstToken = None, dstTokenAddress = None, amountOut = None,
      scWithdrawTxs = None, scWithdrawTxId = None, outTxs = None, outTxId = None,
      depositId = None, clientOrderId = None, orderId = None, price = None, amountIn = None,
      clientTransferId = None, transferId = None, receivingAddress = None,
      withdrawalFee = None, withdrawalId = None, inTxId = None, scDepositTxs = None,
      scDepositTxId = None\<rparr>"

text \<open>\<^verbatim>\<open>map[key] = v\<close> on a transaction map, and \<^verbatim>\<open>Object.keys(map)[0]\<close>.\<close>

fun obj_set :: "string \<Rightarrow> string \<Rightarrow> (string \<times> string) list \<Rightarrow> (string \<times> string) list" where
  "obj_set k v [] = [(k, v)]"
| "obj_set k v ((k', v') # m) = (if k' = k then (k, v) # m else (k', v') # obj_set k v m)"

definition first_key :: "(string \<times> string) list \<Rightarrow> string option" where
  "first_key m = (case m of [] \<Rightarrow> None | (k, v) # _ \<Rightarrow> Some k)"

definition REQUIRED_FIELDS :: "RebalancingState \<Rightarrow> string list" where
  "REQUIRED_FIELDS s =
     (case s of
        RETRYING \<Rightarrow> [''retryAt'', ''retryState'']
      | IDLE \<Rightarrow> []
      | TRIGGERED \<Rightarrow> [''srcToken'', ''srcTokenAddress'', ''dstToken'', ''dstTokenAddress'', ''amountOut'']
      | SC_WITHDRAWING \<Rightarrow> [''scWithdrawTxs'']
      | SC_WITHDRAWAL_CONFIRMED \<Rightarrow> [''scWithdrawTxId'']
      | OUT_TX \<Rightarrow> [''outTxs'']
      | OUT_TX_CONFIRMED \<Rightarrow> [''outTxId'']
      | DEPOSIT_RECEIVED \<Rightarrow> [''depositId'']
      | TRADE_EXECUTING \<Rightarrow> [''clientOrderId'']
      | TRADE_EXECUTED \<Rightarrow> [''orderId'', ''price'', ''amountIn'']
      | FUNDS_TRANSFERING \<Rightarrow> [''clientTransferId'']
      | FUNDS_TRANSFERED \<Rightarrow> [''transferId'']
      | WITHDRAWING \<Rightarrow> [''receivingAddress'', ''withdrawalFee'', ''withdrawalId'']
      | WITHDRAWAL_SENT \<Rightarrow> [''inTxId'']
      | IN_TX_CONFIRMED \<Rightarrow> []
      | SC_DEPOSITING \<Rightarrow> [''scDepositTxs'']
      | SC_DEPOSITED \<Rightarrow> [''scDepositTxId'']
      | FINISHED \<Rightarrow> [])"

text \<open>\<^verbatim>\<open>this.state[requiredField] == null\<close>, for the field names of the table above.\<close>

definition field_is_null :: "'n HedgingPluginState \<Rightarrow> string \<Rightarrow> bool" where
  "field_is_null j f =
     (if f = ''retryAt'' then retryAt j = None
      else if f = ''retryState'' then retryState j = None
      else if f = ''srcToken'' then srcToken j = None
      else if f = ''srcTokenAddress'' then srcTokenAddress j = None
      else if f = ''dstToken'' then dstToken j = None
      else if f = ''dstTokenAddress'' then dstTokenAddress j = None
      else if f = ''amountOut'' then amountOut j = None
      else if f = ''scWithdrawTxs'' then scWithdrawTxs j = None
      else if f = ''scWithdrawTxId'' then scWithdrawTxId j = None
      else if f = ''outTxs'' then outTxs j = None
      else if f = ''outTxId'' then outTxId j = None
      else if f = ''depositId'' then depositId j = None
      else if f = ''clientOrderId'' then clientOrderId j = None
      else if f = ''orderId'' then orderId j = None
      else if f = ''price'' then price j = None
      else if f = ''amountIn'' then amountIn j = None
      else if f = ''clientTransferId'' then clientTransferId j = None
      else if f = ''transferId'' then transferId j = None
      else if f = ''receivingAddress'' then receivingAddress j = None
      else if f = ''withdrawalFee'' then withdrawalFee j = None
      else if f = ''withdrawalId'' then withdrawalId j = None
      else if f = ''inTxId'' then inTxId j = None
      else if f = ''scDepositTxs'' then scDepositTxs j = None
      else if f = ''scDepositTxId'' then scDepositTxId j = None
      else True)"

section \<open>The state store: serializeState, saveState, loadState\<close>

text \<open>
  \<^verbatim>\<open>serializeState\<close> is \<^verbatim>\<open>JSON.stringify(this.state, replacer)\<close>. For each property,
  \<^verbatim>\<open>JSON.stringify\<close> first replaces a value that has a \<^verbatim>\<open>toJSON\<close> method by the result
  of that method, and only then calls the replacer with it (ECMAScript,
  SerializeJSONProperty, steps 2 and 3). A bn.js integer has \<^verbatim>\<open>toJSON\<close>, which returns
  \<^verbatim>\<open>this.toString(16, 2)\<close>: its hexadecimal digits, padded to an even length. So the
  replacer receives a string for \<^verbatim>\<open>amountOut\<close>, \<^verbatim>\<open>amountIn\<close> and \<^verbatim>\<open>withdrawalFee\<close>,
  and its \<^verbatim>\<open>(value as BN).toString(10)\<close> is \<^verbatim>\<open>String.prototype.toString\<close>, which takes
  no radix and returns the string itself. Every other property is written and read back
  as it is, so a document is modelled as the record with strings in the three fields.
  \<^verbatim>\<open>loadState\<close> revives the three fields with \<^verbatim>\<open>new BN(value, 16)\<close>; when that throws,
  the \<^verbatim>\<open>catch\<close> block leaves \<^verbatim>\<open>this.state\<close> as it was.
\<close>

definition BN_toJSON :: "int \<Rightarrow> string" where
  "BN_toJSON x = BN_toString 16 2 x"

definition String_toString :: "string \<Rightarrow> nat \<Rightarrow> string" where
  "String_toString s radix = s"

definition replacer :: "int \<Rightarrow> string" where
  "replacer v = String_toString (BN_toJSON v) 10"

definition reviver :: "string \<Rightarrow> exn + int" where
  "reviver v = BN_parse 16 v"

definition serializeState :: "int HedgingPluginState \<Rightarrow> string HedgingPluginState" where
  "serializeState j =
     \<lparr>state = state j, cooldown = cooldown j, retryAt = retryAt j, retryState = retryState j,
      srcToken = srcToken j, srcTokenAddress = srcTokenAddress j, dstToken = dstToken j,
      dstTokenAddress = dstTokenAddress j, amountOut = map_option replacer (amountOut j),
      scWithdrawTxs = scWithdrawTxs j, scWithdrawTxId = scWithdrawTxId j, outTxs = outTxs j,
      outTxId = outTxId j, depositId = depositId j, clientOrderId = clientOrderId j,
      orderId = orderId j, price = price j, amountIn = map_option replacer (amountIn j),
      clientTransferId = clientTransferId j, transferId = transferId j,
      receivingAddress = receivingAddress j,
      withdrawalFee = map_option replacer (withdrawalFee j),
      withdrawalId = withdrawalId j, inTxId = inTxId j, scDepositTxs = scDepositTxs j,
      scDepositTxId = scDepositTxId j\<rparr>"

definition revive_field :: "string option \<Rightarrow> exn + int option" where
  "revive_field v =
     (case v of None \<Rightarrow> Inr None
      | Some s \<Rightarrow> (case reviver s of Inl e \<Rightarrow> Inl e | Inr x \<Rightarrow> Inr (Some x)))"

definition parseState :: "string HedgingPluginState \<Rightarrow> exn + int HedgingPluginState" where
  "parseState d =
     (case revive_field (amountOut d) of Inl e \<Rightarrow> Inl e | Inr out_v \<Rightarrow>
      (case revive_field (amountIn d) of Inl e \<Rightarrow> Inl e | Inr in_v \<Rightarrow>
       (case revive_field (withdrawalFee d) of Inl e \<Rightarrow> Inl e | Inr fee_v \<Rightarrow>
          Inr \<lparr>state = state d, cooldown = cooldown d, retryAt = retryAt d,
               retryState = retryState d, srcToken = srcToken d,
               srcTokenAddress = srcTokenAddress d, dstToken = dstToken d,
               dstTokenAddress = dstTokenAddress d, amountOut = out_v,
               scWithdrawTxs = scWithdrawTxs d, scWithdrawTxId = scWithdrawTxId d,
               outTxs = outTxs d, outTxId = outTxId d, depositId = depositId d,
               clientOrderId = clientOrderId d, orderId = orderId d, price = price d,
               amountIn = in_v, clientTransferId = clientTransferId d,
               transferId = transferId d, receivingAddress = receivingAddress d,
               withdrawalFee = fee_v, withdrawalId = withdrawalId d, inTxId = inTxId d,
               scDepositTxs = scDepositTxs d, scDepositTxId = scDepositTxId d\<rparr>)))"

section \<open>The plugin, its collaborators and the flow of control\<close>

text \<open>
  The plugin object: \<open>job\<close> is \<^verbatim>\<open>this.state\<close> (\<open>None\<close> while no document was loaded
  or seeded); \<open>storage\<close> is the file \<^verbatim>\<open>storage/hedge-plugin-state.json\<close> (\<open>None\<close> when it
  does not exist); \<open>archived\<close> are the files written under \<^verbatim>\<open>storage/archive\<close>, with
  the timestamp of their name; \<open>transitions\<close> are the console lines
  \<^verbatim>\<open>[Hedging plugin: State transition] old -> new\<close>, oldest first; \<open>world\<close> is whatever
  the external collaborators keep (the chain, the node, the venue, the clock).
\<close>

record 'w plugin =
  job :: "int HedgingPluginState option"
  storage :: "string HedgingPluginState option"
  archived :: "(int \<times> string HedgingPluginState) list"
  transitions :: "(RebalancingState option \<times> RebalancingState) list"
  world :: 'w

text \<open>
  The result of running a piece of the plugin: it returns, it throws, or the model ran
  out of fuel (the recursion of \<^verbatim>\<open>check\<close> and \<^verbatim>\<open>setState\<close> has no bound in the
  source). Running out of fuel is not an exception: no \<^verbatim>\<open>catch\<close> sees it.
\<close>

datatype 'a outcome = Ret 'a | Thrown exn | Diverged

type_synonym ('w, 'a) action = "'w plugin \<Rightarrow> 'a outcome \<times> 'w plugin"

definition ret :: "'a \<Rightarrow> ('w, 'a) action" where
  "ret a p = (Ret a, p)"

definition throw :: "exn \<Rightarrow> ('w, 'a) action" where
  "throw e p = (Thrown e, p)"

definition bnd :: "('w, 'a) action \<Rightarrow> ('a \<Rightarrow> ('w, 'b) action) \<Rightarrow> ('w, 'b) action" where
  "bnd m f p =
     (case m p of
        (Ret a, p') \<Rightarrow> f a p'
      | (Thrown e, p') \<Rightarrow> (Thrown e, p')
      | (Diverged, p') \<Rightarrow> (Diverged, p'))"

definition seq :: "('w, unit) action \<Rightarrow> ('w, 'b) action \<Rightarrow> ('w, 'b) action" where
  "seq m k = bnd m (\<lambda>_. k)"

text \<open>\<^verbatim>\<open>try { m } catch (e) { h(e) }\<close>.\<close>

definition try_catch :: "('w, 'a) action \<Rightarrow> (exn \<Rightarrow> ('w, 'a) action) \<Rightarrow> ('w, 'a) action" where
  "try_catch m h p =
     (case m p of
        (Ret a, p') \<Rightarrow> (Ret a, p')
      | (Thrown e, p') \<Rightarrow> h e p'
      | (Diverged, p') \<Rightarrow> (Diverged, p'))"

text \<open>A call of a collaborator: one that cannot throw, one that can, and a pure one.\<close>

definition io :: "('w \<Rightarrow> 'a \<times> 'w) \<Rightarrow> ('w, 'a) action" where
  "io f p = (case f (world p) of (a, w) \<Rightarrow> (Ret a, p\<lparr>world := w\<rparr>))"

definition io_exn :: "('w \<Rightarrow> (exn + 'a) \<times> 'w) \<Rightarrow> ('w, 'a) action" where
  "io_exn f p =
     (case f (world p) of
        (Inl e, w) \<Rightarrow> (Thrown e, p\<lparr>world := w\<rparr>)
      | (Inr a, w) \<Rightarrow> (Ret a, p\<lparr>world := w\<rparr>))"

definition lift :: "exn + 'a \<Rightarrow> ('w, 'a) action" where
  "lift r = (case r of Inl e \<Rightarrow> throw e | Inr a \<Rightarrow> ret a)"

text \<open>
  Reading \<^verbatim>\<open>this.state.field\<close> and writing \<^verbatim>\<open>this.state.field = v\<close>: a
  \<^verbatim>\<open>TypeError\<close> when \<^verbatim>\<open>this.state\<close> is \<^verbatim>\<open>undefined\<close>.
\<close>

definition get_job :: "('w, int HedgingPluginState) action" where
  "get_job p = (case job p of None \<Rightarrow> (Thrown TypeError, p) | Some j \<Rightarrow> (Ret j, p))"

definition peek_job :: "('w, int HedgingPluginState option) action" where
  "peek_job p = (Ret (job p), p)"

definition modify_job ::
  "(int HedgingPluginState \<Rightarrow> int HedgingPluginState) \<Rightarrow> ('w, unit) action" where
  "modify_job f p =
     (case job p of None \<Rightarrow> (Thrown TypeError, p) | Some j \<Rightarrow> (Ret (), p\<lparr>job := Some (f j)\<rparr>))"

text \<open>
  The collaborators. Each call takes the world and returns its answer with the world
  after the call; \<open>Inl\<close> is a thrown exception. Where the source wraps a call so that a
  failure becomes \<^verbatim>\<open>undefined\<close> (\<^verbatim>\<open>.catch(e => ...)\<close>, or \<^verbatim>\<open>try\<close> around an assignment),
  or ignores the answer inside \<^verbatim>\<open>try\<close>, the field returns an option, a flag or nothing.
  State fields are passed as they are read, \<open>None\<close> when absent.
  \<^item> \<open>fs_fault\<close>: asked once per \<^verbatim>\<open>fs.writeFile\<close>, it says whether that write fails.
  \<^item> \<open>sc_sendAndConfirm\<close>: the \<open>(txId, rawTx)\<close> pairs for which \<^verbatim>\<open>sendAndConfirm\<close> will
    invoke its callback, in order; \<open>sc_sendAndConfirm_end\<close> is the rest of the call after
    the last callback. The adapter's own effects on the world happen before the first
    and after the last callback.
  \<^item> \<open>btc_getTransaction\<close>: \<open>None\<close> for \<^verbatim>\<open>null\<close>, else the confirmation count.
  \<^item> \<open>ln_getPayment\<close>: \<open>None\<close> when the lookup fails, else \<open>(is_failed, is_confirmed)\<close>.
  \<^item> \<open>ln_getInvoice\<close>: \<open>(is_confirmed, is_canceled)\<close>.
  \<^item> \<open>ln_getChainAddresses\<close>: the addresses with their \<^verbatim>\<open>is_change\<close> flag.
\<close>

datatype tx_status = TxNotFound | TxPending | TxReverted | TxSuccess

record utxo_lock =
  lock_id :: string
  transaction_id :: string
  transaction_vout :: nat

record fundPsbtResponse =
  psbt :: string
  inputs :: "utxo_lock list"

record deposit_info =
  dep_state :: string
  depId :: string

record trade_info =
  averagePrice :: string
  trade_state :: string
  trade_orderId :: string

record transfer_info =
  transfer_state :: string
  transId :: string

record withdrawal_info =
  wd_state :: string
  wd_txId :: string

record 'w adapters =
  okxSmartChainName :: string
  Date_now :: "'w \<Rightarrow> int \<times> 'w"
  randomHex :: "'w \<Rightarrow> string \<times> 'w"
  fs_fault :: "'w \<Rightarrow> exn option \<times> 'w"
  okx_getDepositAddress ::
    "string option \<Rightarrow> string option \<Rightarrow> int option \<Rightarrow> 'w \<Rightarrow> (exn + string option) \<times> 'w"
  bolt11_payment_hash :: "string \<Rightarrow> exn + string"
  ln_pay :: "string \<Rightarrow> 'w \<Rightarrow> bool \<times> 'w"
  ln_fundPsbt :: "string option \<Rightarrow> int \<Rightarrow> 'w \<Rightarrow> fundPsbtResponse option \<times> 'w"
  ln_unlockUtxo :: "utxo_lock \<Rightarrow> 'w \<Rightarrow> (exn + unit) \<times> 'w"
  ln_signPsbt :: "string \<Rightarrow> 'w \<Rightarrow> string option \<times> 'w"
  bitcoin_txid :: "string \<Rightarrow> exn + string"
  ln_broadcastChainTransaction :: "string \<Rightarrow> 'w \<Rightarrow> bool \<times> 'w"
  sc_txsWithdraw :: "string option \<Rightarrow> int option \<Rightarrow> 'w \<Rightarrow> (exn + string list) \<times> 'w"
  sc_txsTransfer ::
    "string option \<Rightarrow> int option \<Rightarrow> string option \<Rightarrow> 'w \<Rightarrow> (exn + string list) \<times> 'w"
  sc_txsDeposit :: "string option \<Rightarrow> int \<Rightarrow> 'w \<Rightarrow> (exn + string list) \<times> 'w"
  sc_sendAndConfirm :: "string list \<Rightarrow> 'w \<Rightarrow> (string \<times> string) list \<times> 'w"
  sc_sendAndConfirm_end :: "string list \<Rightarrow> 'w \<Rightarrow> (exn + unit) \<times> 'w"
  sc_getTxStatus :: "string \<Rightarrow> 'w \<Rightarrow> (exn + tx_status) \<times> 'w"
  sc_getTxIdStatus :: "string option \<Rightarrow> 'w \<Rightarrow> (exn + tx_status) \<times> 'w"
  sc_getAddress :: string
  btc_getTransaction :: "string option \<Rightarrow> 'w \<Rightarrow> (exn + int option) \<times> 'w"
  ln_getPayment :: "string option \<Rightarrow> 'w \<Rightarrow> (bool \<times> bool) option \<times> 'w"
  ln_getInvoice :: "string option \<Rightarrow> 'w \<Rightarrow> (exn + bool \<times> bool) \<times> 'w"
  ln_getChainAddresses :: "'w \<Rightarrow> (exn + (string \<times> bool) list) \<times> 'w"
  ln_createInvoice :: "string \<Rightarrow> 'w \<Rightarrow> (exn + string) \<times> 'w"
  okx_getDeposit :: "string option \<Rightarrow> 'w \<Rightarrow> (exn + deposit_info option) \<times> 'w"
  okx_marketTrade ::
    "string option \<Rightarrow> string option \<Rightarrow> int option \<Rightarrow> string \<Rightarrow> 'w \<Rightarrow> 'w"
  okx_getTrade ::
    "string option \<Rightarrow> string option \<Rightarrow> string option \<Rightarrow> 'w \<Rightarrow> (exn + trade_info) \<times> 'w"
  okx_getBalance :: "string option \<Rightarrow> 'w \<Rightarrow> (exn + int) \<times> 'w"
  okx_fundsTransfer :: "string option \<Rightarrow> int option \<Rightarrow> string \<Rightarrow> 'w \<Rightarrow> 'w"
  okx_getFundsTransfer :: "string option \<Rightarrow> 'w \<Rightarrow> (exn + transfer_info option) \<times> 'w"
  okx_getWithdrawalFee ::
    "string option \<Rightarrow> string \<Rightarrow> int option \<Rightarrow> 'w \<Rightarrow> (exn + int) \<times> 'w"
  okx_withdraw ::
    "string option \<Rightarrow> string \<Rightarrow> string option \<Rightarrow> string \<Rightarrow> int \<Rightarrow> int
       \<Rightarrow> 'w \<Rightarrow> (exn + unit) \<times> 'w"
  okx_getWithdrawal :: "string option \<Rightarrow> 'w \<Rightarrow> (exn + withdrawal_info option) \<times> 'w"

definition retryTime :: int where
  "retryTime = 15 * 1000"

definition checkInterval :: int where
  "checkInterval = 5 * 1000"

text \<open>
  \<^verbatim>\<open>saveState\<close> writes the serialized document over the state file; \<^verbatim>\<open>archiveState\<close>
  creates the archive directory (errors ignored), writes the document under a name made
  of the current time and removes the state file (\<^verbatim>\<open>fs.rm\<close> fails when there is none).
\<close>

definition saveState :: "'w adapters \<Rightarrow> ('w, unit) action" where
  "saveState ad =
     bnd get_job (\<lambda>j.
     bnd (io (fs_fault ad)) (\<lambda>fault.
       case fault of
         Some e \<Rightarrow> throw e
       | None \<Rightarrow> (\<lambda>p. (Ret (), p\<lparr>storage := Some (serializeState j)\<rparr>))))"

definition archiveState :: "'w adapters \<Rightarrow> ('w, unit) action" where
  "archiveState ad =
     bnd (io (Date_now ad)) (\<lambda>now.
     bnd get_job (\<lambda>j.
     bnd (io (fs_fault ad)) (\<lambda>fault.
       case fault of
         Some e \<Rightarrow> throw e
       | None \<Rightarrow>
           (\<lambda>p. case storage p of
                  None \<Rightarrow> (Thrown (Error ''ENOENT''), p\<lparr>archived := archived p @ [(now, serializeState j)]\<rparr>)
                | Some _ \<Rightarrow> (Ret (), p\<lparr>archived := archived p @ [(now, serializeState j)],
                                        storage := None\<rparr>)))))"

text \<open>
  \<^verbatim>\<open>loadState\<close>: the file is read and parsed; any failure (no file, a field that does not
  parse) is swallowed and leaves \<^verbatim>\<open>this.state\<close> untouched.
\<close>

definition loadState :: "('w, unit) action" where
  "loadState p =
     (case storage p of
        None \<Rightarrow> (Ret (), p)
      | Some d \<Rightarrow>
          (case parseState d of
             Inl e \<Rightarrow> (Ret (), p)
           | Inr j \<Rightarrow> (Ret (), p\<lparr>job := Some j\<rparr>)))"

text \<open>
  \<^verbatim>\<open>setState(newState)\<close>, with the \<^verbatim>\<open>check()\<close> it ends with as a parameter. The loop
  over \<^verbatim>\<open>REQUIRED_FIELDS[newState]\<close> throws at the first field that is \<^verbatim>\<open>null\<close>.
\<close>

definition log_transition :: "RebalancingState option \<Rightarrow> RebalancingState \<Rightarrow> ('w, unit) action" where
  "log_transition oldState newState p =
     (Ret (), p\<lparr>transitions := transitions p @ [(oldState, newState)]\<rparr>)"

definition setState ::
  "'w adapters \<Rightarrow> ('w, unit) action \<Rightarrow> RebalancingState \<Rightarrow> ('w, unit) action" where
  "setState ad check_again newState =
     bnd get_job (\<lambda>j.
       case find (field_is_null j) (REQUIRED_FIELDS newState) of
         Some requiredField \<Rightarrow>
           throw (Error (''Invalid state transition, missing field: '' @ requiredField))
       | None \<Rightarrow>
           seq (modify_job (\<lambda>j. j\<lparr>state := Some newState\<rparr>))
          (seq (saveState ad)
          (seq (log_transition (state j) newState)
               check_again)))"

section \<open>The rebalance engine: check\<close>

text \<open>
  Comparisons with an absent field: \<^verbatim>\<open>undefined > n\<close> and \<^verbatim>\<open>undefined < n\<close> are false.
  \<^verbatim>\<open>amount.toNumber()\<close> throws above 53 bits.
\<close>

definition opt_greater :: "int option \<Rightarrow> int \<Rightarrow> bool" where
  "opt_greater a n = (case a of None \<Rightarrow> False | Some x \<Rightarrow> x > n)"

definition opt_less :: "int option \<Rightarrow> int \<Rightarrow> bool" where
  "opt_less a n = (case a of None \<Rightarrow> False | Some x \<Rightarrow> x < n)"

definition fits_number :: "int \<Rightarrow> bool" where
  "fits_number a = (\<bar>a\<bar> < 2 ^ 53)"

definition io_sum :: "('w \<Rightarrow> (exn + 'a) \<times> 'w) \<Rightarrow> ('w, exn + 'a) action" where
  "io_sum f = io f"

definition io_unit :: "('w \<Rightarrow> 'w) \<Rightarrow> ('w, unit) action" where
  "io_unit f p = (Ret (), p\<lparr>world := f (world p)\<rparr>)"

text \<open>\<^verbatim>\<open>this.state.cooldown = Date.now()+(5*1000)\<close>.\<close>

definition set_cooldown :: "'w adapters \<Rightarrow> ('w, unit) action" where
  "set_cooldown ad =
     bnd (io (Date_now ad)) (\<lambda>now. modify_job (\<lambda>j. j\<lparr>cooldown := Some (now + 5 * 1000)\<rparr>))"

text \<open>
  \<^verbatim>\<open>this.state.retryAt = Date.now()+retryTime; this.state.retryState = r;
  await this.setState(RebalancingState.RETRYING)\<close>.
\<close>

definition schedule_retry ::
  "'w adapters \<Rightarrow> (RebalancingState \<Rightarrow> ('w, unit) action) \<Rightarrow> RebalancingState \<Rightarrow> ('w, unit) action" where
  "schedule_retry ad setSt r =
     bnd (io (Date_now ad)) (\<lambda>now.
     seq (modify_job (\<lambda>j. j\<lparr>retryAt := Some (now + retryTime)\<rparr>))
    (seq (modify_job (\<lambda>j. j\<lparr>retryState := Some r\<rparr>))
         (setSt RETRYING)))"

text \<open>\<^verbatim>\<open>this.state.someTxs[txId] = rawTx\<close>, for the three transaction maps.\<close>

definition put_scWithdrawTx :: "string \<Rightarrow> string \<Rightarrow> ('w, unit) action" where
  "put_scWithdrawTx txId rawTx =
     bnd get_job (\<lambda>j. case scWithdrawTxs j of
        None \<Rightarrow> throw TypeError
      | Some m \<Rightarrow> modify_job (\<lambda>j. j\<lparr>scWithdrawTxs := Some (obj_set txId rawTx m)\<rparr>))"

definition put_outTx :: "string \<Rightarrow> string \<Rightarrow> ('w, unit) action" where
  "put_outTx txId rawTx =
     bnd get_job (\<lambda>j. case outTxs j of
        None \<Rightarrow> throw TypeError
      | Some m \<Rightarrow> modify_job (\<lambda>j. j\<lparr>outTxs := Some (obj_set txId rawTx m)\<rparr>))"

definition put_scDepositTx :: "string \<Rightarrow> string \<Rightarrow> ('w, unit) action" where
  "put_scDepositTx txId rawTx =
     bnd get_job (\<lambda>j. case scDepositTxs j of
        None \<Rightarrow> throw TypeError
      | Some m \<Rightarrow> modify_job (\<lambda>j. j\<lparr>scDepositTxs := Some (obj_set txId rawTx m)\<rparr>))"

text \<open>
  \<^verbatim>\<open>swapContract.sendAndConfirm(txs, false, null, false, callback)\<close>: the callback runs
  for each broadcast; an exception of the callback ends the call.
\<close>

fun run_callbacks ::
  "(string \<Rightarrow> string \<Rightarrow> ('w, unit) action) \<Rightarrow> (string \<times> string) list \<Rightarrow> ('w, unit) action" where
  "run_callbacks cb [] = ret ()"
| "run_callbacks cb ((txId, rawTx) # rest) = seq (cb txId rawTx) (run_callbacks cb rest)"

definition sendAndConfirm ::
  "'w adapters \<Rightarrow> string list \<Rightarrow> (string \<Rightarrow> string \<Rightarrow> ('w, unit) action) \<Rightarrow> ('w, unit) action" where
  "sendAndConfirm ad txs cb =
     bnd (io (sc_sendAndConfirm ad txs)) (\<lambda>broadcasts.
     seq (run_callbacks cb broadcasts)
         (io_exn (sc_sendAndConfirm_end ad txs)))"

fun unlockUtxos :: "'w adapters \<Rightarrow> utxo_lock list \<Rightarrow> ('w, unit) action" where
  "unlockUtxos ad [] = ret ()"
| "unlockUtxos ad (i # rest) = seq (io_exn (ln_unlockUtxo ad i)) (unlockUtxos ad rest)"

text \<open>
  The confirmation loop over a transaction map: it stops at the first \<^verbatim>\<open>success\<close> with
  that transaction id, and otherwise ends with the two flags \<^verbatim>\<open>isSomePending\<close> and
  \<^verbatim>\<open>isNotFoundOrReverted\<close>.
\<close>

datatype scan_result = Found string | Scanned bool bool

fun scan_txs ::
  "'w adapters \<Rightarrow> (string \<times> string) list \<Rightarrow> bool \<Rightarrow> bool \<Rightarrow> ('w, scan_result) action" where
  "scan_txs ad [] isSomePending isNotFoundOrReverted =
     ret (Scanned isSomePending isNotFoundOrReverted)"
| "scan_txs ad ((txId, txData) # rest) isSomePending isNotFoundOrReverted =
     bnd (io_exn (sc_getTxStatus ad txData)) (\<lambda>result.
       case result of
         TxNotFound \<Rightarrow> scan_txs ad rest isSomePending True
       | TxPending \<Rightarrow> scan_txs ad rest True isNotFoundOrReverted
       | TxReverted \<Rightarrow> scan_txs ad rest isSomePending True
       | TxSuccess \<Rightarrow> ret (Found txId))"

text \<open>
  The handlers, one per \<^verbatim>\<open>if(this.state.state===...)\<close> block of \<^verbatim>\<open>check\<close>. Each takes
  \<^verbatim>\<open>setState\<close> as a parameter and returns whether the block ended with \<^verbatim>\<open>return\<close>
  (\<open>True\<close>) or ran to its end (\<open>False\<close>), after which \<^verbatim>\<open>check\<close> goes on with the next
  block.
\<close>

definition h_RETRYING ::
  "'w adapters \<Rightarrow> (RebalancingState \<Rightarrow> ('w, unit) action) \<Rightarrow> ('w, bool) action" where
  "h_RETRYING ad setSt =
     bnd get_job (\<lambda>j.
     bnd (io (Date_now ad)) (\<lambda>now.
       if opt_less (retryAt j) now then
         (case retryState j of
            None \<Rightarrow> throw TypeError
          | Some r \<Rightarrow> seq (setSt r) (ret True))
       else ret True))"

definition h_TRIGGERED ::
  "'w adapters \<Rightarrow> (RebalancingState \<Rightarrow> ('w, unit) action) \<Rightarrow> ('w, bool) action" where
  "h_TRIGGERED ad setSt =
     bnd get_job (\<lambda>j.
     if srcToken j = Some ''BTC'' \<or> srcToken j = Some ''BTC-LN'' then
       bnd (io_exn (okx_getDepositAddress ad (srcToken j) None (amountOut j))) (\<lambda>destinationAddress.
       if srcToken j = Some ''BTC-LN'' then
         (case destinationAddress of
            None \<Rightarrow> throw (Error ''Lightning Payment Request must be string'')
          | Some dest \<Rightarrow>
              bnd (lift (bolt11_payment_hash ad dest)) (\<lambda>payment_hash.
              seq (modify_job (\<lambda>j. j\<lparr>outTxs := Some [(payment_hash, dest)]\<rparr>))
             (seq (set_cooldown ad)
             (seq (setSt OUT_TX)
             (bnd (io (ln_pay ad dest)) (\<lambda>paid.
                if \<not> paid then seq (setSt IDLE) (ret True) else ret True))))))
       else
         bnd (case amountOut j of
                None \<Rightarrow> ret None
              | Some a \<Rightarrow> if fits_number a then io (ln_fundPsbt ad destinationAddress a)
                          else ret None) (\<lambda>fundPsbtResponse.
         case fundPsbtResponse of
           None \<Rightarrow> seq (setSt IDLE) (ret True)
         | Some funded \<Rightarrow>
             bnd (io (ln_signPsbt ad (psbt funded))) (\<lambda>signedPsbt.
             case signedPsbt of
               None \<Rightarrow> seq (unlockUtxos ad (inputs funded)) (seq (setSt IDLE) (ret True))
             | Some signedTx \<Rightarrow>
                 bnd (lift (bitcoin_txid ad signedTx)) (\<lambda>txId.
                 seq (set_cooldown ad)
                (seq (modify_job (\<lambda>j. j\<lparr>outTxs := Some [(txId, signedTx)]\<rparr>))
                (seq (setSt OUT_TX)
                (bnd (io (ln_broadcastChainTransaction ad signedTx)) (\<lambda>sent.
                   if \<not> sent then
                     seq (unlockUtxos ad (inputs funded)) (seq (setSt IDLE) (ret True))
                   else ret True))))))))
     else
       bnd (io_exn (sc_txsWithdraw ad (srcTokenAddress j) (amountOut j))) (\<lambda>withdrawTxs.
       seq (modify_job (\<lambda>j. j\<lparr>scWithdrawTxs := Some []\<rparr>))
      (seq (sendAndConfirm ad withdrawTxs (\<lambda>txId rawTx.
              seq (put_scWithdrawTx txId rawTx)
             (seq (set_cooldown ad)
                  (setSt SC_WITHDRAWING))))
           (ret True))))"

definition h_SC_WITHDRAWING ::
  "'w adapters \<Rightarrow> (RebalancingState \<Rightarrow> ('w, unit) action) \<Rightarrow> ('w, bool) action" where
  "h_SC_WITHDRAWING ad setSt =
     bnd get_job (\<lambda>j.
     case scWithdrawTxs j of
       None \<Rightarrow> throw TypeError
     | Some txs \<Rightarrow>
         bnd (scan_txs ad txs False False) (\<lambda>scanned.
         case scanned of
           Found txId \<Rightarrow>
             seq (modify_job (\<lambda>j. j\<lparr>scWithdrawTxId := Some txId\<rparr>))
            (seq (setSt SC_WITHDRAWAL_CONFIRMED) (ret True))
         | Scanned isSomePending isNotFoundOrReverted \<Rightarrow>
             if isNotFoundOrReverted \<and> \<not> isSomePending then
               seq (modify_job (\<lambda>j. j\<lparr>scWithdrawTxs := Some []\<rparr>))
              (seq (setSt IDLE) (ret True))
             else ret True))"

definition h_SC_WITHDRAWAL_CONFIRMED ::
  "'w adapters \<Rightarrow> (RebalancingState \<Rightarrow> ('w, unit) action) \<Rightarrow> ('w, bool) action" where
  "h_SC_WITHDRAWAL_CONFIRMED ad setSt =
     bnd get_job (\<lambda>j.
     bnd (io_exn (okx_getDepositAddress ad (srcToken j) (Some (okxSmartChainName ad)) None))
       (\<lambda>destinationAddress.
     bnd (io_exn (sc_txsTransfer ad (srcTokenAddress j) (amountOut j) destinationAddress))
       (\<lambda>transferTxs.
     seq (modify_job (\<lambda>j. j\<lparr>outTxs := Some []\<rparr>))
    (seq (sendAndConfirm ad transferTxs (\<lambda>txId rawTx.
            seq (put_outTx txId rawTx)
           (seq (set_cooldown ad)
                (setSt OUT_TX))))
         (ret True)))))"

definition h_OUT_TX ::
  "'w adapters \<Rightarrow> (RebalancingState \<Rightarrow> ('w, unit) action) \<Rightarrow> ('w, bool) action" where
  "h_OUT_TX ad setSt =
     bnd get_job (\<lambda>j.
     case outTxs j of
       None \<Rightarrow> throw TypeError
     | Some txs \<Rightarrow>
         if srcToken j = Some ''BTC'' then
           bnd (io_exn (btc_getTransaction ad (first_key txs))) (\<lambda>tx.
           case tx of
             None \<Rightarrow> seq (setSt IDLE) (ret True)
           | Some confirmations \<Rightarrow>
               if confirmations \<ge> 1 then
                 seq (modify_job (\<lambda>j. j\<lparr>outTxId := first_key txs\<rparr>))
                (seq (setSt OUT_TX_CONFIRMED) (ret True))
               else ret True)
         else if srcToken j = Some ''BTC-LN'' then
           bnd (io (ln_getPayment ad (first_key txs))) (\<lambda>result.
           case result of
             None \<Rightarrow> seq (setSt IDLE) (ret True)
           | Some (is_failed, is_confirmed) \<Rightarrow>
               if is_failed then seq (setSt IDLE) (ret True)
               else if is_confirmed then
                 seq (modify_job (\<lambda>j. j\<lparr>outTxId := first_key txs\<rparr>))
                (seq (setSt OUT_TX_CONFIRMED) (ret True))
               else ret True)
         else
           bnd (scan_txs ad txs False False) (\<lambda>scanned.
           case scanned of
             Found txId \<Rightarrow>
               seq (modify_job (\<lambda>j. j\<lparr>outTxId := Some txId\<rparr>))
              (seq (setSt OUT_TX_CONFIRMED) (ret True))
           | Scanned isSomePending isNotFoundOrReverted \<Rightarrow>
               if isNotFoundOrReverted \<and> \<not> isSomePending then
                 seq (modify_job (\<lambda>j. j\<lparr>outTxs := Some []\<rparr>))
                (seq (schedule_retry ad setSt SC_WITHDRAWAL_CONFIRMED) (ret True))
               else ret True))"

definition h_OUT_TX_CONFIRMED ::
  "'w adapters \<Rightarrow> (RebalancingState \<Rightarrow> ('w, unit) action) \<Rightarrow> ('w, bool) action" where
  "h_OUT_TX_CONFIRMED ad setSt =
     bnd get_job (\<lambda>j.
     bnd (io_exn (okx_getDeposit ad (outTxId j))) (\<lambda>depositState.
     case depositState of
       None \<Rightarrow> ret True
     | Some d \<Rightarrow>
         if dep_state d = ''1'' \<or> dep_state d = ''2'' then
           seq (modify_job (\<lambda>j. j\<lparr>depositId := Some (depId d)\<rparr>))
          (seq (setSt DEPOSIT_RECEIVED) (ret True))
         else ret True))"

definition h_DEPOSIT_RECEIVED ::
  "'w adapters \<Rightarrow> (RebalancingState \<Rightarrow> ('w, unit) action) \<Rightarrow> ('w, bool) action" where
  "h_DEPOSIT_RECEIVED ad setSt =
     bnd (io (randomHex ad)) (\<lambda>clientOrderId_new.
     seq (modify_job (\<lambda>j. j\<lparr>clientOrderId := Some clientOrderId_new\<rparr>))
    (seq (set_cooldown ad)
    (seq (setSt TRADE_EXECUTING)
    (seq (try_catch
            (bnd get_job (\<lambda>j.
               io_unit (okx_marketTrade ad (srcToken j) (dstToken j) (amountOut j)
                          clientOrderId_new)))
            (\<lambda>e. ret ()))
         (ret True)))))"

definition h_TRADE_EXECUTING ::
  "'w adapters \<Rightarrow> (RebalancingState \<Rightarrow> ('w, unit) action) \<Rightarrow> ('w, bool) action" where
  "h_TRADE_EXECUTING ad setSt =
     bnd get_job (\<lambda>j.
     bnd (io_sum (okx_getTrade ad (srcToken j) (dstToken j) (clientOrderId j))) (\<lambda>answer.
     case answer of
       Inl e \<Rightarrow>
         (case e of
            OKXError msg errorCode \<Rightarrow>
              if errorCode = ''52907'' \<or> errorCode = ''51603'' then
                seq (schedule_retry ad setSt DEPOSIT_RECEIVED) (ret True)
              else ret True
          | _ \<Rightarrow> ret True)
     | Inr tradeData \<Rightarrow>
         if trade_state tradeData = ''canceled'' \<or> trade_state tradeData = ''mmp_canceled'' then
           seq (schedule_retry ad setSt DEPOSIT_RECEIVED) (ret True)
         else if trade_state tradeData = ''filled'' then
           seq (modify_job (\<lambda>j. j\<lparr>orderId := Some (trade_orderId tradeData)\<rparr>))
          (seq (modify_job (\<lambda>j. j\<lparr>price := Some (averagePrice tradeData)\<rparr>))
          (bnd (io_exn (okx_getBalance ad (dstToken j))) (\<lambda>balance.
           seq (modify_job (\<lambda>j. j\<lparr>amountIn := Some balance\<rparr>))
          (seq (setSt TRADE_EXECUTED) (ret True)))))
         else ret False))"

definition h_TRADE_EXECUTED ::
  "'w adapters \<Rightarrow> (RebalancingState \<Rightarrow> ('w, unit) action) \<Rightarrow> ('w, bool) action" where
  "h_TRADE_EXECUTED ad setSt =
     bnd (io (randomHex ad)) (\<lambda>transferId_new.
     seq (modify_job (\<lambda>j. j\<lparr>clientTransferId := Some transferId_new\<rparr>))
    (seq (set_cooldown ad)
    (seq (setSt FUNDS_TRANSFERING)
    (seq (try_catch
            (bnd get_job (\<lambda>j.
               io_unit (okx_fundsTransfer ad (dstToken j) (amountIn j) transferId_new)))
            (\<lambda>e. ret ()))
         (ret True)))))"

definition h_FUNDS_TRANSFERING ::
  "'w adapters \<Rightarrow> (RebalancingState \<Rightarrow> ('w, unit) action) \<Rightarrow> ('w, bool) action" where
  "h_FUNDS_TRANSFERING ad setSt =
     seq (try_catch
            (bnd get_job (\<lambda>j.
             bnd (io_exn (okx_getFundsTransfer ad (clientTransferId j))) (\<lambda>resp.
             case resp of
               None \<Rightarrow> schedule_retry ad setSt TRADE_EXECUTED
             | Some t \<Rightarrow>
                 if transfer_state t = ''failed'' then schedule_retry ad setSt TRADE_EXECUTED
                 else if transfer_state t = ''success'' then
                   seq (modify_job (\<lambda>j. j\<lparr>transferId := Some (transId t)\<rparr>))
                       (setSt FUNDS_TRANSFERED)
                 else ret ())))
            (\<lambda>e. ret ()))
         (ret True)"

definition h_FUNDS_TRANSFERED ::
  "'w adapters \<Rightarrow> (RebalancingState \<Rightarrow> ('w, unit) action) \<Rightarrow> ('w, bool) action" where
  "h_FUNDS_TRANSFERED ad setSt =
     bnd get_job (\<lambda>j.
     bnd (io_exn (okx_getWithdrawalFee ad (dstToken j) (okxSmartChainName ad) (amountIn j)))
       (\<lambda>fee.
     seq (modify_job (\<lambda>j. j\<lparr>withdrawalFee := Some fee\<rparr>))
    (seq (if dstToken j = Some ''BTC'' then
            bnd (io_exn (ln_getChainAddresses ad)) (\<lambda>addresses.
            case find (\<lambda>(a, is_change). \<not> is_change) addresses of
              None \<Rightarrow> throw TypeError
            | Some (a, is_change) \<Rightarrow> modify_job (\<lambda>j. j\<lparr>receivingAddress := Some a\<rparr>))
          else if dstToken j = Some ''BTC-LN'' then
            (case amountIn j of
               None \<Rightarrow> throw TypeError
             | Some received \<Rightarrow>
                 bnd (io_exn (ln_createInvoice ad (BN_toString 10 1 ((received - fee) * 1000))))
                   (\<lambda>request. modify_job (\<lambda>j. j\<lparr>receivingAddress := Some request\<rparr>)))
          else modify_job (\<lambda>j. j\<lparr>receivingAddress := Some (sc_getAddress ad)\<rparr>))
    (bnd (io (randomHex ad)) (\<lambda>withdrawalId_new.
     seq (modify_job (\<lambda>j. j\<lparr>withdrawalId := Some withdrawalId_new\<rparr>))
    (seq (set_cooldown ad)
    (seq (setSt WITHDRAWING)
    (bnd peek_job (\<lambda>current.
       case current of
         None \<Rightarrow> ret True
       | Some j \<Rightarrow>
          (case (amountIn j, withdrawalFee j) of
             (Some received, Some fee2) \<Rightarrow>
               bnd (io_sum (okx_withdraw ad (dstToken j) (okxSmartChainName ad)
                              (receivingAddress j) withdrawalId_new fee2 (received - fee2)))
                 (\<lambda>answer.
               case answer of
                 Inl (OKXError msg errorCode) \<Rightarrow>
                   seq (schedule_retry ad setSt FUNDS_TRANSFERED) (ret True)
               | _ \<Rightarrow> ret True)
           | _ \<Rightarrow> ret True))))))))))"

definition h_WITHDRAWING ::
  "'w adapters \<Rightarrow> (RebalancingState \<Rightarrow> ('w, unit) action) \<Rightarrow> ('w, bool) action" where
  "h_WITHDRAWING ad setSt =
     bnd get_job (\<lambda>j.
     bnd (io_exn (okx_getWithdrawal ad (withdrawalId j))) (\<lambda>withdrawal.
     case withdrawal of
       None \<Rightarrow> seq (schedule_retry ad setSt FUNDS_TRANSFERED) (ret True)
     | Some w \<Rightarrow>
         if wd_state w = ''-3'' \<or> wd_state w = ''-2'' \<or> wd_state w = ''-1'' then
           seq (schedule_retry ad setSt FUNDS_TRANSFERED) (ret True)
         else if wd_state w = ''2'' then
           seq (modify_job (\<lambda>j. j\<lparr>inTxId := Some (wd_txId w)\<rparr>))
          (seq (setSt WITHDRAWAL_SENT) (ret True))
         else ret True))"

definition h_WITHDRAWAL_SENT ::
  "'w adapters \<Rightarrow> (RebalancingState \<Rightarrow> ('w, unit) action) \<Rightarrow> ('w, bool) action" where
  "h_WITHDRAWAL_SENT ad setSt =
     bnd get_job (\<lambda>j.
     if dstToken j = Some ''BTC'' then
       bnd (io_exn (btc_getTransaction ad (inTxId j))) (\<lambda>tx.
       case tx of
         None \<Rightarrow> seq (schedule_retry ad setSt WITHDRAWING) (ret True)
       | Some confirmations \<Rightarrow>
           if confirmations \<ge> 1 then seq (setSt IN_TX_CONFIRMED) (ret True) else ret True)
     else if dstToken j = Some ''BTC-LN'' then
       bnd (io_exn (ln_getInvoice ad (inTxId j))) (\<lambda>(is_confirmed, is_canceled).
       seq (if is_confirmed then setSt IN_TX_CONFIRMED else ret ())
      (seq (if is_canceled then schedule_retry ad setSt WITHDRAWING else ret ())
           (ret True)))
     else
       bnd (io_exn (sc_getTxIdStatus ad (inTxId j))) (\<lambda>result.
       seq (if result = TxSuccess then setSt IN_TX_CONFIRMED else ret ())
      (seq (if result = TxReverted then schedule_retry ad setSt WITHDRAWING else ret ())
           (ret True))))"

definition h_IN_TX_CONFIRMED ::
  "'w adapters \<Rightarrow> (RebalancingState \<Rightarrow> ('w, unit) action) \<Rightarrow> ('w, bool) action" where
  "h_IN_TX_CONFIRMED ad setSt =
     bnd get_job (\<lambda>j.
     if dstToken j \<noteq> Some ''BTC'' \<and> dstToken j \<noteq> Some ''BTC-LN'' then
       (case (amountIn j, withdrawalFee j) of
          (Some received, Some fee) \<Rightarrow>
            bnd (io_exn (sc_txsDeposit ad (dstTokenAddress j) (received - fee))) (\<lambda>depositTxs.
            seq (modify_job (\<lambda>j. j\<lparr>scDepositTxs := Some []\<rparr>))
           (seq (sendAndConfirm ad depositTxs (\<lambda>txId rawTx.
                   seq (put_scDepositTx txId rawTx)
                  (seq (set_cooldown ad)
                       (setSt SC_DEPOSITING))))
                (ret False)))
        | _ \<Rightarrow> throw TypeError)
     else seq (setSt FINISHED) (ret True))"

definition h_SC_DEPOSITING ::
  "'w adapters \<Rightarrow> (RebalancingState \<Rightarrow> ('w, unit) action) \<Rightarrow> ('w, bool) action" where
  "h_SC_DEPOSITING ad setSt =
     bnd get_job (\<lambda>j.
     bnd (scan_txs ad (case scDepositTxs j of None \<Rightarrow> [] | Some txs \<Rightarrow> txs) False False)
       (\<lambda>scanned.
     case scanned of
       Found txId \<Rightarrow>
         seq (modify_job (\<lambda>j. j\<lparr>scDepositTxId := Some txId\<rparr>))
        (seq (setSt SC_DEPOSITED) (ret True))
     | Scanned isSomePending isNotFoundOrReverted \<Rightarrow>
         if isNotFoundOrReverted \<and> \<not> isSomePending then
           seq (schedule_retry ad setSt IN_TX_CONFIRMED) (ret True)
         else ret True))"

definition h_SC_DEPOSITED ::
  "'w adapters \<Rightarrow> (RebalancingState \<Rightarrow> ('w, unit) action) \<Rightarrow> ('w, bool) action" where
  "h_SC_DEPOSITED ad setSt = seq (setSt FINISHED) (ret False)"

definition h_FINISHED ::
  "'w adapters \<Rightarrow> (RebalancingState \<Rightarrow> ('w, unit) action) \<Rightarrow> ('w, bool) action" where
  "h_FINISHED ad setSt =
     seq (archiveState ad)
    (seq (\<lambda>p. (Ret (), p\<lparr>job := Some fresh_state\<rparr>))
         (ret False))"

text \<open>
  The blocks of \<^verbatim>\<open>check\<close> in the order of the source. \<^verbatim>\<open>check\<close> compares
  \<^verbatim>\<open>this.state.state\<close> with the state of each block in turn, reading it again each time.
\<close>

definition blocks ::
  "'w adapters \<Rightarrow> (RebalancingState \<Rightarrow> ('w, unit) action)
     \<Rightarrow> (RebalancingState \<times> ('w, bool) action) list" where
  "blocks ad setSt =
     [(RETRYING, h_RETRYING ad setSt),
      (TRIGGERED, h_TRIGGERED ad setSt),
      (SC_WITHDRAWING, h_SC_WITHDRAWING ad setSt),
      (SC_WITHDRAWAL_CONFIRMED, h_SC_WITHDRAWAL_CONFIRMED ad setSt),
      (OUT_TX, h_OUT_TX ad setSt),
      (OUT_TX_CONFIRMED, h_OUT_TX_CONFIRMED ad setSt),
      (DEPOSIT_RECEIVED, h_DEPOSIT_RECEIVED ad setSt),
      (TRADE_EXECUTING, h_TRADE_EXECUTING ad setSt),
      (TRADE_EXECUTED, h_TRADE_EXECUTED ad setSt),
      (FUNDS_TRANSFERING, h_FUNDS_TRANSFERING ad setSt),
      (FUNDS_TRANSFERED, h_FUNDS_TRANSFERED ad setSt),
      (WITHDRAWING, h_WITHDRAWING ad setSt),
      (WITHDRAWAL_SENT, h_WITHDRAWAL_SENT ad setSt),
      (IN_TX_CONFIRMED, h_IN_TX_CONFIRMED ad setSt),
      (SC_DEPOSITING, h_SC_DEPOSITING ad setSt),
      (SC_DEPOSITED, h_SC_DEPOSITED ad setSt),
      (FINISHED, h_FINISHED ad setSt)]"

fun run_blocks :: "(RebalancingState \<times> ('w, bool) action) list \<Rightarrow> ('w, unit) action" where
  "run_blocks [] = ret ()"
| "run_blocks ((s, handler) # rest) =
     bnd get_job (\<lambda>j.
       if state j = Some s then
         bnd handler (\<lambda>returned. if returned then ret () else run_blocks rest)
       else run_blocks rest)"

definition check_body ::
  "'w adapters \<Rightarrow> (RebalancingState \<Rightarrow> ('w, unit) action) \<Rightarrow> ('w, unit) action" where
  "check_body ad setSt p =
     (case job p of
        None \<Rightarrow> (Ret (), p)
      | Some j \<Rightarrow>
          bnd (io (Date_now ad)) (\<lambda>now.
            if opt_greater (cooldown j) now then ret ()
            else run_blocks (blocks ad setSt)) p)"

text \<open>
  \<^verbatim>\<open>check\<close> and \<^verbatim>\<open>setState\<close> call each other without a bound; the model counts the
  nesting of \<^verbatim>\<open>check\<close> down from \<open>fuel\<close> and ends with \<open>Diverged\<close> when it is used up.
\<close>

fun check :: "nat \<Rightarrow> 'w adapters \<Rightarrow> ('w, unit) action" where
  "check 0 ad = (\<lambda>p. (Diverged, p))"
| "check (Suc fuel) ad = check_body ad (setState ad (check fuel ad))"

text \<open>One tick of \<^verbatim>\<open>runSwapStateChecker\<close>: \<^verbatim>\<open>check\<close> with its exceptions logged and dropped.\<close>

definition tick :: "nat \<Rightarrow> 'w adapters \<Rightarrow> ('w, unit) action" where
  "tick fuel ad = try_catch (check fuel ad) (\<lambda>e. ret ())"

section \<open>The transaction-replacement callback\<close>

text \<open>
  The callback that \<^verbatim>\<open>onEnable\<close> registers with \<^verbatim>\<open>swapContract.onBeforeTxReplace\<close>:
  three \<^verbatim>\<open>if\<close> blocks in a row, each reading \<^verbatim>\<open>this.state.state\<close> again.
\<close>

definition onBeforeTxReplace ::
  "'w adapters \<Rightarrow> string \<Rightarrow> string \<Rightarrow> string \<Rightarrow> string \<Rightarrow> ('w, unit) action" where
  "onBeforeTxReplace ad oldTx oldTxId newTx newTxId =
     seq (bnd get_job (\<lambda>j.
            if state j = Some SC_WITHDRAWING then
              (case scWithdrawTxs j of
                 None \<Rightarrow> throw TypeError
               | Some m \<Rightarrow>
                   if map_of m oldTxId \<noteq> None then
                     seq (put_scWithdrawTx newTxId newTx)
                    (seq (set_cooldown ad) (saveState ad))
                   else ret ())
            else ret ()))
    (seq (bnd get_job (\<lambda>j.
            if state j = Some OUT_TX then
              (case outTxs j of
                 None \<Rightarrow> throw TypeError
               | Some m \<Rightarrow>
                   if map_of m oldTxId \<noteq> None then
                     seq (put_outTx newTxId newTx)
                    (seq (set_cooldown ad) (saveState ad))
                   else ret ())
            else ret ()))
         (bnd get_job (\<lambda>j.
            if state j = Some SC_DEPOSITING then
              (case scDepositTxs j of
                 None \<Rightarrow> throw TypeError
               | Some m \<Rightarrow>
                   if map_of m oldTxId \<noteq> None then
                     seq (put_scDepositTx newTxId newTx)
                    (seq (set_cooldown ad) (saveState ad))
                   else ret ())
            else ret ())))"

section \<open>The balance monitor\<close>

text \<open>
  The body of the interval that \<^verbatim>\<open>onEnable\<close> starts. Its readings are taken as given:
  \<open>usableBalanceUSDC\<close> is \<^verbatim>\<open>swapContract.getBalance(USDC, true)\<close>, \<open>lockedUSDC\<close> and
  \<open>returningUSDC\<close> are the entries of \<^verbatim>\<open>lockedBalances\<close> and \<^verbatim>\<open>returningBalances\<close> for
  the USDC address after the scans of the swap stores (\<open>None\<close> when there is no entry),
  \<open>balanceOnchain\<close> is the node's chain balance, \<open>getToBtcSwapAmount\<close> and
  \<open>getFromBtcSwapAmount\<close> are the price oracle for USDC. The Lightning balance is read by
  the source and not used.
\<close>

record monitor_env =
  usableBalanceUSDC :: int
  lockedUSDC :: "int option"
  returningUSDC :: "int option"
  balanceOnchain :: int
  getToBtcSwapAmount :: "int \<Rightarrow> int"
  getFromBtcSwapAmount :: "int \<Rightarrow> int"
  tokenAddress_USDC :: string
  rebalanceThresholdPPM :: int
  rebalanceAmountPPM :: int

definition slot_busy :: "'w plugin \<Rightarrow> bool" where
  "slot_busy p =
     (case job p of
        None \<Rightarrow> False
      | Some j \<Rightarrow> (case state j of None \<Rightarrow> False | Some s \<Rightarrow> s \<noteq> IDLE))"

definition seed_job ::
  "string \<Rightarrow> string \<Rightarrow> string \<Rightarrow> string \<Rightarrow> int \<Rightarrow> int HedgingPluginState" where
  "seed_job src srcAddress dst dstAddress amount =
     fresh_state\<lparr>srcToken := Some src, srcTokenAddress := Some srcAddress,
                 dstToken := Some dst, dstTokenAddress := Some dstAddress,
                 amountOut := Some amount\<rparr>"

definition balanceMonitor ::
  "monitor_env \<Rightarrow> (RebalancingState \<Rightarrow> ('w, unit) action) \<Rightarrow> ('w, unit) action" where
  "balanceMonitor m setSt p =
     (if slot_busy p then (Ret (), p)
      else
        (let balanceUSDC0 = usableBalanceUSDC m;
             balanceUSDC1 = (case lockedUSDC m of None \<Rightarrow> balanceUSDC0
                             | Some l \<Rightarrow> balanceUSDC0 + l);
             balanceUSDC = (case returningUSDC m of None \<Rightarrow> balanceUSDC1
                            | Some r \<Rightarrow> balanceUSDC1 + r);
             balanceUSDCinBTC = getToBtcSwapAmount m balanceUSDC;
             sumOnChainAndUSDC = balanceUSDCinBTC + balanceOnchain m
         in case BN_div (balanceUSDCinBTC * 1000000) sumOnChainAndUSDC of
              Inl e \<Rightarrow> (Thrown e, p)
            | Inr ppmUSDC \<Rightarrow>
           (case BN_div (balanceOnchain m * 1000000) sumOnChainAndUSDC of
              Inl e \<Rightarrow> (Thrown e, p)
            | Inr ppmBTC \<Rightarrow>
                (let diffPPM = ppmUSDC - ppmBTC in
                 if \<bar>diffPPM\<bar> > rebalanceThresholdPPM m then
                   (case BN_div (sumOnChainAndUSDC * \<bar>diffPPM\<bar> * rebalanceAmountPPM m) 1000000 of
                      Inl e \<Rightarrow> (Thrown e, p)
                    | Inr q \<Rightarrow>
                   (case BN_div q 1000000 of
                      Inl e \<Rightarrow> (Thrown e, p)
                    | Inr btcValueToSwap \<Rightarrow>
                        if diffPPM < 0 then
                          setSt TRIGGERED
                            (p\<lparr>job := Some (seed_job ''BTC'' [] ''USDC'' (tokenAddress_USDC m)
                                               btcValueToSwap)\<rparr>)
                        else
                          (let usdcAmount = getFromBtcSwapAmount m btcValueToSwap in
                           if usdcAmount > usableBalanceUSDC m then (Ret (), p)
                           else
                             setSt TRIGGERED
                               (p\<lparr>job := Some (seed_job ''USDC'' (tokenAddress_USDC m) ''BTC'' []
                                                  usdcAmount)\<rparr>))))
                 else (Ret (), p)))))"

text \<open>
  The quantities of the specification's description of the monitor (section 4.1, steps 2
  to 5), written from its words: the token-side balance with the locked and returning
  amounts added, its value in BTC units, the sum, the two PPM shares, their difference
  and the notional.
\<close>

definition spec_balanceSC :: "monitor_env \<Rightarrow> int" where
  "spec_balanceSC m =
     usableBalanceUSDC m + (case lockedUSDC m of None \<Rightarrow> 0 | Some l \<Rightarrow> l)
       + (case returningUSDC m of None \<Rightarrow> 0 | Some r \<Rightarrow> r)"

definition spec_btcValueOfSC :: "monitor_env \<Rightarrow> int" where
  "spec_btcValueOfSC m = getToBtcSwapAmount m (spec_balanceSC m)"

definition spec_sum :: "monitor_env \<Rightarrow> int" where
  "spec_sum m = spec_btcValueOfSC m + balanceOnchain m"

definition spec_diff :: "monitor_env \<Rightarrow> int" where
  "spec_diff m =
     spec_btcValueOfSC m * 10 ^ 6 div spec_sum m - balanceOnchain m * 10 ^ 6 div spec_sum m"

definition spec_notional :: "monitor_env \<Rightarrow> int" where
  "spec_notional m = spec_sum m * \<bar>spec_diff m\<bar> * rebalanceAmountPPM m div 10 ^ 12"

text \<open>Whether a transaction map is there and has an entry for the key.\<close>

definition has_key :: "(string \<times> string) list option \<Rightarrow> string \<Rightarrow> bool" where
  "has_key m k = (case m of None \<Rightarrow> False | Some l \<Rightarrow> map_of l k \<noteq> None)"

section \<open>Simulated collaborators\<close>

text \<open>
  Modelled from the spec: the external collaborators (exchange, Lightning node, Bitcoin
  backend, smart-chain contract, clock, file system) are not part of the repository. For
  running the engine on concrete inputs, this is a small world in the shape of the
  adapter contracts of the specification (section 6) and of its scenario S1: the clock
  stands still during a call of \<^verbatim>\<open>check\<close>; the Lightning node knows the payments it was
  asked to make, by payment hash; a transaction is known to its chain once it was
  broadcast; the venue, when it is up, credits every deposit, fills every order and
  completes every transfer and withdrawal; no write to the disk fails.
\<close>

record sim_world =
  clock :: int
  paid :: "string list"
  sent_txs :: "string list"
  venue_up :: bool

definition sim_adapters :: "sim_world adapters" where
  "sim_adapters =
     \<lparr>okxSmartChainName = ''Polygon'',
      Date_now = (\<lambda>w. (clock w, w)),
      randomHex = (\<lambda>w. (''000102030405060708090a0b0c0d0e0f'', w)),
      fs_fault = (\<lambda>w. (None, w)),
      okx_getDepositAddress = (\<lambda>coin chainName amount w.
         (if venue_up w
          then Inr (Some (if coin = Some ''BTC-LN'' then ''lnbc1invoice'' else ''deposit-address''))
          else Inl (OKXError ''Service unavailable'' ''50001''), w)),
      bolt11_payment_hash = (\<lambda>request. Inr (''hash:'' @ request)),
      ln_pay = (\<lambda>request w. (True, w\<lparr>paid := (''hash:'' @ request) # paid w\<rparr>)),
      ln_fundPsbt = (\<lambda>address amount w. (Some \<lparr>psbt = ''psbt'', inputs = []\<rparr>, w)),
      ln_unlockUtxo = (\<lambda>i w. (Inr (), w)),
      ln_signPsbt = (\<lambda>funded w. (Some ''signed-tx'', w)),
      bitcoin_txid = (\<lambda>signedTx. Inr (''txid:'' @ signedTx)),
      ln_broadcastChainTransaction = (\<lambda>signedTx w.
         (True, w\<lparr>sent_txs := (''txid:'' @ signedTx) # sent_txs w\<rparr>)),
      sc_txsWithdraw = (\<lambda>token amount w. (Inr [''withdraw''], w)),
      sc_txsTransfer = (\<lambda>token amount recipient w. (Inr [''transfer''], w)),
      sc_txsDeposit = (\<lambda>token amount w. (Inr [''deposit''], w)),
      sc_sendAndConfirm = (\<lambda>txs w.
         (map (\<lambda>t. (''id:'' @ t, ''raw:'' @ t)) txs,
          w\<lparr>sent_txs := map (\<lambda>t. ''raw:'' @ t) txs @ sent_txs w\<rparr>)),
      sc_sendAndConfirm_end = (\<lambda>txs w. (Inr (), w)),
      sc_getTxStatus = (\<lambda>rawTx w.
         (Inr (if rawTx \<in> set (sent_txs w) then TxSuccess else TxNotFound), w)),
      sc_getTxIdStatus = (\<lambda>txId w. (Inr TxSuccess, w)),
      sc_getAddress = ''0xcontract'',
      btc_getTransaction = (\<lambda>txId w.
         (Inr (case txId of
                 None \<Rightarrow> None
               | Some t \<Rightarrow> if t \<in> set (sent_txs w) then Some 1 else None), w)),
      ln_getPayment = (\<lambda>hash w.
         ((case hash of
             None \<Rightarrow> None
           | Some h \<Rightarrow> if h \<in> set (paid w) then Some (False, True) else None), w)),
      ln_getInvoice = (\<lambda>hash w. (Inr (True, False), w)),
      ln_getChainAddresses = (\<lambda>w. (Inr [(''bc1qchange'', True), (''bc1qreceive'', False)], w)),
      ln_createInvoice = (\<lambda>mtokens w. (Inr ''lnbc1payout'', w)),
      okx_getDeposit = (\<lambda>txId w.
         (if venue_up w then Inr (Some \<lparr>dep_state = ''2'', depId = ''D''\<rparr>)
          else Inl (OKXError ''Service unavailable'' ''50001''), w)),
      okx_marketTrade = (\<lambda>src dst amount clientId w. w),
      okx_getTrade = (\<lambda>src dst clientId w.
         (Inr \<lparr>averagePrice = ''24.5'', trade_state = ''filled'', trade_orderId = ''O''\<rparr>, w)),
      okx_getBalance = (\<lambda>ccy w. (Inr 20000000, w)),
      okx_fundsTransfer = (\<lambda>ccy amount clientId w. w),
      okx_getFundsTransfer = (\<lambda>clientId w.
         (Inr (Some \<lparr>transfer_state = ''success'', transId = ''T''\<rparr>), w)),
      okx_getWithdrawalFee = (\<lambda>ccy chainName amount w. (Inr 1000, w)),
      okx_withdraw = (\<lambda>ccy chainName address clientId fee amount w. (Inr (), w)),
      okx_getWithdrawal = (\<lambda>clientId w.
         (Inr (Some \<lparr>wd_state = ''2'', wd_txId = ''T_in''\<rparr>), w))\<rparr>"

definition sim_start :: "int \<Rightarrow> sim_world" where
  "sim_start t = \<lparr>clock = t, paid = [], sent_txs = [], venue_up = True\<rparr>"

text \<open>A plugin with a live job whose document is on the disk, and nothing else.\<close>

definition plugin_with :: "int HedgingPluginState \<Rightarrow> 'w \<Rightarrow> 'w plugin" where
  "plugin_with j w =
     \<lparr>job = Some j, storage = Some (serializeState j), archived = [], transitions = [],
      world = w\<rparr>"

section \<open>Progress of the state index\<close>

text \<open>
  The states that the handlers record in \<^verbatim>\<open>retryState\<close> before they enter RETRYING.
\<close>

definition resume_state :: "RebalancingState \<Rightarrow> bool" where
  "resume_state s =
     (s \<in> set [SC_WITHDRAWAL_CONFIRMED, DEPOSIT_RECEIVED, TRADE_EXECUTED, FUNDS_TRANSFERED,
                WITHDRAWING, IN_TX_CONFIRMED])"

text \<open>
  A transition \<open>(old, new)\<close> of the log is in order when it enters RETRYING, or enters
  IDLE, or leaves RETRYING for a resume state, or goes from a state other than RETRYING
  to one whose index is not lower (\<open>old = None\<close> is the \<^verbatim>\<open>null\<close> state of a fresh
  document).
\<close>

definition transition_in_order :: "RebalancingState option \<times> RebalancingState \<Rightarrow> bool" where
  "transition_in_order t =
     (case t of (old, new) \<Rightarrow>
        new = RETRYING \<or> new = IDLE \<or>
        (case old of
           None \<Rightarrow> True
         | Some s \<Rightarrow> if s = RETRYING then resume_state new
                     else state_index s \<le> state_index new))"

text \<open>A job that is in RETRYING has a resume state recorded in \<^verbatim>\<open>retryState\<close>.\<close>

definition retry_recorded :: "'w plugin \<Rightarrow> bool" where
  "retry_recorded p =
     (case job p of
        None \<Rightarrow> True
      | Some j \<Rightarrow>
          (if state j = Some RETRYING
           then (case retryState j of None \<Rightarrow> False | Some r \<Rightarrow> resume_state r)
           else True))"

text \<open>The transitions logged since the log was \<open>l0\<close>.\<close>

definition logged_since ::
  "(RebalancingState option \<times> RebalancingState) list \<Rightarrow> 'w plugin
     \<Rightarrow> (RebalancingState option \<times> RebalancingState) list" where
  "logged_since l0 p = drop (length l0) (transitions p)"

definition progress_inv ::
  "(RebalancingState option \<times> RebalancingState) list \<Rightarrow> 'w plugin \<Rightarrow> bool" where
  "progress_inv l0 p =
     (retry_recorded p \<and> take (length l0) (transitions p) = l0
      \<and> list_all transition_in_order (logged_since l0 p))"

text \<open>
  The clock stays within one cooldown: every reading of \<^verbatim>\<open>Date.now()\<close> lies in the five
  seconds that start at \<open>c0\<close>.
\<close>

definition clock_within :: "'w adapters \<Rightarrow> int \<Rightarrow> bool" where
  "clock_within ad c0 =
     (\<forall>w. c0 \<le> fst (Date_now ad w) \<and> fst (Date_now ad w) < c0 + 5 * 1000)"

text \<open>
  Assertions about an action: \<open>wp m Q X D p\<close> holds when running \<open>m\<close> from \<open>p\<close> ends in a
  plugin that satisfies \<open>Q\<close> with the returned value, \<open>X\<close> with the thrown exception, or
  \<open>D\<close> when the fuel ran out.
\<close>

definition wp ::
  "('w, 'a) action \<Rightarrow> ('a \<Rightarrow> 'w plugin \<Rightarrow> bool) \<Rightarrow> (exn \<Rightarrow> 'w plugin \<Rightarrow> bool)
     \<Rightarrow> ('w plugin \<Rightarrow> bool) \<Rightarrow> 'w plugin \<Rightarrow> bool" where
  "wp m Q X D p =
     (case m p of
        (Ret a, p') \<Rightarrow> Q a p'
      | (Thrown e, p') \<Rightarrow> X e p'
      | (Diverged, p') \<Rightarrow> D p')"

definition state_is :: "RebalancingState \<Rightarrow> 'w plugin \<Rightarrow> bool" where
  "state_is s p = (case job p of None \<Rightarrow> False | Some j \<Rightarrow> state j = Some s)"

definition cooled :: "int \<Rightarrow> 'w plugin \<Rightarrow> bool" where
  "cooled c0 p =
     (case job p of
        None \<Rightarrow> False
      | Some j \<Rightarrow> (case cooldown j of None \<Rightarrow> False | Some c \<Rightarrow> c0 + 5 * 1000 \<le> c))"

text \<open>
  What the proofs ask of \<^verbatim>\<open>setState\<close> where a handler calls it: the requested transition
  is in order for the state the job is in, and a job sent to RETRYING has a resume state
  recorded. \<open>setSt_ok\<close>: such a call keeps the invariant, however it ends.
  \<open>setSt_stays\<close>: when the cooldown of the job lies beyond the window of the clock, the
  call also leaves the job in the requested state.
\<close>

definition setSt_pre :: "RebalancingState \<Rightarrow> 'w plugin \<Rightarrow> bool" where
  "setSt_pre t p =
     (case job p of
        None \<Rightarrow> True
      | Some j \<Rightarrow>
          transition_in_order (state j, t) \<and>
          (if t = RETRYING
           then (case retryState j of None \<Rightarrow> True | Some r \<Rightarrow> resume_state r)
           else True))"

definition setSt_ok ::
  "(RebalancingState option \<times> RebalancingState) list
     \<Rightarrow> (RebalancingState \<Rightarrow> ('w, unit) action) \<Rightarrow> bool" where
  "setSt_ok l0 setSt =
     (\<forall>t p. progress_inv l0 p \<and> setSt_pre t p \<longrightarrow>
        wp (setSt t) (\<lambda>_. progress_inv l0) (\<lambda>_. progress_inv l0) (progress_inv l0) p)"

definition setSt_stays ::
  "(RebalancingState option \<times> RebalancingState) list \<Rightarrow> int
     \<Rightarrow> (RebalancingState \<Rightarrow> ('w, unit) action) \<Rightarrow> bool" where
  "setSt_stays l0 c0 setSt =
     (\<forall>t p. progress_inv l0 p \<and> setSt_pre t p \<and> cooled c0 p \<longrightarrow>
        wp (setSt t) (\<lambda>_ q. progress_inv l0 q \<and> state_is t q)
           (\<lambda>_. progress_inv l0) (progress_inv l0) p)"

text \<open>Example inputs.\<close>

definition job_replace :: "int HedgingPluginState" where
  "job_replace = (seed_job ''USDC'' ''0xusdc'' ''BTC'' [] 35000000)
     \<lparr>state := Some OUT_TX, outTxs := Some [(''t1'', ''t1_raw'')], cooldown := Some 6000\<rparr>"

definition monitor_example :: monitor_env where
  "monitor_example =
     \<lparr>usableBalanceUSDC = 90000, lockedUSDC = Some 10000, returningUSDC = None,
      balanceOnchain = 600000, getToBtcSwapAmount = (\<lambda>x. x * 4),
      getFromBtcSwapAmount = (\<lambda>x. x div 4), tokenAddress_USDC = ''0xusdc'',
      rebalanceThresholdPPM = 50000, rebalanceAmountPPM = 500000\<rparr>"

text \<open>
  The simulated collaborators with a clock that reads \<open>t\<close> whatever the world, and the
  simulated world with the venue out of service.
\<close>

definition sim_frozen :: "int \<Rightarrow> sim_world adapters" where
  "sim_frozen t = sim_adapters\<lparr>Date_now := (\<lambda>w. (t, w))\<rparr>"

definition sim_down :: "int \<Rightarrow> sim_world" where
  "sim_down t = (sim_start t)\<lparr>venue_up := False\<rparr>"

text \<open>
  A job out of the Lightning balance as the monitor seeds it, and the same job later:
  after the TRIGGERED handler has recorded the payment and entered OUT_TX, with the
  payment id recorded, and after \<^verbatim>\<open>OUT_TX_CONFIRMED\<close> was entered.
\<close>

definition job_triggered :: "int HedgingPluginState" where
  "job_triggered = (seed_job ''BTC-LN'' [] ''USDC'' ''0xusdc'' 100000)\<lparr>state := Some TRIGGERED\<rparr>"

definition job_out :: "int HedgingPluginState" where
  "job_out = (seed_job ''BTC-LN'' [] ''USDC'' ''0xusdc'' 100000)
     \<lparr>state := Some OUT_TX, outTxs := Some [(''hash:lnbc1invoice'', ''lnbc1invoice'')],
      cooldown := Some 6000\<rparr>"

definition job_paid :: "int HedgingPluginState" where
  "job_paid = job_out\<lparr>outTxId := Some ''hash:lnbc1invoice''\<rparr>"

definition job_confirmed :: "int HedgingPluginState" where
  "job_confirmed = job_paid\<lparr>state := Some OUT_TX_CONFIRMED\<rparr>"

text \<open>The plugin of a process that has just started: no job in memory, the document \<open>d\<close> on the disk.\<close>

definition restarted :: "string HedgingPluginState option \<Rightarrow> 'w \<Rightarrow> 'w plugin" where
  "restarted d w = \<lparr>job = None, storage = d, archived = [], transitions = [], world = w\<rparr>"

lemma supported_currency_cases:
  "supported_currency c \<Longrightarrow>
     c = ''BTC'' \<or> c = ''BTC-LN'' \<or> c = ''USDC'' \<or> c = ''USDT'' \<or> c = ''ETH'' \<or> c = ''SOL''"
  by (simp add: supported_currency_def)

section \<open>Digits, printing and parsing of big integers\<close>

lemma of_char_digit_char:
  "d < 36 \<Longrightarrow> (of_char (digit_char d) :: nat) = (if d < 10 then 48 + d else 87 + d)"
  by (simp add: digit_char_def)

lemma char_digit_digit_char: "d < 36 \<Longrightarrow> char_digit (digit_char d) = Some d"
  unfolding char_digit_def Let_def of_char_digit_char by simp

lemma digit_val_digit_char: "d < 36 \<Longrightarrow> digit_val (digit_char d) = d"
  by (simp add: digit_val_def char_digit_digit_char)

lemma valid_digit_digit_char: "d < b \<Longrightarrow> b \<le> 36 \<Longrightarrow> valid_digit b (digit_char d)"
  by (simp add: valid_digit_def char_digit_digit_char)

lemma digits_val_Nil: "digits_val b [] = 0"
  by (simp add: digits_val_def)

lemma digits_val_snoc: "digits_val b (s @ [c]) = digits_val b s * b + digit_val c"
  by (simp add: digits_val_def)

lemma digits_val_append:
  "digits_val b (s @ t) = digits_val b s * b ^ length t + digits_val b t"
proof (induction t rule: rev_induct)
  case Nil
  show ?case by (simp add: digits_val_Nil)
next
  case (snoc c t)
  have "digits_val b (s @ t @ [c]) = digits_val b ((s @ t) @ [c])" by simp
  also have "\<dots> = digits_val b (s @ t) * b + digit_val c" by (rule digits_val_snoc)
  finally show ?case by (simp add: snoc.IH digits_val_snoc algebra_simps)
qed

lemma digits_val_zeros: "digits_val b (replicate k (CHR ''0'')) = 0"
proof (induction k)
  case 0
  show ?case by (simp add: digits_val_Nil)
next
  case (Suc k)
  have "replicate (Suc k) (CHR ''0'') = replicate k (CHR ''0'') @ [CHR ''0'']"
    by (simp add: replicate_append_same)
  then have "digits_val b (replicate (Suc k) (CHR ''0'')) = digits_val b (replicate k (CHR ''0'')) * b + digit_val (CHR ''0'')"
    by (simp only: digits_val_snoc)
  then show ?case by (simp add: Suc.IH digit_val_def char_digit_def)
qed

lemma digits_val_zeros_append: "digits_val b (replicate k (CHR ''0'') @ s) = digits_val b s"
  by (simp add: digits_val_append digits_val_zeros)

lemma nat_digits_not_Nil: "nat_digits b n \<noteq> []"
  by (subst nat_digits.simps) simp

lemma nat_digits_small: "n < b \<or> b < 2 \<Longrightarrow> nat_digits b n = [digit_char n]"
  by (subst nat_digits.simps) simp

lemma nat_digits_step:
  "\<not> n < b \<Longrightarrow> 2 \<le> b \<Longrightarrow> nat_digits b n = nat_digits b (n div b) @ [digit_char (n mod b)]"
  by (subst nat_digits.simps) simp

lemma digits_val_single: "digits_val b [c] = digit_val c"
  by (simp add: digits_val_def)

lemma digits_val_nat_digits:
  "2 \<le> b \<Longrightarrow> b \<le> 36 \<Longrightarrow> digits_val b (nat_digits b n) = n"
proof (induction b n rule: nat_digits.induct)
  case (1 b n)
  show ?case
  proof (cases "n < b")
    case True
    have "n < 36" using True "1.prems" by linarith
    then show ?thesis
      using True by (simp add: nat_digits_small digits_val_single digit_val_digit_char)
  next
    case False
    have m: "n mod b < 36"
      using "1.prems" mod_less_divisor [of b n] by linarith
    have nb: "\<not> (n < b \<or> b < 2)" using False "1.prems" by linarith
    have ih: "digits_val b (nat_digits b (n div b)) = n div b"
      by (rule "1.IH" [OF nb "1.prems"])
    have "digits_val b (nat_digits b n) = digits_val b (nat_digits b (n div b)) * b + digit_val (digit_char (n mod b))"
      by (simp only: nat_digits_step [OF False "1.prems"(1)] digits_val_snoc)
    also have "\<dots> = n div b * b + n mod b"
      by (simp only: ih digit_val_digit_char [OF m])
    finally show ?thesis by simp
  qed
qed

lemma valid_nat_digits:
  "2 \<le> b \<Longrightarrow> b \<le> 36 \<Longrightarrow> list_all (valid_digit b) (nat_digits b n)"
proof (induction b n rule: nat_digits.induct)
  case (1 b n)
  show ?case
  proof (cases "n < b")
    case True
    then show ?thesis using "1.prems" by (simp add: nat_digits_small valid_digit_digit_char)
  next
    case False
    have nb: "\<not> (n < b \<or> b < 2)" using False "1.prems" by linarith
    have ih: "list_all (valid_digit b) (nat_digits b (n div b))"
      by (rule "1.IH" [OF nb "1.prems"])
    have "n mod b < b" using "1.prems" by simp
    then have "valid_digit b (digit_char (n mod b))"
      using "1.prems" by (intro valid_digit_digit_char)
    then show ?thesis
      using ih by (simp add: nat_digits_step [OF False "1.prems"(1)])
  qed
qed

lemma valid_digit_not_minus: "valid_digit b c \<Longrightarrow> c \<noteq> CHR ''-''"
proof
  assume v: "valid_digit b c" and "c = CHR ''-''"
  then have "char_digit c = None" by (simp add: char_digit_def)
  with v show False by (simp add: valid_digit_def)
qed

lemma valid_digit_zero: "0 < b \<Longrightarrow> valid_digit b (CHR ''0'')"
  by (simp add: valid_digit_def char_digit_def)

lemma BN_parse_digits:
  "list_all (valid_digit b) s \<Longrightarrow> BN_parse b s = Inr (int (digits_val b s))"
  by (cases s) (auto simp: BN_parse_def digits_val_Nil dest: valid_digit_not_minus)

lemma pad_multiple_eq: "\<exists>k. pad_multiple p s = replicate k (CHR ''0'') @ s"
  by (cases "p = 0") (auto simp: pad_multiple_def intro: exI [of _ 0])

lemma BN_parse_minus:
  "list_all (valid_digit b) s \<Longrightarrow> BN_parse b (CHR ''-'' # s) = Inr (- int (digits_val b s))"
  by (simp add: BN_parse_def)

lemma BN_parse_toString:
  assumes "2 \<le> b" and "b \<le> 36"
  shows "BN_parse b (BN_toString b p x) = Inr x"
proof -
  define n where "n = nat \<bar>x\<bar>"
  obtain k where k: "pad_multiple p (nat_digits b n) = replicate k (CHR ''0'') @ nat_digits b n"
    using pad_multiple_eq by blast
  define body where "body = replicate k (CHR ''0'') @ nat_digits b n"
  have "list_all (valid_digit b) (replicate k (CHR ''0''))"
    using assms by (simp add: list_all_iff valid_digit_zero)
  then have v: "list_all (valid_digit b) body"
    using assms by (simp add: body_def valid_nat_digits)
  have d: "digits_val b body = n"
    using assms by (simp add: body_def digits_val_zeros_append digits_val_nat_digits)
  show ?thesis
  proof (cases "x < 0")
    case True
    then have "nat (- x) = n" by (simp add: n_def)
    then have "BN_toString b p x = CHR ''-'' # body"
      using k True by (simp add: BN_toString_def body_def)
    moreover have "- int n = x" using True by (simp add: n_def)
    ultimately show ?thesis using BN_parse_minus [OF v] d by simp
  next
    case False
    then have "nat x = n" by (simp add: n_def)
    then have "BN_toString b p x = body"
      using k False by (simp add: BN_toString_def body_def)
    moreover have "int n = x" using False by (simp add: n_def)
    ultimately show ?thesis using BN_parse_digits [OF v] d by simp
  qed
qed

section \<open>Decimal conversion: auxiliary facts\<close>

lemma dec_digit_valid: "is_dec_digit c \<Longrightarrow> valid_digit 10 c"
  by (auto simp: is_dec_digit_def valid_digit_def char_digit_def Let_def)

lemma dec_digit_val: "is_dec_digit c \<Longrightarrow> digit_val c = of_char c - 48"
  by (simp add: is_dec_digit_def digit_val_def char_digit_def Let_def)

lemma dec_digit_val_less: "is_dec_digit c \<Longrightarrow> digit_val c < 10"
  by (auto simp: dec_digit_val is_dec_digit_def)

lemma dec_digit_char_val: "is_dec_digit c \<Longrightarrow> digit_char (digit_val c) = c"
proof -
  assume d: "is_dec_digit c"
  then have "48 + digit_val c = (of_char c :: nat)"
    by (simp add: dec_digit_val is_dec_digit_def)
  then have "char_of (48 + digit_val c) = c"
    by (metis char_of_char)
  then show ?thesis using dec_digit_val_less [OF d] by (simp add: digit_char_def)
qed

lemma dec_digit_nonzero: "is_dec_digit c \<Longrightarrow> c \<noteq> CHR ''0'' \<Longrightarrow> 0 < digit_val c"
proof -
  assume d: "is_dec_digit c" and n: "c \<noteq> CHR ''0''"
  have "(of_char c :: nat) \<noteq> of_char (CHR ''0'')"
    using n by (simp only: of_char_eq_iff not_False_eq_True)
  then have "(of_char c :: nat) \<noteq> 48" by simp
  then show ?thesis using d by (simp add: dec_digit_val is_dec_digit_def)
qed

lemma dec_digit_not_point: "is_dec_digit c \<Longrightarrow> c \<noteq> CHR ''.''"
  by (auto simp: is_dec_digit_def)

lemma dec_digit_zero: "is_dec_digit (CHR ''0'')"
  by (simp add: is_dec_digit_def)

lemma digit_val_zero: "digit_val (CHR ''0'') = 0"
  by (simp add: digit_val_def char_digit_def)

lemma digit_char_zero: "digit_char 0 = CHR ''0''"
  using dec_digit_char_val [OF dec_digit_zero] by (simp add: digit_val_zero)

lemma dec_digit_digit_char: "d < 10 \<Longrightarrow> is_dec_digit (digit_char d)"
  by (simp add: is_dec_digit_def digit_char_def)

lemma dec_digits_valid: "list_all is_dec_digit s \<Longrightarrow> list_all (valid_digit 10) s"
  by (induction s) (simp_all add: dec_digit_valid)

lemma dec_digits_no_point: "list_all is_dec_digit s \<Longrightarrow> CHR ''.'' \<notin> set s"
  by (induction s) (auto dest: dec_digit_not_point)

lemma nat_digits_dec: "list_all is_dec_digit (nat_digits 10 n)"
proof (induction "10::nat" n rule: nat_digits.induct)
  case (1 n)
  show ?case
  proof (cases "n < 10")
    case True
    then show ?thesis by (simp add: nat_digits_small dec_digit_digit_char)
  next
    case False
    then have "list_all is_dec_digit (nat_digits 10 (n div 10))"
      using "1.hyps" by simp
    then show ?thesis
      using False by (simp add: nat_digits_step dec_digit_digit_char)
  qed
qed

lemma canon_digits:
  "list_all is_dec_digit s \<Longrightarrow> s \<noteq> [] \<Longrightarrow> hd s \<noteq> CHR ''0'' \<Longrightarrow>
     nat_digits 10 (digits_val 10 s) = s \<and> 0 < digits_val 10 s"
proof (induction s rule: rev_induct)
  case Nil
  then show ?case by simp
next
  case (snoc c s)
  have dc: "is_dec_digit c" using snoc.prems(1) by simp
  show ?case
  proof (cases "s = []")
    case True
    then have "c \<noteq> CHR ''0''" using snoc.prems(3) by simp
    then have "0 < digit_val c" using dc by (rule dec_digit_nonzero [rotated])
    then show ?thesis
      using True dec_digit_val_less [OF dc] dec_digit_char_val [OF dc]
      by (simp add: digits_val_single nat_digits_small)
  next
    case False
    then have "hd s \<noteq> CHR ''0''" using snoc.prems(3) by simp
    then have ih: "nat_digits 10 (digits_val 10 s) = s" and pos: "0 < digits_val 10 s"
      using snoc.IH snoc.prems(1) False by simp_all
    define v where "v = digits_val 10 s * 10 + digit_val c"
    have v: "digits_val 10 (s @ [c]) = v" by (simp add: v_def digits_val_snoc)
    have ge: "\<not> v < 10" using pos by (simp add: v_def)
    have dv: "v div 10 = digits_val 10 s" and md: "v mod 10 = digit_val c"
      using dec_digit_val_less [OF dc] by (simp_all add: v_def)
    have "nat_digits 10 v = nat_digits 10 (v div 10) @ [digit_char (v mod 10)]"
      using ge by (simp add: nat_digits_step)
    then have "nat_digits 10 v = s @ [c]"
      by (simp add: dv md ih dec_digit_char_val [OF dc])
    moreover have "0 < v" using pos by (simp add: v_def)
    ultimately show ?thesis by (simp add: v)
  qed
qed

lemma length_padStart: "length (padStart n s) = max n (length s)"
  by (simp add: padStart_def)

lemma padStart_noop: "n \<le> length s \<Longrightarrow> padStart n s = s"
  by (simp add: padStart_def)

lemma digits_val_zero_Cons: "digits_val b (CHR ''0'' # s) = digits_val b s"
  using digits_val_zeros_append [of b 1 s] by simp

lemma pad_canon:
  "list_all is_dec_digit u \<Longrightarrow> u \<noteq> [] \<Longrightarrow>
     padStart (length u) (nat_digits 10 (digits_val 10 u)) = u"
proof (induction u)
  case Nil
  then show ?case by simp
next
  case (Cons c cs)
  show ?case
  proof (cases "c = CHR ''0''")
    case False
    then have "nat_digits 10 (digits_val 10 (c # cs)) = c # cs"
      using canon_digits [of "c # cs"] Cons.prems(1) by simp
    then show ?thesis by (simp add: padStart_noop)
  next
    case True
    show ?thesis
    proof (cases "cs = []")
      case True
      then show ?thesis
        using \<open>c = CHR ''0''\<close>
        by (simp add: digits_val_single digit_val_zero nat_digits_small
            padStart_def digit_char_zero)
    next
      case False
      define X where "X = nat_digits 10 (digits_val 10 cs)"
      have ih: "padStart (length cs) X = cs"
        using Cons.IH Cons.prems(1) False by (simp add: X_def)
      then have "max (length cs) (length X) = length cs"
        using length_padStart [of "length cs" X] by simp
      then have le: "length X \<le> length cs" by simp
      then have "padStart (Suc (length cs)) X = CHR ''0'' # padStart (length cs) X"
        by (simp add: padStart_def Suc_diff_le)
      then show ?thesis
        using True ih by (simp add: digits_val_zero_Cons X_def)
    qed
  qed
qed

lemma split_on_absent: "c \<notin> set s \<Longrightarrow> split_on c s = [s]"
  by (induction s) auto

lemma split_on_not_Nil: "split_on c s \<noteq> []"
  by (induction s) (auto split: list.splits)

lemma split_on_present: "c \<in> set s \<Longrightarrow> \<exists>a b r. split_on c s = a # b # r"
proof (induction s)
  case Nil
  then show ?case by simp
next
  case (Cons x xs)
  show ?case
  proof (cases "x = c")
    case True
    obtain p ps where "split_on c xs = p # ps"
      using split_on_not_Nil [of c xs] by (cases "split_on c xs") auto
    then show ?thesis using True by simp
  next
    case False
    then have "c \<in> set xs" using Cons.prems by simp
    then obtain a b r where "split_on c xs = a # b # r" using Cons.IH by blast
    then show ?thesis using False by simp
  qed
qed

lemma split_on_single: "split_on c s = [p] \<Longrightarrow> c \<notin> set s \<and> s = p"
proof -
  assume a: "split_on c s = [p]"
  have n: "c \<notin> set s"
  proof
    assume "c \<in> set s"
    then obtain a b r where "split_on c s = a # b # r" using split_on_present by blast
    with a show False by simp
  qed
  then show ?thesis using a split_on_absent [of c s] by simp
qed

lemma split_on_pair_present: "split_on c s = [p, q] \<Longrightarrow> c \<in> set s"
  using split_on_absent [of c s] by auto

lemma split_on_two:
  "c \<notin> set a \<Longrightarrow> c \<notin> set b \<Longrightarrow> split_on c (a @ c # b) = [a, b]"
  by (induction a) (auto simp: split_on_absent)

lemma BN_toString_nat: "0 \<le> x \<Longrightarrow> BN_toString 10 1 x = nat_digits 10 (nat x)"
  by (simp add: BN_toString_def pad_multiple_def)

lemma BN_toString_nat_Suc: "0 \<le> x \<Longrightarrow> BN_toString 10 (Suc 0) x = nat_digits 10 (nat x)"
  using BN_toString_nat by simp

lemma toDecimal_digits:
  assumes ci: "canonical_int ip" and dt: "list_all is_dec_digit t"
    and len: "length t = d" and pos: "0 < d"
  shows "toDecimal (int (digits_val 10 (ip @ t))) (int d) = ip @ ''.'' @ t"
proof -
  define u where "u = ip @ t"
  have ipn: "ip \<noteq> []" and dip: "list_all is_dec_digit ip"
    using ci by (auto simp: canonical_int_def split: list.splits)
  have du: "list_all is_dec_digit u" and un: "u \<noteq> []"
    using dip dt ipn by (simp_all add: u_def)
  have "padStart (Suc d) (nat_digits 10 (digits_val 10 u)) = u"
  proof (cases "ip = ''0''")
    case True
    then have "length u = Suc d" using len by (simp add: u_def)
    then show ?thesis using pad_canon [OF du un] by simp
  next
    case False
    then have "hd u \<noteq> CHR ''0''"
      using ci ipn by (auto simp: canonical_int_def u_def split: list.splits)
    then have "nat_digits 10 (digits_val 10 u) = u"
      using canon_digits [OF du un] by simp
    moreover have "Suc d \<le> length u"
      using ipn len by (cases ip) (simp_all add: u_def)
    ultimately show ?thesis by (simp add: padStart_noop)
  qed
  then have "padStart (nat (int d + 1)) (BN_toString 10 1 (int (digits_val 10 u))) = u"
    by (simp add: BN_toString_nat_Suc nat_add_distrib)
  moreover have "length u - d = length ip" using len by (simp add: u_def)
  ultimately show ?thesis
    using pos by (simp add: toDecimal_def Let_def u_def [symmetric]) (simp add: u_def)
qed

lemma fromDecimal_toDecimal:
  assumes x: "0 \<le> x" and pos: "0 < d"
  shows "fromDecimal (toDecimal x d) d = Inr x"
proof -
  define P where "P = padStart (nat (d + 1)) (nat_digits 10 (nat x))"
  define k where "k = length P - nat d"
  define bf where "bf = take k P"
  define af where "af = drop k P"
  have zs: "list_all is_dec_digit (replicate m (CHR ''0''))" for m
    by (simp add: list_all_iff dec_digit_zero)
  have dP: "list_all is_dec_digit P"
    using zs by (simp add: P_def padStart_def nat_digits_dec)
  have lP: "nat d + 1 \<le> length P"
    using pos by (simp add: P_def length_padStart nat_add_distrib)
  have vP: "digits_val 10 P = nat x"
    by (simp add: P_def padStart_def digits_val_zeros_append digits_val_nat_digits)
  have P: "P = bf @ af" by (simp add: bf_def af_def)
  have dbf: "list_all is_dec_digit bf" and daf: "list_all is_dec_digit af"
    using dP by (simp_all add: P list_all_iff)
  have laf: "length af = nat d" using lP by (simp add: af_def k_def)
  have td: "toDecimal x d = bf @ CHR ''.'' # af"
    using pos x by (simp add: toDecimal_def Let_def BN_toString_nat_Suc P_def [symmetric]
        k_def [symmetric] bf_def af_def)
  have sp: "split_on (CHR ''.'') (bf @ CHR ''.'' # af) = [bf, af]"
    by (rule split_on_two) (simp_all add: dec_digits_no_point dbf daf)
  have pe: "padEnd (nat d) af = af" by (simp add: padEnd_def laf)
  have val: "digits_val 10 ((if bf = ''0'' then [] else bf) @ af) = nat x"
  proof (cases "bf = ''0''")
    case True
    then have "digits_val 10 P = digits_val 10 af" by (simp add: P digits_val_zero_Cons)
    then show ?thesis using True vP by simp
  next
    case False
    then show ?thesis using vP by (simp add: P)
  qed
  have valid: "list_all (valid_digit 10) ((if bf = ''0'' then [] else bf) @ af)"
    using dbf daf by (simp add: dec_digits_valid)
  have "fromDecimal (bf @ CHR ''.'' # af) d =
          BN_parse 10 ((if bf = ''0'' then [] else bf) @ af)"
    using pos laf by (simp add: fromDecimal_def sp pe)
  then show ?thesis
    using BN_parse_digits [OF valid] val x by (simp add: td)
qed

lemma toDecimal_fromDecimal:
  assumes ds: "decimal_string s d" and pos: "0 < d"
  shows "\<exists>v. fromDecimal s (int d) = Inr v \<and> toDecimal v (int d) = normalized s d"
proof -
  have zs: "list_all is_dec_digit (replicate m (CHR ''0''))" for m
    by (simp add: list_all_iff dec_digit_zero)
  have core: "\<exists>v. BN_parse 10 ((if ip = ''0'' then [] else ip) @ t) = Inr v
                 \<and> toDecimal v (int d) = ip @ ''.'' @ t"
    if ci: "canonical_int ip" and dt: "list_all is_dec_digit t" and len: "length t = d"
    for ip t
  proof -
    have dip: "list_all is_dec_digit ip"
      using ci by (auto simp: canonical_int_def split: list.splits)
    have valid: "list_all (valid_digit 10) ((if ip = ''0'' then [] else ip) @ t)"
      using dip dt by (simp add: dec_digits_valid)
    have "digits_val 10 ((if ip = ''0'' then [] else ip) @ t) = digits_val 10 (ip @ t)"
      by (simp add: digits_val_zero_Cons)
    then show ?thesis
      using BN_parse_digits [OF valid] toDecimal_digits [OF ci dt len pos] by simp
  qed
  have core0: "\<exists>v. BN_parse 10 (ip @ t) = Inr v \<and> toDecimal v (int d) = ip @ ''.'' @ t"
    if ci: "canonical_int ip" and dt: "list_all is_dec_digit t" and len: "length t = d"
    for ip t
  proof -
    have dip: "list_all is_dec_digit ip"
      using ci by (auto simp: canonical_int_def split: list.splits)
    have valid: "list_all (valid_digit 10) (ip @ t)"
      using dip dt by (simp add: dec_digits_valid)
    show ?thesis
      using BN_parse_digits [OF valid] toDecimal_digits [OF ci dt len pos] by simp
  qed
  consider ip where "split_on (CHR ''.'') s = [ip]" "canonical_int ip"
    | ip fp where "split_on (CHR ''.'') s = [ip, fp]" "canonical_int ip"
        "list_all is_dec_digit fp" "length fp \<le> d"
    using ds by (auto simp: decimal_string_def split: list.splits)
  then show ?thesis
  proof cases
    case 1
    then have ns: "CHR ''.'' \<notin> set s" and s: "s = ip"
      using split_on_single by blast+
    have "fromDecimal s (int d) = BN_parse 10 (ip @ replicate d (CHR ''0''))"
      using ns by (simp add: fromDecimal_def s)
    moreover have "normalized s d = ip @ ''.'' @ replicate d (CHR ''0'')"
      using 1 by (simp add: normalized_def)
    ultimately show ?thesis using core0 [OF 1(2) zs] by simp
  next
    case 2
    have ins: "CHR ''.'' \<in> set s" using 2(1) by (rule split_on_pair_present)
    have "fromDecimal s (int d) = BN_parse 10 ((if ip = ''0'' then [] else ip) @ padEnd d fp)"
      using ins 2(4) by (simp add: fromDecimal_def 2(1))
    moreover have "normalized s d = ip @ ''.'' @ padEnd d fp"
      using 2 by (simp add: normalized_def)
    moreover have "list_all is_dec_digit (padEnd d fp)" "length (padEnd d fp) = d"
      using 2(3,4) zs by (simp_all add: padEnd_def)
    ultimately show ?thesis using core [OF 2(2)] by simp
  qed
qed

section \<open>Trading-pair mapping\<close>

text \<open>
  Claim C6 as stated covers every pair of distinct supported currencies with at least one
  side BTC or BTC-LN. For the pair (BTC, BTC-LN) no \<^verbatim>\<open>case\<close> of either
  \<^verbatim>\<open>switch\<close> matches: both calls return \<^verbatim>\<open>undefined\<close> for the pair and for the
  buy flag, so the flags are not boolean complements, on either venue.
\<close>

theorem getTradingPair_btc_pair_counterexample:
  "supported_currency ''BTC'' \<and> supported_currency ''BTC-LN'' \<and> ''BTC'' \<noteq> ''BTC-LN''
   \<and> (btc_like ''BTC'' \<or> btc_like ''BTC-LN'')
   \<and> \<not> complements (buy (Binance_getTradingPair ''BTC'' ''BTC-LN''))
                      (buy (Binance_getTradingPair ''BTC-LN'' ''BTC''))
   \<and> \<not> complements (buy (OKX_getTradingPair ''BTC'' ''BTC-LN''))
                      (buy (OKX_getTradingPair ''BTC-LN'' ''BTC''))"
  by (simp add: supported_currency_def btc_like_def complements_def
      Binance_getTradingPair_def OKX_getTradingPair_def)

text \<open>
  Claim C6, amended: for every pair of supported currencies of which exactly one is BTC
  or BTC-LN, \<^verbatim>\<open>getTradingPair(src, dst)\<close> and \<^verbatim>\<open>getTradingPair(dst, src)\<close> return
  the same trading-pair string and buy flags that are boolean complements, on the Binance
  and on the OKX adapter.
\<close>

theorem getTradingPair_involution:
  assumes "supported_currency src" and "supported_currency dst"
    and "btc_like src \<noteq> btc_like dst"
  shows "tradingPair (Binance_getTradingPair src dst) = tradingPair (Binance_getTradingPair dst src)
       \<and> is_string (tradingPair (Binance_getTradingPair src dst))
       \<and> complements (buy (Binance_getTradingPair src dst)) (buy (Binance_getTradingPair dst src))
       \<and> tradingPair (OKX_getTradingPair src dst) = tradingPair (OKX_getTradingPair dst src)
       \<and> is_string (tradingPair (OKX_getTradingPair src dst))
       \<and> complements (buy (OKX_getTradingPair src dst)) (buy (OKX_getTradingPair dst src))"
  using supported_currency_cases [OF assms(1)] supported_currency_cases [OF assms(2)] assms(3)
  by (elim disjE; simp add: btc_like_def complements_def is_string_def
      Binance_getTradingPair_def OKX_getTradingPair_def)

theorem getTradingPair_involution_witness:
  "supported_currency ''USDC'' \<and> supported_currency ''BTC-LN''
   \<and> btc_like ''USDC'' \<noteq> btc_like ''BTC-LN''
   \<and> tradingPair (Binance_getTradingPair ''USDC'' ''BTC-LN'') = Some ''BTCUSDC''
   \<and> tradingPair (Binance_getTradingPair ''BTC-LN'' ''USDC'') = Some ''BTCUSDC''
   \<and> buy (Binance_getTradingPair ''USDC'' ''BTC-LN'') = Some True
   \<and> complements (buy (Binance_getTradingPair ''USDC'' ''BTC-LN'')) (buy (Binance_getTradingPair ''BTC-LN'' ''USDC''))
   \<and> complements (buy (OKX_getTradingPair ''USDC'' ''BTC-LN'')) (buy (OKX_getTradingPair ''BTC-LN'' ''USDC''))"
proof -
  have a: "supported_currency ''USDC''" and b: "supported_currency ''BTC-LN''"
    by (simp_all add: supported_currency_def)
  have c: "btc_like ''USDC'' \<noteq> btc_like ''BTC-LN''" by (simp add: btc_like_def)
  show ?thesis
    using getTradingPair_involution [OF a b c] a b c
    by (simp add: Binance_getTradingPair_def)
qed

section \<open>Decimal conversion round trip\<close>

lemma replicate_numeral: "replicate (numeral k) x = x # replicate (pred_numeral k) x"
  by (simp add: numeral_eq_Suc)

lemmas conv_eval =
  toDecimal_def fromDecimal_def BN_toString_def BN_parse_def pad_multiple_def padStart_def
  padEnd_def nat_digits.simps digit_char_def valid_digit_def char_digit_def digits_val_def
  digit_val_def Let_def char_of_eq_iff replicate_numeral substring0_def

lemma currencyDecimals_pos:
  "currencyDecimals_Binance tok = Some d \<or> currencyDecimals_OKX tok = Some d \<Longrightarrow> 0 < d"
  by (auto simp: currencyDecimals_Binance_def currencyDecimals_OKX_def split: if_splits)



text \<open>The literal decimal-boundary values of the specification's scenario S6.\<close>

lemma decimal_boundary_examples:
  "toDecimal 1 8 = ''0.00000001''"
  "fromDecimal ''0.00000001'' 8 = Inr 1"
  "toDecimal 100000000 8 = ''1.00000000''"
  "fromDecimal ''1'' 8 = Inr 100000000"
  by (simp_all add: conv_eval)

section \<open>Withdrawal fee and withdrawal requests\<close>

lemma BN_div_nonneg: "0 \<le> a \<Longrightarrow> 0 < b \<Longrightarrow> BN_div a b = Inr (a div b)"
  by (cases "a = 0") (simp_all add: BN_div_def)

text \<open>
  Claim C9: for every (non-negative) amount \<open>a\<close> and every chain argument,
  \<^verbatim>\<open>OKX.getWithdrawalFee("BTC-LN", chain, a)\<close> returns exactly
  \<open>1000 + \<lfloor>a / 1000\<rfloor>\<close> satoshis and issues no exchange API call: the list of
  requests is empty, whatever the venue would have answered.
\<close>

theorem OKX_lightning_withdrawal_fee:
  assumes "0 \<le> a"
  shows "OKX_getWithdrawalFee call ''BTC-LN'' chainName a = (Inr (1000 + a div 1000), [])"
  using assms by (simp add: OKX_getWithdrawalFee_def BN_div_nonneg)

theorem OKX_lightning_withdrawal_fee_witness:
  "(0::int) \<le> 250000
   \<and> OKX_getWithdrawalFee (\<lambda>r. Inl (OKXError ''down'' ''50001'')) ''BTC-LN'' ''Polygon'' 250000
       = (Inr 1250, [])"
  using OKX_lightning_withdrawal_fee [of 250000 "\<lambda>r. Inl (OKXError ''down'' ''50001'')" "''Polygon''"]
  by simp

lemma Binance_withdraw_requests:
  "currency \<noteq> ''BTC-LN'' \<Longrightarrow>
     snd (Binance_withdraw decodeSatoshis client_withdraw currency chainName address wid fee (Some a))
       = [\<lparr>coin = currency, withdrawOrderId = wid,
            network = (if currency = ''BTC'' then ''BTC'' else chainName),
            wd_address = address, walletType = 0,
            wd_amount = toDecimal_at (a + fee) (currencyDecimals_Binance currency)\<rparr>]"
  by (simp add: Binance_withdraw_def Let_def split: sum.split prod.split)

lemma Binance_withdraw_lightning:
  "decodeSatoshis address = Inr sats \<Longrightarrow>
     Binance_withdraw decodeSatoshis client_withdraw ''BTC-LN'' chainName address wid fee amount
       = (let req = \<lparr>coin = ''BTC'', withdrawOrderId = wid, network = ''LIGHTNING'',
                      wd_address = address, walletType = 0,
                      wd_amount = toDecimal (sats + fee) 8\<rparr>
          in case client_withdraw req of
               Inl (msg, code) \<Rightarrow> (Inl (BinanceError msg code), [req])
             | Inr w \<Rightarrow> (Inr w, [req]))"
  by (simp add: Binance_withdraw_def Let_def toDecimal_at_def currencyDecimals_Binance_def
      split: sum.split prod.split)

lemma OKX_withdraw_requests:
  "currency \<noteq> ''BTC-LN'' \<Longrightarrow>
     map (\<lambda>r. (map_of (body r) ''amt'', map_of (body r) ''fee''))
         (snd (OKX_withdraw call currency chainName address wid fee (Some a)))
       = [(Some (toDecimal_at a (currencyDecimals_OKX currency)),
           Some (toDecimal_at fee (currencyDecimals_OKX currency)))]"
  by (simp add: OKX_withdraw_def Let_def split: sum.split)


text \<open>
  Claim C10: for every non-Lightning currency, \<^verbatim>\<open>Binance.withdraw\<close> submits one
  withdrawal whose amount field is \<open>amount + withdrawalFee\<close> converted to decimal (so a
  call with \<open>amount = gross - fee\<close> withdraws \<open>gross\<close> in total), whereas
  \<^verbatim>\<open>OKX.withdraw\<close> submits the given amount and the fee as two separate fields; and for
  BTC-LN, \<^verbatim>\<open>Binance.withdraw\<close> ignores the amount argument and derives the amount
  from the BOLT-11 invoice passed as the address.
\<close>

theorem withdraw_amount_fields:
  assumes "currency \<noteq> ''BTC-LN''" and "decodeSatoshis invoice = Inr sats"
  shows "map wd_amount (snd (Binance_withdraw decodeSatoshis client_withdraw currency chainName
                               address wid fee (Some a)))
           = [toDecimal_at (a + fee) (currencyDecimals_Binance currency)]
       \<and> map wd_amount (snd (Binance_withdraw decodeSatoshis client_withdraw currency chainName
                               address wid fee (Some (gross - fee))))
           = [toDecimal_at gross (currencyDecimals_Binance currency)]
       \<and> map (\<lambda>r. (map_of (body r) ''amt'', map_of (body r) ''fee''))
             (snd (OKX_withdraw call currency chainName address wid fee (Some a)))
           = [(Some (toDecimal_at a (currencyDecimals_OKX currency)),
               Some (toDecimal_at fee (currencyDecimals_OKX currency)))]
       \<and> Binance_withdraw decodeSatoshis client_withdraw ''BTC-LN'' chainName invoice wid fee amount
           = Binance_withdraw decodeSatoshis client_withdraw ''BTC-LN'' chainName invoice wid fee None
       \<and> map wd_amount (snd (Binance_withdraw decodeSatoshis client_withdraw ''BTC-LN'' chainName
                               invoice wid fee amount))
           = [toDecimal (sats + fee) 8]"
proof -
  have 1: "map wd_amount (snd (Binance_withdraw decodeSatoshis client_withdraw currency chainName
                               address wid fee (Some b)))
           = [toDecimal_at (b + fee) (currencyDecimals_Binance currency)]" for b
    by (simp add: Binance_withdraw_requests [OF assms(1)])
  have 2: "map wd_amount (snd (Binance_withdraw decodeSatoshis client_withdraw ''BTC-LN'' chainName
                               invoice wid fee amount))
           = [toDecimal (sats + fee) 8]"
    by (simp add: Binance_withdraw_lightning [where decodeSatoshis = decodeSatoshis and address = invoice, OF assms(2)]
        Let_def split: sum.split prod.split)
  have 3: "Binance_withdraw decodeSatoshis client_withdraw ''BTC-LN'' chainName invoice wid fee amount
           = Binance_withdraw decodeSatoshis client_withdraw ''BTC-LN'' chainName invoice wid fee None"
    by (simp only: Binance_withdraw_lightning [where decodeSatoshis = decodeSatoshis and address = invoice, OF assms(2)])
  show ?thesis
    using 1 [of a] 1 [of "gross - fee"] 2 3 OKX_withdraw_requests [OF assms(1)] by simp
qed

theorem withdraw_amount_fields_witness:
  "''USDC'' \<noteq> ''BTC-LN''
   \<and> map wd_amount (snd (Binance_withdraw
           (\<lambda>i. if i = ''lnbc50u1'' then Inr 5000 else Inl (Error ''Not a proper lightning payment request''))
           (\<lambda>r. Inr ''id1'') ''USDC'' ''MATIC'' ''0xabc'' ''w1'' 1000 (Some 19999000)))
       = [''20.000000'']
   \<and> map (\<lambda>r. (map_of (body r) ''amt'', map_of (body r) ''fee''))
         (snd (OKX_withdraw (\<lambda>r. Inr []) ''USDC'' ''MATIC'' ''0xabc'' ''w1'' 1000 (Some 19999000)))
       = [(Some ''0.000000000019999000'', Some ''0.000000000000001000'')]
   \<and> map wd_amount (snd (Binance_withdraw
           (\<lambda>i. if i = ''lnbc50u1'' then Inr 5000 else Inl (Error ''Not a proper lightning payment request''))
           (\<lambda>r. Inr ''id1'') ''BTC-LN'' ''MATIC'' ''lnbc50u1'' ''w1'' 1000 (Some 77)))
       = [''0.00006000'']"
proof -
  have a: "''USDC'' \<noteq> ''BTC-LN''" by simp
  have b: "(if ''lnbc50u1'' = ''lnbc50u1'' then Inr 5000
            else Inl (Error ''Not a proper lightning payment request'')) = (Inr 5000 :: exn + int)"
    by simp
  have c: "toDecimal_at 20000000 (currencyDecimals_Binance ''USDC'') = ''20.000000''"
    by (simp add: toDecimal_at_def currencyDecimals_Binance_def conv_eval)
  have d: "toDecimal_at 19999000 (currencyDecimals_OKX ''USDC'') = ''0.000000000019999000''"
    by (simp add: toDecimal_at_def currencyDecimals_OKX_def conv_eval)
  have e: "toDecimal_at 1000 (currencyDecimals_OKX ''USDC'') = ''0.000000000000001000''"
    by (simp add: toDecimal_at_def currencyDecimals_OKX_def conv_eval)
  have f: "toDecimal 6000 8 = ''0.00006000''" by (simp add: conv_eval)
  note t = withdraw_amount_fields [where currency = "''USDC''"
        and decodeSatoshis = "\<lambda>i. if i = ''lnbc50u1'' then Inr 5000
                               else Inl (Error ''Not a proper lightning payment request'')"
        and invoice = "''lnbc50u1''" and sats = 5000
        and client_withdraw = "\<lambda>r. Inr ''id1''"
        and chainName = "''MATIC''" and address = "''0xabc''" and wid = "''w1''"
        and fee = 1000 and a = 19999000 and gross = 20000000 and call = "\<lambda>r. Inr []"
        and amount = "Some 77", OF a b]
  show ?thesis
    using t [THEN conjunct1] t [THEN conjunct2, THEN conjunct2, THEN conjunct1]
      t [THEN conjunct2, THEN conjunct2, THEN conjunct2, THEN conjunct2] c d e f
    by simp
qed

section \<open>Unfolding the engine\<close>

lemmas action_defs =
  seq_def bnd_def ret_def throw_def get_job_def peek_job_def modify_job_def io_def io_exn_def
  io_sum_def io_unit_def lift_def try_catch_def set_cooldown_def saveState_def
  log_transition_def schedule_retry_def archiveState_def

lemmas engine_defs =
  check_body_def blocks_def setState_def h_RETRYING_def h_TRIGGERED_def h_SC_WITHDRAWING_def
  h_SC_WITHDRAWAL_CONFIRMED_def h_OUT_TX_def h_OUT_TX_CONFIRMED_def h_DEPOSIT_RECEIVED_def
  h_TRADE_EXECUTING_def h_TRADE_EXECUTED_def h_FUNDS_TRANSFERING_def h_FUNDS_TRANSFERED_def
  h_WITHDRAWING_def h_WITHDRAWAL_SENT_def h_IN_TX_CONFIRMED_def h_SC_DEPOSITING_def
  h_SC_DEPOSITED_def h_FINISHED_def sendAndConfirm_def put_scWithdrawTx_def put_outTx_def
  put_scDepositTx_def opt_greater_def opt_less_def fits_number_def first_key_def
  REQUIRED_FIELDS_def field_is_null_def retryTime_def

lemmas sim_defs = sim_adapters_def sim_start_def plugin_with_def seed_job_def fresh_state_def

section \<open>Persistence round trip\<close>

lemma revive_replacer: "revive_field (map_option replacer v) = Inr v"
  by (cases v) (simp_all add: revive_field_def replacer_def reviver_def String_toString_def
      BN_toJSON_def BN_parse_toString)

lemma parse_serialize: "parseState (serializeState j) = Inr j"
  by (simp add: parseState_def serializeState_def revive_replacer)

text \<open>
  Claim C2: for every job state (in particular one whose \<^verbatim>\<open>amountOut\<close>, \<^verbatim>\<open>amountIn\<close>
  and \<^verbatim>\<open>withdrawalFee\<close> are non-negative integers), parsing the document that
  \<^verbatim>\<open>serializeState\<close> produces, as \<^verbatim>\<open>loadState\<close> does after \<^verbatim>\<open>saveState\<close>, yields the
  same state, with the same values in those fields.
\<close>

theorem loadState_after_saveState: "parseState (serializeState j) = Inr j"
  by (rule parse_serialize)

text \<open>
  What is written is the hexadecimal text of \<^verbatim>\<open>toJSON\<close>: 100000 is stored as
  \<^verbatim>\<open>0186a0\<close>. Had the replacer been given the big integer itself, its
  \<^verbatim>\<open>toString(10)\<close> would have written \<^verbatim>\<open>100000\<close>, which radix 16 reads as 1048576.
\<close>

lemma stored_amount_example:
  "replacer 100000 = ''0186a0''"
  "reviver ''0186a0'' = Inr 100000"
  "BN_toString 10 1 100000 = ''100000''"
  "reviver ''100000'' = Inr 1048576"
  by (simp_all add: replacer_def reviver_def String_toString_def BN_toJSON_def conv_eval)

text \<open>\<^verbatim>\<open>loadState\<close> after \<^verbatim>\<open>saveState\<close> on the plugin: the job is read back as it was saved.\<close>

lemma loadState_saveState_plugin:
  assumes "job p = Some j" and "fs_fault ad (world p) = (None, w)"
  shows "saveState ad p = (Ret (), p\<lparr>world := w, storage := Some (serializeState j)\<rparr>)"
    and "loadState (snd (saveState ad p)\<lparr>job := None\<rparr>)
           = (Ret (), snd (saveState ad p))"
  using assms
  by (simp_all add: action_defs loadState_def parse_serialize)

section \<open>Transaction replacement\<close>

lemma map_of_obj_set: "map_of (obj_set k v m) = (map_of m)(k \<mapsto> v)"
  by (induction m) (auto simp: fun_eq_iff)

lemma replace_SC_WITHDRAWING:
  assumes "job p = Some j" and "Date_now ad (world p) = (now, w1)" and "fs_fault ad w1 = (None, w2)"
    and "state j = Some SC_WITHDRAWING" and "scWithdrawTxs j = Some m" and "map_of m oldTxId \<noteq> None"
  shows "onBeforeTxReplace ad oldTx oldTxId newTx newTxId p =
     (Ret (), p\<lparr>job := Some (j\<lparr>scWithdrawTxs := Some (obj_set newTxId newTx m),
                                 cooldown := Some (now + 5 * 1000)\<rparr>),
                storage := Some (serializeState (j\<lparr>scWithdrawTxs := Some (obj_set newTxId newTx m),
                                 cooldown := Some (now + 5 * 1000)\<rparr>)),
                world := w2\<rparr>)"
  using assms
  by (simp add: onBeforeTxReplace_def action_defs put_scWithdrawTx_def)

lemma replace_OUT_TX:
  assumes "job p = Some j" and "Date_now ad (world p) = (now, w1)" and "fs_fault ad w1 = (None, w2)"
    and "state j = Some OUT_TX" and "outTxs j = Some m" and "map_of m oldTxId \<noteq> None"
  shows "onBeforeTxReplace ad oldTx oldTxId newTx newTxId p =
     (Ret (), p\<lparr>job := Some (j\<lparr>outTxs := Some (obj_set newTxId newTx m),
                                 cooldown := Some (now + 5 * 1000)\<rparr>),
                storage := Some (serializeState (j\<lparr>outTxs := Some (obj_set newTxId newTx m),
                                 cooldown := Some (now + 5 * 1000)\<rparr>)),
                world := w2\<rparr>)"
  using assms
  by (simp add: onBeforeTxReplace_def action_defs put_outTx_def)

lemma replace_SC_DEPOSITING:
  assumes "job p = Some j" and "Date_now ad (world p) = (now, w1)" and "fs_fault ad w1 = (None, w2)"
    and "state j = Some SC_DEPOSITING" and "scDepositTxs j = Some m" and "map_of m oldTxId \<noteq> None"
  shows "onBeforeTxReplace ad oldTx oldTxId newTx newTxId p =
     (Ret (), p\<lparr>job := Some (j\<lparr>scDepositTxs := Some (obj_set newTxId newTx m),
                                 cooldown := Some (now + 5 * 1000)\<rparr>),
                storage := Some (serializeState (j\<lparr>scDepositTxs := Some (obj_set newTxId newTx m),
                                 cooldown := Some (now + 5 * 1000)\<rparr>)),
                world := w2\<rparr>)"
  using assms
  by (simp add: onBeforeTxReplace_def action_defs put_scDepositTx_def)

lemma replace_other:
  assumes "job p = Some j"
    and "\<not> (state j = Some SC_WITHDRAWING \<and> has_key (scWithdrawTxs j) oldTxId)"
    and "\<not> (state j = Some OUT_TX \<and> has_key (outTxs j) oldTxId)"
    and "\<not> (state j = Some SC_DEPOSITING \<and> has_key (scDepositTxs j) oldTxId)"
  shows "snd (onBeforeTxReplace ad oldTx oldTxId newTx newTxId p) = p"
  using assms
  by (auto simp: onBeforeTxReplace_def action_defs has_key_def split: option.splits)



section \<open>Balance monitor\<close>

lemma monitor_balance: 
  "(case returningUSDC m of None \<Rightarrow> (case lockedUSDC m of None \<Rightarrow> usableBalanceUSDC m | Some l \<Rightarrow> usableBalanceUSDC m + l)
     | Some r \<Rightarrow> (case lockedUSDC m of None \<Rightarrow> usableBalanceUSDC m | Some l \<Rightarrow> usableBalanceUSDC m + l) + r)
   = spec_balanceSC m"
  by (simp add: spec_balanceSC_def split: option.split)

lemma div_million_twice: "(x :: int) div 1000000 div 1000000 = x div 10 ^ 12"
proof -
  have "x div (1000000 * 1000000) = x div 1000000 div 1000000"
    by (rule zdiv_zmult2_eq) simp
  then show ?thesis by simp
qed

lemma balanceMonitor_eval:
  assumes idle: "\<not> slot_busy p"
    and sc: "0 \<le> spec_btcValueOfSC m" and btc: "0 \<le> balanceOnchain m"
    and sum: "0 < spec_sum m" and amt: "0 \<le> rebalanceAmountPPM m"
    and thr: "\<bar>spec_diff m\<bar> > rebalanceThresholdPPM m"
  shows "balanceMonitor m setSt p =
     (if spec_diff m < 0 then
        setSt TRIGGERED (p\<lparr>job := Some (seed_job ''BTC'' [] ''USDC'' (tokenAddress_USDC m)
                                          (spec_notional m))\<rparr>)
      else if getFromBtcSwapAmount m (spec_notional m) > usableBalanceUSDC m then (Ret (), p)
      else setSt TRIGGERED
             (p\<lparr>job := Some (seed_job ''USDC'' (tokenAddress_USDC m) ''BTC'' []
                                (getFromBtcSwapAmount m (spec_notional m)))\<rparr>))"
proof -
  define S where "S = spec_sum m"
  define U where "U = spec_btcValueOfSC m"
  define d where "d = spec_diff m"
  have S: "U + balanceOnchain m = S"
    and U: "getToBtcSwapAmount m (spec_balanceSC m) = U"
    by (simp_all add: S_def U_def spec_sum_def spec_btcValueOfSC_def)
  have Spos: "0 < S" using sum by (simp add: S_def)
  have 1: "BN_div (U * 1000000) S = Inr (U * 1000000 div S)"
    using sc Spos by (intro BN_div_nonneg) (simp_all add: U_def)
  have 2: "BN_div (balanceOnchain m * 1000000) S = Inr (balanceOnchain m * 1000000 div S)"
    using btc Spos by (intro BN_div_nonneg) simp_all
  have d: "U * 1000000 div S - balanceOnchain m * 1000000 div S = d"
    by (simp add: d_def spec_diff_def S_def U_def)
  have nn: "0 \<le> S * \<bar>d\<bar> * rebalanceAmountPPM m"
    using Spos amt by simp
  have 3: "BN_div (S * \<bar>d\<bar> * rebalanceAmountPPM m) 1000000
             = Inr (S * \<bar>d\<bar> * rebalanceAmountPPM m div 1000000)"
    using nn by (intro BN_div_nonneg) simp_all
  have "0 \<le> S * \<bar>d\<bar> * rebalanceAmountPPM m div 1000000"
    using nn by (simp add: pos_imp_zdiv_nonneg_iff)
  then have 4: "BN_div (S * \<bar>d\<bar> * rebalanceAmountPPM m div 1000000) 1000000
             = Inr (S * \<bar>d\<bar> * rebalanceAmountPPM m div 1000000 div 1000000)"
    by (intro BN_div_nonneg) simp_all
  have n: "S * \<bar>d\<bar> * rebalanceAmountPPM m div 1000000 div 1000000 = spec_notional m"
    by (simp add: div_million_twice spec_notional_def S_def d_def)
  have t: "rebalanceThresholdPPM m < \<bar>d\<bar>" using thr by (simp add: d_def)
  show ?thesis
    using idle t
    by (simp add: balanceMonitor_def Let_def monitor_balance S U 1 2 d 3 4 n)
       (simp add: d_def)
qed

text \<open>
  Claim C7: whenever the job slot is idle and \<open>|ppmSC - ppmBTC|\<close> exceeds
  \<^verbatim>\<open>rebalanceThresholdPPM\<close>, the monitor computes the notional
  \<open>sum \<sqdot> |diff| \<sqdot> rebalanceAmountPPM / 10\<^sup>1\<^sup>2\<close> (integer division); if \<open>diff < 0\<close> it seeds
  the job \<open>{src = BTC, dst = USDC, amountOut = notional}\<close> and moves it to TRIGGERED;
  otherwise it converts the notional to USDC base units via the price oracle, returns
  without seeding when that amount exceeds the usable USDC balance, and otherwise seeds
  \<open>{src = USDC, dst = BTC, amountOut = usdcAmount}\<close>. (Balances are non-negative, the
  sum is positive and the configured fraction is non-negative.)
\<close>

theorem balance_monitor_trigger:
  assumes "\<not> slot_busy p"
    and "0 \<le> spec_btcValueOfSC m" and "0 \<le> balanceOnchain m"
    and "0 < spec_sum m" and "0 \<le> rebalanceAmountPPM m"
    and "\<bar>spec_diff m\<bar> > rebalanceThresholdPPM m"
  shows "balanceMonitor m setSt p =
     (if spec_diff m < 0 then
        setSt TRIGGERED (p\<lparr>job := Some (seed_job ''BTC'' [] ''USDC'' (tokenAddress_USDC m)
                                          (spec_notional m))\<rparr>)
      else if getFromBtcSwapAmount m (spec_notional m) > usableBalanceUSDC m then (Ret (), p)
      else setSt TRIGGERED
             (p\<lparr>job := Some (seed_job ''USDC'' (tokenAddress_USDC m) ''BTC'' []
                                (getFromBtcSwapAmount m (spec_notional m)))\<rparr>))"
  using assms by (rule balanceMonitor_eval)

theorem balance_monitor_trigger_witness:
  "\<not> slot_busy \<lparr>job = None, storage = None, archived = [], transitions = [], world = ()\<rparr>
   \<and> spec_btcValueOfSC monitor_example = 400000 \<and> spec_sum monitor_example = 1000000
   \<and> spec_diff monitor_example = - 200000 \<and> spec_notional monitor_example = 100000
   \<and> balanceMonitor monitor_example (\<lambda>s. ret ())
         \<lparr>job = None, storage = None, archived = [], transitions = [], world = ()\<rparr>
       = (Ret (), \<lparr>job = Some (seed_job ''BTC'' [] ''USDC'' ''0xusdc'' 100000), storage = None,
                   archived = [], transitions = [], world = ()\<rparr>)"
proof -
  have a: "\<not> slot_busy \<lparr>job = None, storage = None, archived = [], transitions = [], world = ()\<rparr>"
    by (simp add: slot_busy_def)
  have v: "spec_btcValueOfSC monitor_example = 400000"
    by (simp add: spec_btcValueOfSC_def spec_balanceSC_def monitor_example_def)
  have s: "spec_sum monitor_example = 1000000"
    by (simp add: spec_sum_def v) (simp add: monitor_example_def)
  have d: "spec_diff monitor_example = - 200000"
    by (simp add: spec_diff_def v s) (simp add: monitor_example_def)
  have n: "spec_notional monitor_example = 100000"
    by (simp add: spec_notional_def s d) (simp add: monitor_example_def)
  have h: "0 \<le> spec_btcValueOfSC monitor_example" "0 \<le> balanceOnchain monitor_example"
    "0 < spec_sum monitor_example" "0 \<le> rebalanceAmountPPM monitor_example"
    "\<bar>spec_diff monitor_example\<bar> > rebalanceThresholdPPM monitor_example"
    by (simp_all add: v s d) (simp_all add: monitor_example_def)
  show ?thesis
    using balance_monitor_trigger [OF a h, of "\<lambda>s. ret ()"] a v s d n
    by (simp add: ret_def) (simp add: monitor_example_def)
qed

section \<open>Monotone progress\<close>

text \<open>The rules of the assertions, one for each way of building an action.\<close>

lemma wp_ret [simp]: "wp (ret a) Q X D = Q a"
  by (rule ext) (simp add: wp_def ret_def)

lemma wp_throw [simp]: "wp (throw e) Q X D = X e"
  by (rule ext) (simp add: wp_def throw_def)

lemma wp_bnd [simp]: "wp (bnd m f) Q X D = wp m (\<lambda>a. wp (f a) Q X D) X D"
  by (rule ext) (simp add: wp_def bnd_def split: prod.split outcome.split)

lemma wp_seq [simp]: "wp (seq m k) Q X D = wp m (\<lambda>_. wp k Q X D) X D"
  by (simp add: seq_def)

lemma wp_try_catch [simp]:
  "wp (try_catch m h) Q X D = wp m Q (\<lambda>e. wp (h e) Q X D) D"
  by (rule ext) (simp add: wp_def try_catch_def split: prod.split outcome.split)

lemma wp_io [simp]: "wp (io f) Q X D p = (case f (world p) of (a, w) \<Rightarrow> Q a (p\<lparr>world := w\<rparr>))"
  by (simp add: wp_def io_def split: prod.split)

lemma wp_io_sum [simp]:
  "wp (io_sum f) Q X D p = (case f (world p) of (a, w) \<Rightarrow> Q a (p\<lparr>world := w\<rparr>))"
  by (simp add: io_sum_def)

lemma wp_io_unit [simp]: "wp (io_unit f) Q X D p = Q () (p\<lparr>world := f (world p)\<rparr>)"
  by (simp add: wp_def io_unit_def)

lemma wp_io_exn [simp]:
  "wp (io_exn f) Q X D p =
     (case f (world p) of (Inl e, w) \<Rightarrow> X e (p\<lparr>world := w\<rparr>) | (Inr a, w) \<Rightarrow> Q a (p\<lparr>world := w\<rparr>))"
  by (simp add: wp_def io_exn_def split: prod.split sum.split)

lemma wp_lift [simp]: "wp (lift r) Q X D p = (case r of Inl e \<Rightarrow> X e p | Inr a \<Rightarrow> Q a p)"
  by (simp add: lift_def split: sum.split)

lemma wp_get_job [simp]:
  "wp get_job Q X D p = (case job p of None \<Rightarrow> X TypeError p | Some j \<Rightarrow> Q j p)"
  by (simp add: wp_def get_job_def split: option.split)

lemma wp_peek_job [simp]: "wp peek_job Q X D p = Q (job p) p"
  by (simp add: wp_def peek_job_def)

lemma wp_modify_job [simp]:
  "wp (modify_job f) Q X D p =
     (case job p of None \<Rightarrow> X TypeError p | Some j \<Rightarrow> Q () (p\<lparr>job := Some (f j)\<rparr>))"
  by (simp add: wp_def modify_job_def split: option.split)

lemma wp_mono:
  assumes "wp m Q X D p"
    and "\<And>a q. Q a q \<Longrightarrow> Q' a q" and "\<And>e q. X e q \<Longrightarrow> X' e q" and "\<And>q. D q \<Longrightarrow> D' q"
  shows "wp m Q' X' D' p"
  using assms by (auto simp: wp_def split: prod.splits outcome.splits)

text \<open>The invariant does not look at the world, nor at the fields that are not named in it.\<close>

lemma inv_world [simp]: "progress_inv l0 (p\<lparr>world := w\<rparr>) = progress_inv l0 p"
  by (simp add: progress_inv_def retry_recorded_def logged_since_def)

lemma state_is_world [simp]: "state_is s (p\<lparr>world := w\<rparr>) = state_is s p"
  by (simp add: state_is_def)

lemma cooled_world [simp]: "cooled c (p\<lparr>world := w\<rparr>) = cooled c p"
  by (simp add: cooled_def)

lemma inv_storage [simp]: "progress_inv l0 (p\<lparr>storage := d\<rparr>) = progress_inv l0 p"
  by (simp add: progress_inv_def retry_recorded_def logged_since_def)

lemma inv_archived [simp]: "progress_inv l0 (p\<lparr>archived := d\<rparr>) = progress_inv l0 p"
  by (simp add: progress_inv_def retry_recorded_def logged_since_def)

lemma inv_job_update:
  "progress_inv l0 p \<Longrightarrow> job p = Some j \<Longrightarrow> state j' = state j \<Longrightarrow> retryState j' = retryState j
     \<Longrightarrow> progress_inv l0 (p\<lparr>job := Some j'\<rparr>)"
  by (simp add: progress_inv_def retry_recorded_def logged_since_def)

text \<open>The two properties asked of \<^verbatim>\<open>setState\<close>, as rules for a call of it.\<close>

lemma setSt_okD:
  assumes "setSt_ok l0 setSt" and "progress_inv l0 p" and "setSt_pre t p"
    and "\<And>q. progress_inv l0 q \<Longrightarrow> Q () q"
    and "\<And>e q. progress_inv l0 q \<Longrightarrow> X e q"
    and "\<And>q. progress_inv l0 q \<Longrightarrow> D q"
  shows "wp (setSt t) Q X D p"
proof -
  have "wp (setSt t) (\<lambda>_. progress_inv l0) (\<lambda>_. progress_inv l0) (progress_inv l0) p"
    using assms(1-3) by (simp add: setSt_ok_def)
  then show ?thesis by (rule wp_mono) (simp_all add: assms(4-))
qed

lemma setSt_staysD:
  assumes "setSt_stays l0 c0 setSt" and "progress_inv l0 p" and "setSt_pre t p" and "cooled c0 p"
    and "\<And>q. progress_inv l0 q \<Longrightarrow> state_is t q \<Longrightarrow> Q () q"
    and "\<And>e q. progress_inv l0 q \<Longrightarrow> X e q"
    and "\<And>q. progress_inv l0 q \<Longrightarrow> D q"
  shows "wp (setSt t) Q X D p"
proof -
  have "wp (setSt t) (\<lambda>_ q. progress_inv l0 q \<and> state_is t q)
          (\<lambda>_. progress_inv l0) (progress_inv l0) p"
    using assms(1-4) by (simp add: setSt_stays_def)
  then show ?thesis by (rule wp_mono) (simp_all add: assms(5-))
qed

text \<open>
  The loops. The confirmation scan and the unlocking of inputs touch the world only; the
  callbacks of \<^verbatim>\<open>sendAndConfirm\<close> keep a loop invariant \<open>L\<close>.
\<close>

lemma wp_scan_txs:
  assumes "\<And>r w. Q r (p\<lparr>world := w\<rparr>)" and "\<And>e w. X e (p\<lparr>world := w\<rparr>)"
  shows "wp (scan_txs ad txs sp nf) Q X D p"
  using assms
proof (induction txs arbitrary: p sp nf)
  case Nil
  have "Q (Scanned sp nf) (p\<lparr>world := world p\<rparr>)" by (rule Nil(1))
  then show ?case by simp
next
  case (Cons t txs)
  obtain txId txData where t: "t = (txId, txData)" by (cases t)
  show ?case
    unfolding t
    by (auto split: prod.split sum.split tx_status.split intro!: Cons.IH simp: Cons.prems)
qed

lemma wp_unlockUtxos:
  assumes "\<And>w. Q () (p\<lparr>world := w\<rparr>)" and "\<And>e w. X e (p\<lparr>world := w\<rparr>)"
  shows "wp (unlockUtxos ad ins) Q X D p"
  using assms
proof (induction ins arbitrary: p)
  case Nil
  have "Q () (p\<lparr>world := world p\<rparr>)" by (rule Nil(1))
  then show ?case by simp
next
  case (Cons i ins)
  show ?case
    by (auto split: prod.split sum.split intro!: Cons.IH simp: Cons.prems)
qed

lemma wp_run_callbacks:
  assumes "\<And>txId rawTx q. L q \<Longrightarrow> wp (cb txId rawTx) (\<lambda>_. L) X D q"
    and "L p" and "\<And>q. L q \<Longrightarrow> Q () q"
  shows "wp (run_callbacks cb events) Q X D p"
  using assms(2)
proof (induction events arbitrary: p)
  case Nil
  then show ?case by (simp add: assms(3))
next
  case (Cons ev events)
  obtain txId rawTx where ev: "ev = (txId, rawTx)" by (cases ev)
  have "wp (cb txId rawTx) (\<lambda>_. L) X D p" using Cons.prems by (rule assms(1))
  then have "wp (cb txId rawTx) (\<lambda>_. wp (run_callbacks cb events) Q X D) X D p"
    by (rule wp_mono) (simp_all add: Cons.IH)
  then show ?case by (simp add: ev)
qed

lemmas inv_defs = progress_inv_def retry_recorded_def logged_since_def state_is_def
  setSt_pre_def transition_in_order_def resume_state_def

text \<open>
  Every handler keeps the invariant, whichever way it ends, when the \<^verbatim>\<open>setState\<close> it is
  given does. The handlers that broadcast (TRIGGERED out of the smart chain,
  \<^verbatim>\<open>SC_WITHDRAWAL_CONFIRMED\<close>, \<^verbatim>\<open>IN_TX_CONFIRMED\<close>) also need the job to stay where the
  callback has put it, until the next broadcast.
\<close>

lemma h_OUT_TX_inv:
  assumes ok: "setSt_ok l0 setSt"
  shows "progress_inv l0 p \<Longrightarrow> state_is OUT_TX p \<Longrightarrow>
     wp (h_OUT_TX ad setSt) (\<lambda>_. progress_inv l0) (\<lambda>_. progress_inv l0) (progress_inv l0) p"
  unfolding h_OUT_TX_def schedule_retry_def
  by (auto simp: state_is_def split: option.splits prod.splits sum.splits scan_result.splits
      intro!: setSt_okD [OF ok] wp_scan_txs)
     (auto simp: inv_defs)

lemma clock_withinD:
  "clock_within ad c0 \<Longrightarrow> Date_now ad w = (now, w') \<Longrightarrow> c0 \<le> now \<and> now < c0 + 5 * 1000"
  by (auto simp: clock_within_def dest: spec [of _ w])

text \<open>A broadcast callback: record the candidate, set the cooldown, enter the state.\<close>

lemma callback_inv:
  assumes ok: "setSt_ok l0 setSt" and stays: "setSt_stays l0 c0 setSt" and cw: "clock_within ad c0"
    and idx: "state_index h \<le> state_index t" "h \<noteq> RETRYING" "t \<noteq> RETRYING"
    and put: "put = put_scWithdrawTx \<or> put = put_outTx \<or> put = put_scDepositTx"
    and L: "progress_inv l0 q \<and> (state_is h q \<or> state_is t q)"
  shows "wp (seq (put txId rawTx) (seq (set_cooldown ad) (setSt t)))
           (\<lambda>_ q. progress_inv l0 q \<and> (state_is h q \<or> state_is t q))
           (\<lambda>_. progress_inv l0) (progress_inv l0) q"
proof -
  have step: "wp (seq (set_cooldown ad) (setSt t))
           (\<lambda>_ q. progress_inv l0 q \<and> (state_is h q \<or> state_is t q))
           (\<lambda>_. progress_inv l0) (progress_inv l0) (q\<lparr>job := Some j'\<rparr>)"
    if j: "job q = Some j" and same: "state j' = state j" "retryState j' = retryState j"
    for j j'
  proof -
    have inv': "progress_inv l0 (q\<lparr>job := Some j'\<rparr>)"
      using L j same by (simp add: inv_job_update)
    have st: "state j' = Some h \<or> state j' = Some t"
      using L j same by (simp add: state_is_def)
    show ?thesis
      unfolding set_cooldown_def
      using inv' st idx
      by (auto split: prod.splits intro!: setSt_staysD [OF stays]
          simp: cooled_def)
         (auto simp: inv_defs cooled_def dest: clock_withinD [OF cw])
  qed
  from put show ?thesis
  proof (elim disjE)
    assume "put = put_scWithdrawTx"
    then show ?thesis
      using L by (auto simp: put_scWithdrawTx_def split: option.splits intro!: step [unfolded wp_seq])
  next
    assume "put = put_outTx"
    then show ?thesis
      using L by (auto simp: put_outTx_def split: option.splits intro!: step [unfolded wp_seq])
  next
    assume "put = put_scDepositTx"
    then show ?thesis
      using L by (auto simp: put_scDepositTx_def split: option.splits intro!: step [unfolded wp_seq])
  qed
qed

lemma wp_set_cooldown:
  assumes "job p = Some j"
    and "\<And>now w. Q () (p\<lparr>world := w, job := Some (j\<lparr>cooldown := Some (now + 5 * 1000)\<rparr>)\<rparr>)"
  shows "wp (set_cooldown ad) Q X D p"
  unfolding set_cooldown_def using assms by (auto split: prod.splits)

lemma wp_schedule_retry:
  assumes ok: "setSt_ok l0 setSt" and "progress_inv l0 p" and "resume_state r"
    and "\<And>q. progress_inv l0 q \<Longrightarrow> Q () q"
    and "\<And>e q. progress_inv l0 q \<Longrightarrow> X e q"
    and "\<And>q. progress_inv l0 q \<Longrightarrow> D q"
  shows "wp (schedule_retry ad setSt r) Q X D p"
  unfolding schedule_retry_def using assms(2-)
  by (auto split: prod.splits option.splits intro!: setSt_okD [OF ok])
     (auto simp: inv_defs)

lemma wp_setSt_IDLE:
  assumes ok: "setSt_ok l0 setSt" and "progress_inv l0 p"
    and "\<And>q. progress_inv l0 q \<Longrightarrow> Q () q"
    and "\<And>e q. progress_inv l0 q \<Longrightarrow> X e q"
    and "\<And>q. progress_inv l0 q \<Longrightarrow> D q"
  shows "wp (setSt IDLE) Q X D p"
  using assms(2-)
  by (auto intro!: setSt_okD [OF ok] simp: setSt_pre_def transition_in_order_def split: option.splits)

lemma sendAndConfirm_inv:
  assumes ok: "setSt_ok l0 setSt" and stays: "setSt_stays l0 c0 setSt" and cw: "clock_within ad c0"
    and idx: "state_index h \<le> state_index t" "h \<noteq> RETRYING" "t \<noteq> RETRYING"
    and put: "put = put_scWithdrawTx \<or> put = put_outTx \<or> put = put_scDepositTx"
    and p: "progress_inv l0 p" "state_is h p"
  shows "wp (sendAndConfirm ad txs (\<lambda>txId rawTx.
               seq (put txId rawTx) (seq (set_cooldown ad) (setSt t))))
           (\<lambda>_. progress_inv l0) (\<lambda>_. progress_inv l0) (progress_inv l0) p"
proof -
  have "wp (run_callbacks (\<lambda>txId rawTx.
               seq (put txId rawTx) (seq (set_cooldown ad) (setSt t))) evs)
          (\<lambda>_. wp (io_exn (sc_sendAndConfirm_end ad txs))
                  (\<lambda>_. progress_inv l0) (\<lambda>_. progress_inv l0) (progress_inv l0))
          (\<lambda>_. progress_inv l0) (progress_inv l0) (p\<lparr>world := w\<rparr>)" for evs w
  proof (rule wp_run_callbacks
      [where L = "\<lambda>q. progress_inv l0 q \<and> (state_is h q \<or> state_is t q)"])
    show "wp (seq (put txId rawTx) (seq (set_cooldown ad) (setSt t)))
           (\<lambda>_ q. progress_inv l0 q \<and> (state_is h q \<or> state_is t q))
           (\<lambda>_. progress_inv l0) (progress_inv l0) q"
      if "progress_inv l0 q \<and> (state_is h q \<or> state_is t q)" for txId rawTx q
      using ok stays cw idx put that by (rule callback_inv)
    show "progress_inv l0 (p\<lparr>world := w\<rparr>) \<and> (state_is h (p\<lparr>world := w\<rparr>) \<or> state_is t (p\<lparr>world := w\<rparr>))"
      using p by simp
    show "wp (io_exn (sc_sendAndConfirm_end ad txs))
            (\<lambda>_. progress_inv l0) (\<lambda>_. progress_inv l0) (progress_inv l0) q"
      if "progress_inv l0 q \<and> (state_is h q \<or> state_is t q)" for q
      using that by (auto split: prod.splits sum.splits)
  qed
  then show ?thesis
    unfolding sendAndConfirm_def by (auto split: prod.splits)
qed

lemma h_RETRYING_inv:
  assumes ok: "setSt_ok l0 setSt"
  shows "progress_inv l0 p \<Longrightarrow> state_is RETRYING p \<Longrightarrow>
     wp (h_RETRYING ad setSt) (\<lambda>_. progress_inv l0) (\<lambda>_. progress_inv l0) (progress_inv l0) p"
  unfolding h_RETRYING_def
  by (auto simp: state_is_def split: option.splits prod.splits intro!: setSt_okD [OF ok])
     (auto simp: inv_defs split: option.splits if_splits)

lemma h_SC_WITHDRAWING_inv:
  assumes ok: "setSt_ok l0 setSt"
  shows "progress_inv l0 p \<Longrightarrow> state_is SC_WITHDRAWING p \<Longrightarrow>
     wp (h_SC_WITHDRAWING ad setSt) (\<lambda>_. progress_inv l0) (\<lambda>_. progress_inv l0) (progress_inv l0) p"
  unfolding h_SC_WITHDRAWING_def
  by (auto simp: state_is_def split: option.splits prod.splits sum.splits scan_result.splits
      intro!: setSt_okD [OF ok] wp_scan_txs)
     (auto simp: inv_defs)

lemma h_OUT_TX_CONFIRMED_inv:
  assumes ok: "setSt_ok l0 setSt"
  shows "progress_inv l0 p \<Longrightarrow> state_is OUT_TX_CONFIRMED p \<Longrightarrow>
     wp (h_OUT_TX_CONFIRMED ad setSt) (\<lambda>_. progress_inv l0) (\<lambda>_. progress_inv l0) (progress_inv l0) p"
  unfolding h_OUT_TX_CONFIRMED_def
  by (auto simp: state_is_def split: option.splits prod.splits sum.splits
      intro!: setSt_okD [OF ok])
     (auto simp: inv_defs)

lemma h_DEPOSIT_RECEIVED_inv:
  assumes ok: "setSt_ok l0 setSt"
  shows "progress_inv l0 p \<Longrightarrow> state_is DEPOSIT_RECEIVED p \<Longrightarrow>
     wp (h_DEPOSIT_RECEIVED ad setSt) (\<lambda>_. progress_inv l0) (\<lambda>_. progress_inv l0) (progress_inv l0) p"
  unfolding h_DEPOSIT_RECEIVED_def set_cooldown_def
  by (auto simp: state_is_def split: option.splits prod.splits sum.splits
      intro!: setSt_okD [OF ok])
     (auto simp: inv_defs)

lemma h_TRADE_EXECUTING_inv:
  assumes ok: "setSt_ok l0 setSt"
  shows "progress_inv l0 p \<Longrightarrow> state_is TRADE_EXECUTING p \<Longrightarrow>
     wp (h_TRADE_EXECUTING ad setSt) (\<lambda>_. progress_inv l0) (\<lambda>_. progress_inv l0) (progress_inv l0) p"
  unfolding h_TRADE_EXECUTING_def
  by (auto simp: state_is_def split: option.splits prod.splits sum.splits exn.splits
      intro!: setSt_okD [OF ok] wp_schedule_retry [OF ok])
     (auto simp: inv_defs)

lemma h_TRADE_EXECUTED_inv:
  assumes ok: "setSt_ok l0 setSt"
  shows "progress_inv l0 p \<Longrightarrow> state_is TRADE_EXECUTED p \<Longrightarrow>
     wp (h_TRADE_EXECUTED ad setSt) (\<lambda>_. progress_inv l0) (\<lambda>_. progress_inv l0) (progress_inv l0) p"
  unfolding h_TRADE_EXECUTED_def set_cooldown_def
  by (auto simp: state_is_def split: option.splits prod.splits sum.splits
      intro!: setSt_okD [OF ok])
     (auto simp: inv_defs)

lemma h_FUNDS_TRANSFERING_inv:
  assumes ok: "setSt_ok l0 setSt"
  shows "progress_inv l0 p \<Longrightarrow> state_is FUNDS_TRANSFERING p \<Longrightarrow>
     wp (h_FUNDS_TRANSFERING ad setSt) (\<lambda>_. progress_inv l0) (\<lambda>_. progress_inv l0) (progress_inv l0) p"
  unfolding h_FUNDS_TRANSFERING_def
  by (auto simp: state_is_def split: option.splits prod.splits sum.splits
      intro!: setSt_okD [OF ok] wp_schedule_retry [OF ok])
     (auto simp: inv_defs)

lemma h_WITHDRAWING_inv:
  assumes ok: "setSt_ok l0 setSt"
  shows "progress_inv l0 p \<Longrightarrow> state_is WITHDRAWING p \<Longrightarrow>
     wp (h_WITHDRAWING ad setSt) (\<lambda>_. progress_inv l0) (\<lambda>_. progress_inv l0) (progress_inv l0) p"
  unfolding h_WITHDRAWING_def
  by (auto simp: state_is_def split: option.splits prod.splits sum.splits
      intro!: setSt_okD [OF ok] wp_schedule_retry [OF ok])
     (auto simp: inv_defs)

lemma h_WITHDRAWAL_SENT_inv:
  assumes ok: "setSt_ok l0 setSt"
  shows "progress_inv l0 p \<Longrightarrow> state_is WITHDRAWAL_SENT p \<Longrightarrow>
     wp (h_WITHDRAWAL_SENT ad setSt) (\<lambda>_. progress_inv l0) (\<lambda>_. progress_inv l0) (progress_inv l0) p"
  unfolding h_WITHDRAWAL_SENT_def
  by (auto simp: state_is_def split: option.splits prod.splits sum.splits
      intro!: setSt_okD [OF ok] wp_schedule_retry [OF ok])
     (auto simp: inv_defs)

lemma h_SC_DEPOSITING_inv:
  assumes ok: "setSt_ok l0 setSt"
  shows "progress_inv l0 p \<Longrightarrow> state_is SC_DEPOSITING p \<Longrightarrow>
     wp (h_SC_DEPOSITING ad setSt) (\<lambda>_. progress_inv l0) (\<lambda>_. progress_inv l0) (progress_inv l0) p"
  unfolding h_SC_DEPOSITING_def
  by (auto simp: state_is_def split: option.splits prod.splits sum.splits scan_result.splits
      intro!: setSt_okD [OF ok] wp_scan_txs wp_schedule_retry [OF ok])
     (auto simp: inv_defs)

lemma h_SC_DEPOSITED_inv:
  assumes ok: "setSt_ok l0 setSt"
  shows "progress_inv l0 p \<Longrightarrow> state_is SC_DEPOSITED p \<Longrightarrow>
     wp (h_SC_DEPOSITED ad setSt) (\<lambda>_. progress_inv l0) (\<lambda>_. progress_inv l0) (progress_inv l0) p"
  unfolding h_SC_DEPOSITED_def
  by (auto simp: state_is_def split: option.splits intro!: setSt_okD [OF ok])
     (auto simp: inv_defs)

lemma h_FINISHED_inv:
  shows "progress_inv l0 p \<Longrightarrow>
     wp (h_FINISHED ad setSt) (\<lambda>_. progress_inv l0) (\<lambda>_. progress_inv l0) (progress_inv l0) p"
  unfolding h_FINISHED_def archiveState_def
  by (auto simp: wp_def seq_def bnd_def io_def get_job_def throw_def ret_def fresh_state_def inv_defs
      split: option.splits prod.splits outcome.splits)

lemma h_SC_WITHDRAWAL_CONFIRMED_inv:
  assumes ok: "setSt_ok l0 setSt" and stays: "setSt_stays l0 c0 setSt" and cw: "clock_within ad c0"
  shows "progress_inv l0 p \<Longrightarrow> state_is SC_WITHDRAWAL_CONFIRMED p \<Longrightarrow>
     wp (h_SC_WITHDRAWAL_CONFIRMED ad setSt) (\<lambda>_. progress_inv l0) (\<lambda>_. progress_inv l0) (progress_inv l0) p"
  unfolding h_SC_WITHDRAWAL_CONFIRMED_def
  by (auto simp: state_is_def split: option.splits prod.splits sum.splits
      intro!: sendAndConfirm_inv [OF ok stays cw, where h = SC_WITHDRAWAL_CONFIRMED])
     (auto simp: inv_defs)

lemma h_IN_TX_CONFIRMED_inv:
  assumes ok: "setSt_ok l0 setSt" and stays: "setSt_stays l0 c0 setSt" and cw: "clock_within ad c0"
  shows "progress_inv l0 p \<Longrightarrow> state_is IN_TX_CONFIRMED p \<Longrightarrow>
     wp (h_IN_TX_CONFIRMED ad setSt) (\<lambda>_. progress_inv l0) (\<lambda>_. progress_inv l0) (progress_inv l0) p"
  unfolding h_IN_TX_CONFIRMED_def
  by (auto simp: state_is_def split: option.splits prod.splits sum.splits
      intro!: sendAndConfirm_inv [OF ok stays cw, where h = IN_TX_CONFIRMED] setSt_okD [OF ok])
     (auto simp: inv_defs)

lemma h_FUNDS_TRANSFERED_inv:
  assumes ok: "setSt_ok l0 setSt"
  shows "progress_inv l0 p \<Longrightarrow> state_is FUNDS_TRANSFERED p \<Longrightarrow>
     wp (h_FUNDS_TRANSFERED ad setSt) (\<lambda>_. progress_inv l0) (\<lambda>_. progress_inv l0) (progress_inv l0) p"
  unfolding h_FUNDS_TRANSFERED_def set_cooldown_def
  by (auto simp: state_is_def split: option.splits prod.splits sum.splits exn.splits
      intro!: setSt_okD [OF ok] wp_schedule_retry [OF ok])
     (auto simp: inv_defs)

lemma wp_set_cooldown_eq:
  "wp (set_cooldown ad) Q X D p =
     (case Date_now ad (world p) of (now, w) \<Rightarrow>
        (case job p of
           None \<Rightarrow> X TypeError (p\<lparr>world := w\<rparr>)
         | Some j \<Rightarrow> Q () (p\<lparr>world := w, job := Some (j\<lparr>cooldown := Some (now + 5 * 1000)\<rparr>)\<rparr>)))"
  unfolding set_cooldown_def by (simp split: prod.split option.split)

lemma h_TRIGGERED_inv:
  assumes ok: "setSt_ok l0 setSt" and stays: "setSt_stays l0 c0 setSt" and cw: "clock_within ad c0"
    and inv: "progress_inv l0 p" and st: "state_is TRIGGERED p"
  shows "wp (h_TRIGGERED ad setSt) (\<lambda>_. progress_inv l0) (\<lambda>_. progress_inv l0) (progress_inv l0) p"
proof -
  obtain j where j: "job p = Some j" "state j = Some TRIGGERED"
    using st by (auto simp: state_is_def split: option.splits)
  consider (ln) "srcToken j = Some ''BTC-LN''" | (btc) "srcToken j = Some ''BTC''"
    | (sc) "srcToken j \<noteq> Some ''BTC''" "srcToken j \<noteq> Some ''BTC-LN''"
    by blast
  then show ?thesis
  proof cases
    case ln
    show ?thesis
      unfolding h_TRIGGERED_def using j ln inv
      by (auto simp: wp_set_cooldown_eq split: option.splits prod.splits sum.splits
          intro!: setSt_okD [OF ok] wp_setSt_IDLE [OF ok])
         (auto simp: inv_defs)
  next
    case btc
    show ?thesis
      unfolding h_TRIGGERED_def using j btc inv
      by (auto simp: wp_set_cooldown_eq split: option.splits prod.splits sum.splits
          intro!: setSt_okD [OF ok] wp_setSt_IDLE [OF ok] wp_unlockUtxos)
         (auto simp: inv_defs)
  next
    case sc
    show ?thesis
      unfolding h_TRIGGERED_def using j sc inv
      by (auto simp: state_is_def split: option.splits prod.splits sum.splits
          intro!: sendAndConfirm_inv [OF ok stays cw, where h = TRIGGERED])
         (auto simp: inv_defs)
  qed
qed

text \<open>The chain of blocks and the body of \<^verbatim>\<open>check\<close>.\<close>

lemma run_blocks_inv:
  assumes "\<And>s h p. (s, h) \<in> set bs \<Longrightarrow> progress_inv l0 p \<Longrightarrow> state_is s p \<Longrightarrow>
             wp h (\<lambda>_. progress_inv l0) (\<lambda>_. progress_inv l0) (progress_inv l0) p"
    and "progress_inv l0 p"
  shows "wp (run_blocks bs) (\<lambda>_. progress_inv l0) (\<lambda>_. progress_inv l0) (progress_inv l0) p"
  using assms
proof (induction bs arbitrary: p)
  case Nil
  then show ?case by simp
next
  case (Cons b bs)
  obtain s h where b: "b = (s, h)" by (cases b)
  have rest: "wp (run_blocks bs) (\<lambda>_. progress_inv l0) (\<lambda>_. progress_inv l0) (progress_inv l0) q"
    if "progress_inv l0 q" for q
    using that by (intro Cons.IH Cons.prems(1)) simp_all
  have hd: "wp h (\<lambda>_. progress_inv l0) (\<lambda>_. progress_inv l0) (progress_inv l0) p"
    if "state_is s p"
    using that Cons.prems(2) by (intro Cons.prems(1)) (simp_all add: b)
  show ?case
  proof (cases "job p")
    case None
    then show ?thesis using Cons.prems(2) by (simp add: b)
  next
    case (Some j)
    show ?thesis
    proof (cases "state j = Some s")
      case True
      then have "state_is s p" using Some by (simp add: state_is_def)
      then have "wp h (\<lambda>returned. wp (if returned then ret () else run_blocks bs)
                   (\<lambda>_. progress_inv l0) (\<lambda>_. progress_inv l0) (progress_inv l0))
                   (\<lambda>_. progress_inv l0) (progress_inv l0) p"
        by (intro wp_mono [OF hd]) (auto intro: rest)
      then show ?thesis using Some True by (simp add: b)
    next
      case False
      then show ?thesis using Some Cons.prems(2) by (simp add: b rest)
    qed
  qed
qed

lemma blocks_inv:
  assumes ok: "setSt_ok l0 setSt" and stays: "setSt_stays l0 c0 setSt" and cw: "clock_within ad c0"
    and "(s, h) \<in> set (blocks ad setSt)" and "progress_inv l0 p" and "state_is s p"
  shows "wp h (\<lambda>_. progress_inv l0) (\<lambda>_. progress_inv l0) (progress_inv l0) p"
  using assms(4-)
  unfolding blocks_def
  by (auto intro: h_RETRYING_inv [OF ok] h_TRIGGERED_inv [OF ok stays cw]
      h_SC_WITHDRAWING_inv [OF ok] h_SC_WITHDRAWAL_CONFIRMED_inv [OF ok stays cw]
      h_OUT_TX_inv [OF ok] h_OUT_TX_CONFIRMED_inv [OF ok] h_DEPOSIT_RECEIVED_inv [OF ok]
      h_TRADE_EXECUTING_inv [OF ok] h_TRADE_EXECUTED_inv [OF ok] h_FUNDS_TRANSFERING_inv [OF ok]
      h_FUNDS_TRANSFERED_inv [OF ok] h_WITHDRAWING_inv [OF ok] h_WITHDRAWAL_SENT_inv [OF ok]
      h_IN_TX_CONFIRMED_inv [OF ok stays cw] h_SC_DEPOSITING_inv [OF ok] h_SC_DEPOSITED_inv [OF ok]
      h_FINISHED_inv)

lemma wp_check_body:
  "wp (check_body ad setSt) Q X D p =
     (case job p of
        None \<Rightarrow> Q () p
      | Some j \<Rightarrow>
          wp (bnd (io (Date_now ad)) (\<lambda>now.
                if opt_greater (cooldown j) now then ret ()
                else run_blocks (blocks ad setSt))) Q X D p)"
  by (cases "job p") (simp_all add: wp_def check_body_def del: wp_bnd)

lemma wp_raw: "wp (\<lambda>p. (Ret a, f p)) Q X D p = Q a (f p)"
  by (simp add: wp_def)

lemma check_body_inv:
  assumes ok: "setSt_ok l0 setSt" and stays: "setSt_stays l0 c0 setSt" and cw: "clock_within ad c0"
    and inv: "progress_inv l0 p"
  shows "wp (check_body ad setSt) (\<lambda>_. progress_inv l0) (\<lambda>_. progress_inv l0) (progress_inv l0) p"
proof (cases "job p")
  case None
  then show ?thesis using inv by (simp add: wp_check_body)
next
  case (Some j)
  have "wp (run_blocks (blocks ad setSt)) (\<lambda>_. progress_inv l0) (\<lambda>_. progress_inv l0)
          (progress_inv l0) (p\<lparr>world := w\<rparr>)" for w
    by (rule run_blocks_inv) (auto intro: blocks_inv [OF ok stays cw] simp: inv)
  then have "wp (bnd (io (Date_now ad)) (\<lambda>now.
            if opt_greater (cooldown j) now then ret ()
            else run_blocks (blocks ad setSt)))
         (\<lambda>_. progress_inv l0) (\<lambda>_. progress_inv l0) (progress_inv l0) p"
    using inv by (auto split: prod.splits)
  then show ?thesis using Some by (simp add: wp_check_body)
qed

text \<open>A job whose cooldown lies beyond the window of the clock: check does nothing.\<close>

lemma check_cooled:
  assumes cw: "clock_within ad c0" and "cooled c0 p"
    and "\<And>w. Q () (p\<lparr>world := w\<rparr>)" and "D p"
  shows "wp (check n ad) Q X D p"
proof (cases n)
  case 0
  then show ?thesis using assms(4) by (simp add: wp_def)
next
  case (Suc m)
  obtain j c where j: "job p = Some j" "cooldown j = Some c" "c0 + 5 * 1000 \<le> c"
    using assms(2) by (auto simp: cooled_def split: option.splits)
  have "wp (bnd (io (Date_now ad)) (\<lambda>now.
            if opt_greater (cooldown j) now then ret ()
            else run_blocks (blocks ad (setState ad (check m ad))))) Q X D p"
    using j assms(3) by (auto split: prod.splits simp: opt_greater_def dest: clock_withinD [OF cw])
  then show ?thesis using j Suc by (simp add: wp_check_body)
qed

text \<open>
  \<^verbatim>\<open>setState\<close> has the two properties when the \<^verbatim>\<open>check\<close> it ends with keeps the invariant
  and returns at once from a job that is cooling down. A failed write leaves the state
  field changed and nothing logged; the check of the required fields has made sure
  before that a job sent to RETRYING has its \<^verbatim>\<open>retryState\<close>.
\<close>

lemma wp_log_transition:
  "wp (log_transition old new) Q X D p = Q () (p\<lparr>transitions := transitions p @ [(old, new)]\<rparr>)"
  by (simp add: wp_def log_transition_def)

lemma logged_append:
  assumes "take (length l0) l = l0" and "list_all P (drop (length l0) l)" and "P x"
  shows "take (length l0) (l @ [x]) = l0 \<and> list_all P (drop (length l0) (l @ [x]))"
proof -
  have "length (take (length l0) l) = length l0" using assms(1) by simp
  then have "length l0 \<le> length l" by simp
  then show ?thesis using assms by simp
qed

lemma required_retryState:
  "find (field_is_null j) (REQUIRED_FIELDS RETRYING) = None \<Longrightarrow> retryState j \<noteq> None"
  by (auto simp: REQUIRED_FIELDS_def field_is_null_def split: if_splits)

lemma wp_saveState:
  assumes "job p = Some j"
    and "\<And>w. Q () (p\<lparr>world := w, storage := Some (serializeState j)\<rparr>)"
    and "\<And>e w. X e (p\<lparr>world := w\<rparr>)"
  shows "wp (saveState ad) Q X D p"
  unfolding saveState_def using assms
  by (auto split: prod.splits option.splits simp: wp_raw)

lemma setState_inv:
  fixes chk :: "('w, unit) action"
  assumes chk: "\<And>q. progress_inv l0 q \<Longrightarrow>
      wp chk (\<lambda>_. progress_inv l0) (\<lambda>_. progress_inv l0) (progress_inv l0) q"
  shows "setSt_ok l0 (setState ad chk)"
  unfolding setSt_ok_def
proof (intro allI impI)
  fix t and p :: "'w plugin"
  assume a: "progress_inv l0 p \<and> setSt_pre t p"
  show "wp (setState ad chk t) (\<lambda>_. progress_inv l0) (\<lambda>_. progress_inv l0) (progress_inv l0) p"
  proof (cases "job p")
    case None
    then show ?thesis using a by (simp add: setState_def)
  next
    case (Some j)
    show ?thesis
    proof (cases "find (field_is_null j) (REQUIRED_FIELDS t)")
      case (Some f)
      then show ?thesis using a \<open>job p = Some j\<close> by (simp add: setState_def)
    next
      case None
      have rr: "t = RETRYING \<Longrightarrow> retryState j \<noteq> None"
        using None by (auto dest: required_retryState)
      let ?j = "j\<lparr>state := Some t\<rparr>"
      have pre: "transition_in_order (state j, t)"
        using a \<open>job p = Some j\<close> by (simp add: setSt_pre_def)
      have rec: "retry_recorded (p\<lparr>job := Some ?j\<rparr>)"
        using a \<open>job p = Some j\<close> rr
        by (auto simp: retry_recorded_def setSt_pre_def split: option.splits if_splits)
      have tk: "take (length l0) (transitions p) = l0"
        and la: "list_all transition_in_order (drop (length l0) (transitions p))"
        using a by (simp_all add: progress_inv_def logged_since_def)
      have inv1: "progress_inv l0 (p\<lparr>job := Some ?j\<rparr>)"
        using rec tk la by (simp add: progress_inv_def retry_recorded_def logged_since_def)
      have inv2: "progress_inv l0 (p\<lparr>job := Some ?j, world := w, storage := d,
                    transitions := transitions p @ [(state j, t)]\<rparr>)" for w d
        using rec logged_append [OF tk la pre]
        by (simp add: progress_inv_def retry_recorded_def logged_since_def)
      have "wp (saveState ad)
              (\<lambda>_. wp (log_transition (state j) t)
                 (\<lambda>_. wp chk (\<lambda>_. progress_inv l0) (\<lambda>_. progress_inv l0) (progress_inv l0))
                 (\<lambda>_. progress_inv l0) (progress_inv l0))
              (\<lambda>_. progress_inv l0) (progress_inv l0) (p\<lparr>job := Some ?j\<rparr>)"
        by (rule wp_saveState [where j = ?j])
           (auto simp: wp_log_transition inv1 intro!: chk inv2)
      then show ?thesis
        using None \<open>job p = Some j\<close> by (simp add: setState_def)
    qed
  qed
qed

lemma setState_stays:
  fixes chk :: "('w, unit) action"
  assumes cool: "\<And>(q :: 'w plugin) Q X D. cooled c0 q \<Longrightarrow> (\<And>w. Q () (q\<lparr>world := w\<rparr>)) \<Longrightarrow> D q
             \<Longrightarrow> wp chk Q X D q"
  shows "setSt_stays l0 c0 (setState ad chk)"
  unfolding setSt_stays_def
proof (intro allI impI)
  fix t and p :: "'w plugin"
  assume a: "progress_inv l0 p \<and> setSt_pre t p \<and> cooled c0 p"
  obtain j where j: "job p = Some j" using a by (auto simp: cooled_def split: option.splits)
  show "wp (setState ad chk t) (\<lambda>_ q. progress_inv l0 q \<and> state_is t q)
          (\<lambda>_. progress_inv l0) (progress_inv l0) p"
  proof (cases "find (field_is_null j) (REQUIRED_FIELDS t)")
    case (Some f)
    then show ?thesis using a j by (simp add: setState_def)
  next
    case None
    have rr: "t = RETRYING \<Longrightarrow> retryState j \<noteq> None"
      using None by (auto dest: required_retryState)
    let ?j = "j\<lparr>state := Some t\<rparr>"
    have pre: "transition_in_order (state j, t)"
      using a j by (simp add: setSt_pre_def)
    have rec: "retry_recorded (p\<lparr>job := Some ?j\<rparr>)"
      using a j rr
      by (auto simp: retry_recorded_def setSt_pre_def split: option.splits if_splits)
    have tk: "take (length l0) (transitions p) = l0"
      and la: "list_all transition_in_order (drop (length l0) (transitions p))"
      using a by (simp_all add: progress_inv_def logged_since_def)
    have inv1: "progress_inv l0 (p\<lparr>job := Some ?j\<rparr>)"
      using rec tk la by (simp add: progress_inv_def retry_recorded_def logged_since_def)
    have inv2: "progress_inv l0 (p\<lparr>job := Some ?j, world := w, storage := d,
                  transitions := transitions p @ [(state j, t)]\<rparr>)" for w d
      using rec logged_append [OF tk la pre]
      by (simp add: progress_inv_def retry_recorded_def logged_since_def)
    have "wp chk (\<lambda>_ q. progress_inv l0 q \<and> state_is t q)
              (\<lambda>_. progress_inv l0) (progress_inv l0)
              (p\<lparr>job := Some ?j, world := w, storage := d,
                 transitions := transitions p @ [(state j, t)]\<rparr>)" for w d
    proof (rule cool)
      show "cooled c0 (p\<lparr>job := Some ?j, world := w, storage := d,
                 transitions := transitions p @ [(state j, t)]\<rparr>)"
        using a j by (simp add: cooled_def)
      show "progress_inv l0 (p\<lparr>job := Some ?j, world := w, storage := d,
                 transitions := transitions p @ [(state j, t)]\<rparr>\<lparr>world := w'\<rparr>) \<and>
            state_is t (p\<lparr>job := Some ?j, world := w, storage := d,
                 transitions := transitions p @ [(state j, t)]\<rparr>\<lparr>world := w'\<rparr>)" for w'
      proof
        show "progress_inv l0 (p\<lparr>job := Some ?j, world := w, storage := d,
                 transitions := transitions p @ [(state j, t)]\<rparr>\<lparr>world := w'\<rparr>)"
          unfolding inv_world by (rule inv2)
        show "state_is t (p\<lparr>job := Some ?j, world := w, storage := d,
                 transitions := transitions p @ [(state j, t)]\<rparr>\<lparr>world := w'\<rparr>)"
          by (simp add: state_is_def)
      qed
      show "progress_inv l0 (p\<lparr>job := Some ?j, world := w, storage := d,
                 transitions := transitions p @ [(state j, t)]\<rparr>)"
        by (rule inv2)
    qed
    then have "wp (saveState ad)
            (\<lambda>_. wp (log_transition (state j) t)
               (\<lambda>_. wp chk (\<lambda>_ q. progress_inv l0 q \<and> state_is t q)
                       (\<lambda>_. progress_inv l0) (progress_inv l0))
               (\<lambda>_. progress_inv l0) (progress_inv l0))
            (\<lambda>_. progress_inv l0) (progress_inv l0) (p\<lparr>job := Some ?j\<rparr>)"
      by (intro wp_saveState [where j = ?j])
         (auto simp: wp_log_transition inv1)
    then show ?thesis
      using None j by (simp add: setState_def)
  qed
qed

text \<open>By induction on the fuel, \<^verbatim>\<open>check\<close> keeps the invariant.\<close>

lemma check_inv:
  assumes cw: "clock_within ad c0"
  shows "progress_inv l0 p \<Longrightarrow>
     wp (check n ad) (\<lambda>_. progress_inv l0) (\<lambda>_. progress_inv l0) (progress_inv l0) p"
proof (induction n arbitrary: p)
  case 0
  then show ?case by (simp add: wp_def)
next
  case (Suc n)
  have ok: "setSt_ok l0 (setState ad (check n ad))"
    by (rule setState_inv) (rule Suc.IH)
  have stays: "setSt_stays l0 c0 (setState ad (check n ad))"
    by (rule setState_stays) (rule check_cooled [OF cw])
  show ?case
    using check_body_inv [OF ok stays cw Suc.prems] by simp
qed




section \<open>The outcomes of setState\<close>

text \<open>
  Claim C4 as it is stated does not hold: \<^verbatim>\<open>setState\<close> ends with \<^verbatim>\<open>await this.check()\<close>,
  and an exception of that call leaves \<^verbatim>\<open>setState\<close> after the state field was changed and
  the document written. Here the job enters \<^verbatim>\<open>OUT_TX_CONFIRMED\<close> while the venue is out of
  service: \<^verbatim>\<open>setState\<close> throws the error of \<^verbatim>\<open>getDeposit\<close>, and both the state in memory
  and the document on the disk have changed from OUT_TX to \<^verbatim>\<open>OUT_TX_CONFIRMED\<close>.
\<close>

theorem setState_throws_after_persist:
  "fst (setState sim_adapters (check 1 sim_adapters) OUT_TX_CONFIRMED
          (plugin_with job_paid (sim_down 7000)))
     = Thrown (OKXError ''Service unavailable'' ''50001'')
   \<and> job (snd (setState sim_adapters (check 1 sim_adapters) OUT_TX_CONFIRMED
          (plugin_with job_paid (sim_down 7000))))
     = Some (job_paid\<lparr>state := Some OUT_TX_CONFIRMED\<rparr>)
   \<and> storage (snd (setState sim_adapters (check 1 sim_adapters) OUT_TX_CONFIRMED
          (plugin_with job_paid (sim_down 7000))))
     = Some (serializeState (job_paid\<lparr>state := Some OUT_TX_CONFIRMED\<rparr>))
   \<and> state job_paid = Some OUT_TX
   \<and> storage (plugin_with job_paid (sim_down 7000)) = Some (serializeState job_paid)
   \<and> state (serializeState job_paid) = Some OUT_TX
   \<and> state (serializeState (job_paid\<lparr>state := Some OUT_TX_CONFIRMED\<rparr>)) = Some OUT_TX_CONFIRMED"
  by (simp add: engine_defs action_defs sim_defs sim_down_def job_paid_def job_out_def
      serializeState_def)

text \<open>
  Claim C4, amended: for every target state \<open>S\<close> and every job document in memory,
  \<^verbatim>\<open>setState(S)\<close> either throws at the first field of \<^verbatim>\<open>REQUIRED_FIELDS[S]\<close> that is
  \<^verbatim>\<open>null\<close>, before it changes the state field, leaving the document in memory and the
  one on the disk as they were; or every field named in \<^verbatim>\<open>REQUIRED_FIELDS[S]\<close> is
  non-null, the state field is set and the document with the new state is written to the
  disk, after which \<^verbatim>\<open>setState\<close> goes on as \<^verbatim>\<open>check\<close> does from there, ending as it ends;
  or, when the write fails, it throws the error of the write with the state field
  changed in memory and the disk as it was.
\<close>

theorem setState_outcomes:
  assumes "job p = Some j"
  shows "(find (field_is_null j) (REQUIRED_FIELDS S) = Some f \<longrightarrow>
            setState ad chk S p
              = (Thrown (Error (''Invalid state transition, missing field: '' @ f)), p))
       \<and> (find (field_is_null j) (REQUIRED_FIELDS S) = None \<and> fs_fault ad (world p) = (None, w) \<longrightarrow>
            (\<forall>f \<in> set (REQUIRED_FIELDS S). \<not> field_is_null j f)
            \<and> setState ad chk S p
              = chk (p\<lparr>job := Some (j\<lparr>state := Some S\<rparr>), world := w,
                       storage := Some (serializeState (j\<lparr>state := Some S\<rparr>)),
                       transitions := transitions p @ [(state j, S)]\<rparr>))
       \<and> (find (field_is_null j) (REQUIRED_FIELDS S) = None \<and> fs_fault ad (world p) = (Some e, w) \<longrightarrow>
            setState ad chk S p = (Thrown e, p\<lparr>job := Some (j\<lparr>state := Some S\<rparr>), world := w\<rparr>))"
proof (intro conjI impI ballI)
  assume "find (field_is_null j) (REQUIRED_FIELDS S) = Some f"
  then show "setState ad chk S p
              = (Thrown (Error (''Invalid state transition, missing field: '' @ f)), p)"
    using assms by (simp add: setState_def action_defs)
next
  fix g
  assume "find (field_is_null j) (REQUIRED_FIELDS S) = None \<and> fs_fault ad (world p) = (None, w)"
    and "g \<in> set (REQUIRED_FIELDS S)"
  then show "\<not> field_is_null j g" by (auto simp: find_None_iff)
next
  assume "find (field_is_null j) (REQUIRED_FIELDS S) = None \<and> fs_fault ad (world p) = (None, w)"
  then show "setState ad chk S p
              = chk (p\<lparr>job := Some (j\<lparr>state := Some S\<rparr>), world := w,
                       storage := Some (serializeState (j\<lparr>state := Some S\<rparr>)),
                       transitions := transitions p @ [(state j, S)]\<rparr>)"
    using assms by (simp add: setState_def action_defs)
next
  assume "find (field_is_null j) (REQUIRED_FIELDS S) = None \<and> fs_fault ad (world p) = (Some e, w)"
  then show "setState ad chk S p = (Thrown e, p\<lparr>job := Some (j\<lparr>state := Some S\<rparr>), world := w\<rparr>)"
    using assms by (simp add: setState_def action_defs)
qed

theorem setState_outcomes_witness:
  "job (plugin_with job_out (sim_start 7000)) = Some job_out
   \<and> find (field_is_null job_out) (REQUIRED_FIELDS OUT_TX_CONFIRMED) = Some ''outTxId''
   \<and> setState sim_adapters (check 1 sim_adapters) OUT_TX_CONFIRMED (plugin_with job_out (sim_start 7000))
       = (Thrown (Error ''Invalid state transition, missing field: outTxId''),
          plugin_with job_out (sim_start 7000))
   \<and> find (field_is_null job_out) (REQUIRED_FIELDS IDLE) = None
   \<and> fs_fault sim_adapters (world (plugin_with job_out (sim_start 7000))) = (None, sim_start 7000)
   \<and> setState sim_adapters (check 1 sim_adapters) IDLE (plugin_with job_out (sim_start 7000))
       = (Ret (), (plugin_with job_out (sim_start 7000))
            \<lparr>job := Some (job_out\<lparr>state := Some IDLE\<rparr>),
             storage := Some (serializeState (job_out\<lparr>state := Some IDLE\<rparr>)),
             transitions := [(Some OUT_TX, IDLE)]\<rparr>)"
proof -
  have a: "job (plugin_with job_out (sim_start 7000)) = Some job_out"
    by (simp add: plugin_with_def)
  have b: "find (field_is_null job_out) (REQUIRED_FIELDS OUT_TX_CONFIRMED) = Some ''outTxId''"
    by (simp add: REQUIRED_FIELDS_def field_is_null_def job_out_def seed_job_def fresh_state_def)
  have c: "find (field_is_null job_out) (REQUIRED_FIELDS IDLE) = None"
    by (simp add: REQUIRED_FIELDS_def)
  have d: "fs_fault sim_adapters (world (plugin_with job_out (sim_start 7000))) = (None, sim_start 7000)"
    by (simp add: sim_adapters_def plugin_with_def)
  have e: "check 1 sim_adapters ((plugin_with job_out (sim_start 7000))
            \<lparr>job := Some (job_out\<lparr>state := Some IDLE\<rparr>), world := sim_start 7000,
             storage := Some (serializeState (job_out\<lparr>state := Some IDLE\<rparr>)),
             transitions := transitions (plugin_with job_out (sim_start 7000)) @ [(state job_out, IDLE)]\<rparr>)
         = (Ret (), (plugin_with job_out (sim_start 7000))
            \<lparr>job := Some (job_out\<lparr>state := Some IDLE\<rparr>),
             storage := Some (serializeState (job_out\<lparr>state := Some IDLE\<rparr>)),
             transitions := [(Some OUT_TX, IDLE)]\<rparr>)"
    by (simp add: engine_defs action_defs sim_defs job_out_def)
  note t = setState_outcomes [OF a, where ad = sim_adapters and chk = "check 1 sim_adapters"]
  note t1 = t [where S = OUT_TX_CONFIRMED and f = "''outTxId''", THEN conjunct1, rule_format, OF b]
  note t2 = t [where S = IDLE and w = "sim_start 7000", THEN conjunct2, THEN conjunct1,
      rule_format, OF conjI [OF c d], THEN conjunct2]
  show ?thesis
    using t1 t2 a b c d e by simp
qed

section \<open>A crash between the persist of OUT_TX and the payment\<close>

text \<open>
  Claim C1 on its named instance, a job out of the Lightning balance. The TRIGGERED
  handler stopped right after \<^verbatim>\<open>setState(OUT_TX)\<close> has written the document (the first
  equation: \<^verbatim>\<open>check\<close> with fuel for one level stops where \<^verbatim>\<open>setState\<close> would call
  \<^verbatim>\<open>check\<close> again) leaves the OUT_TX document on the disk and no payment made. A process
  that starts from that document loads the job in OUT_TX, and its first \<^verbatim>\<open>check\<close> finds
  no payment and sends the job to IDLE, where it ends. The run without a crash makes
  the payment in the first \<^verbatim>\<open>check\<close>, and its next \<^verbatim>\<open>check\<close> goes on to
  \<^verbatim>\<open>OUT_TX_CONFIRMED\<close> and beyond. The two runs do not end in the same state.
\<close>

theorem crash_before_payment:
  "check 1 sim_adapters (plugin_with job_triggered (sim_start 1000))
     = (Diverged, \<lparr>job = Some job_out, storage = Some (serializeState job_out), archived = [],
                   transitions = [(Some TRIGGERED, OUT_TX)], world = sim_start 1000\<rparr>)
   \<and> loadState (restarted (Some (serializeState job_out)) (sim_start 7000))
     = (Ret (), (restarted (Some (serializeState job_out)) (sim_start 7000))\<lparr>job := Some job_out\<rparr>)
   \<and> check 2 sim_adapters ((restarted (Some (serializeState job_out)) (sim_start 7000))\<lparr>job := Some job_out\<rparr>)
     = (Ret (), \<lparr>job = Some (job_out\<lparr>state := Some IDLE\<rparr>),
                 storage = Some (serializeState (job_out\<lparr>state := Some IDLE\<rparr>)), archived = [],
                 transitions = [(Some OUT_TX, IDLE)], world = sim_start 7000\<rparr>)
   \<and> check 2 sim_adapters (plugin_with job_triggered (sim_start 1000))
     = (Ret (), \<lparr>job = Some job_out, storage = Some (serializeState job_out), archived = [],
                 transitions = [(Some TRIGGERED, OUT_TX)],
                 world = (sim_start 1000)\<lparr>paid := [''hash:lnbc1invoice'']\<rparr>\<rparr>)
   \<and> transitions (snd (check 3 sim_adapters
         \<lparr>job = Some job_out, storage = Some (serializeState job_out), archived = [],
          transitions = [], world = (sim_start 7000)\<lparr>paid := [''hash:lnbc1invoice'']\<rparr>\<rparr>))
     = [(Some OUT_TX, OUT_TX_CONFIRMED), (Some OUT_TX_CONFIRMED, DEPOSIT_RECEIVED),
        (Some DEPOSIT_RECEIVED, TRADE_EXECUTING)]"
proof (intro conjI)
  show "check 1 sim_adapters (plugin_with job_triggered (sim_start 1000))
     = (Diverged, \<lparr>job = Some job_out, storage = Some (serializeState job_out), archived = [],
                   transitions = [(Some TRIGGERED, OUT_TX)], world = sim_start 1000\<rparr>)"
    by (simp add: engine_defs action_defs sim_defs job_triggered_def job_out_def)
  show "loadState (restarted (Some (serializeState job_out)) (sim_start 7000))
     = (Ret (), (restarted (Some (serializeState job_out)) (sim_start 7000))\<lparr>job := Some job_out\<rparr>)"
    by (simp add: loadState_def restarted_def parse_serialize)
  show "check 2 sim_adapters ((restarted (Some (serializeState job_out)) (sim_start 7000))\<lparr>job := Some job_out\<rparr>)
     = (Ret (), \<lparr>job = Some (job_out\<lparr>state := Some IDLE\<rparr>),
                 storage = Some (serializeState (job_out\<lparr>state := Some IDLE\<rparr>)), archived = [],
                 transitions = [(Some OUT_TX, IDLE)], world = sim_start 7000\<rparr>)"
    by (simp add: numeral_2_eq_2 engine_defs action_defs sim_defs restarted_def job_out_def)
  show "check 2 sim_adapters (plugin_with job_triggered (sim_start 1000))
     = (Ret (), \<lparr>job = Some job_out, storage = Some (serializeState job_out), archived = [],
                 transitions = [(Some TRIGGERED, OUT_TX)],
                 world = (sim_start 1000)\<lparr>paid := [''hash:lnbc1invoice'']\<rparr>\<rparr>)"
    by (simp add: numeral_2_eq_2 engine_defs action_defs sim_defs job_triggered_def job_out_def)
  show "transitions (snd (check 3 sim_adapters
         \<lparr>job = Some job_out, storage = Some (serializeState job_out), archived = [],
          transitions = [], world = (sim_start 7000)\<lparr>paid := [''hash:lnbc1invoice'']\<rparr>\<rparr>))
     = [(Some OUT_TX, OUT_TX_CONFIRMED), (Some OUT_TX_CONFIRMED, DEPOSIT_RECEIVED),
        (Some DEPOSIT_RECEIVED, TRADE_EXECUTING)]"
    by (simp add: numeral_3_eq_3 engine_defs action_defs sim_defs job_out_def)
qed

end
